theory Spec2Isabelle
  imports Main "HOL-Library.AList"
begin

section \<open>Python values, exceptions and containers\<close>

text \<open>
  The exceptions the chat connection code can raise or catch.  \<open>StatementError\<close> is what
  SQLAlchemy raises when a flush fails (the class itself or a subclass of it such as
  \<open>DataError\<close> or \<open>IntegrityError\<close>); \<open>PendingRollbackError\<close> is what it raises when a
  session is used after a failed flush.  \<open>RuntimeError\<close> stands for every exception of
  class \<open>Exception\<close> that is none of the others (a failed \<open>send_json\<close>, a failed
  \<open>receive_json\<close>).
\<close>

datatype error = KeyError | ValueError | AttributeError | WebSocketDisconnect
  | JSONDecodeError | MultipleResultsFound | StatementError | PendingRollbackError
  | RuntimeError

text \<open>A call either returns a value or raises; the state reached is kept in both cases.\<close>

datatype 'a outcome = Returned 'a | Raised error

text \<open>
  A Python \<open>set\<close> is a duplicate-free list; \<open>list(s)\<close> is the list itself.  The order
  of the list stands for the iteration order of the set, which Python leaves open.
\<close>

type_synonym 'a pyset = "'a list"

definition set_add :: "'a \<Rightarrow> 'a pyset \<Rightarrow> 'a pyset" where
  "set_add x s = (if x \<in> set s then s else s @ [x])"

definition set_discard :: "'a \<Rightarrow> 'a pyset \<Rightarrow> 'a pyset" where
  "set_discard x s = removeAll x s"

text \<open>
  A JSON value of an inbound frame, as far as the handlers look at it: \<open>null\<close>, a boolean,
  an integer or a string.
\<close>

datatype json = JNull | JBool bool | JNum int | JStr string

text \<open>Python truthiness (\<open>if x:\<close>) of such a value.\<close>

fun truthy :: "json \<Rightarrow> bool" where
  "truthy JNull = False"
| "truthy (JBool b) = b"
| "truthy (JNum n) = (n \<noteq> 0)"
| "truthy (JStr s) = (s \<noteq> [])"

section \<open>Data model (models.py)\<close>

type_synonym uuid = nat

datatype user_type = HUMAN | BOT

datatype room_role = OWNER | MOD | MEMBER | VIEWER | BOT_ROLE

record chat_user =
  cu_id :: uuid
  username :: string
  is_active :: bool
  cu_type :: user_type
  bot_display_name :: "string option"
  bot_slug :: "string option"

record chat_room =
  cr_id :: uuid
  cr_name :: string

record chat_room_member =
  crm_room_id :: uuid
  crm_user_id :: uuid
  role :: room_role

text \<open>
  The \<open>reply_to_id\<close> handed to \<open>create_chat_message\<close>: \<open>None\<close>, a parsed UUID, or the
  raw JSON value when the handler passed it on without parsing.
\<close>

datatype reply_ref = NoReply | ReplyTo uuid | Unparsed json

record chat_message =
  cm_id :: uuid
  cm_room_id :: uuid
  cm_sender_id :: uuid
  cm_sender_type :: user_type
  cm_content :: string
  cm_reply_to_id :: reply_ref

section \<open>The connection registry (class ConnectionManager)\<close>

text \<open>A WebSocket object is known by its identity.\<close>

type_synonym ws = nat

text \<open>
  The three dictionaries of the manager.  The inner dictionary of \<open>connections\<close> is an
  association list in insertion order, because \<open>broadcast\<close> iterates over its items.
\<close>

record manager =
  connections :: "string \<rightharpoonup> (string \<times> ws) list"
  room_users :: "string \<rightharpoonup> string pyset"
  user_rooms :: "string \<rightharpoonup> string pyset"

definition ConnectionManager_init :: manager where
  "ConnectionManager_init =
     \<lparr>connections = Map.empty, room_users = Map.empty, user_rooms = Map.empty\<rparr>"

text \<open>
  The block of \<open>connect\<close> under the lock.  \<open>self.room_users[room_id].add\<close> and
  \<open>self.user_rooms[user_id].add\<close> raise \<open>KeyError\<close> on a missing key, after the
  assignments before them have happened.
\<close>

definition connect_locked :: "ws \<Rightarrow> string \<Rightarrow> string \<Rightarrow> manager \<Rightarrow> unit outcome \<times> manager" where
  "connect_locked websocket room_id user_id m =
    (let m1 = (if connections m room_id = None
               then m\<lparr>connections := (connections m)(room_id \<mapsto> []),
                      room_users := (room_users m)(room_id \<mapsto> [])\<rparr>
               else m)
     in case connections m1 room_id of
          None \<Rightarrow> (Raised KeyError, m1)
        | Some d \<Rightarrow>
           (let m2 = m1\<lparr>connections :=
                          (connections m1)(room_id \<mapsto> AList.update user_id websocket d)\<rparr>
            in case room_users m2 room_id of
                 None \<Rightarrow> (Raised KeyError, m2)
               | Some s \<Rightarrow>
                  (let m3 = m2\<lparr>room_users := (room_users m2)(room_id \<mapsto> set_add user_id s)\<rparr>;
                       m4 = (if user_rooms m3 user_id = None
                             then m3\<lparr>user_rooms := (user_rooms m3)(user_id \<mapsto> [])\<rparr>
                             else m3)
                   in case user_rooms m4 user_id of
                        None \<Rightarrow> (Raised KeyError, m4)
                      | Some rs \<Rightarrow>
                         (Returned (),
                          m4\<lparr>user_rooms := (user_rooms m4)(user_id \<mapsto> set_add room_id rs)\<rparr>))))"

text \<open>The first \<open>if\<close> of \<open>disconnect\<close>: the room's side of the entry.\<close>

definition disconnect_room :: "string \<Rightarrow> string \<Rightarrow> manager \<Rightarrow> unit outcome \<times> manager" where
  "disconnect_room room_id user_id m =
    (case connections m room_id of
       None \<Rightarrow> (Returned (), m)
     | Some d \<Rightarrow>
        if user_id \<in> set (map fst d) then
          (let d' = AList.delete user_id d;
               m1 = m\<lparr>connections := (connections m)(room_id \<mapsto> d')\<rparr>
           in case room_users m1 room_id of
                None \<Rightarrow> (Raised KeyError, m1)
              | Some s \<Rightarrow>
                 (let m2 = m1\<lparr>room_users := (room_users m1)(room_id \<mapsto> set_discard user_id s)\<rparr>
                  in if d' = []
                     then (Returned (), m2\<lparr>connections := (connections m2)(room_id := None),
                                            room_users := (room_users m2)(room_id := None)\<rparr>)
                     else (Returned (), m2)))
        else (Returned (), m))"

text \<open>The second \<open>if\<close> of \<open>disconnect\<close>: the user's side.\<close>

definition disconnect_user :: "string \<Rightarrow> string \<Rightarrow> manager \<Rightarrow> manager" where
  "disconnect_user room_id user_id m =
    (case user_rooms m user_id of
       None \<Rightarrow> m
     | Some rs \<Rightarrow>
        (let rs' = set_discard room_id rs
         in if rs' = []
            then m\<lparr>user_rooms := (user_rooms m)(user_id := None)\<rparr>
            else m\<lparr>user_rooms := (user_rooms m)(user_id \<mapsto> rs')\<rparr>))"

definition disconnect_locked :: "string \<Rightarrow> string \<Rightarrow> manager \<Rightarrow> unit outcome \<times> manager" where
  "disconnect_locked room_id user_id m =
    (case disconnect_room room_id user_id m of
       (Raised e, m') \<Rightarrow> (Raised e, m')
     | (Returned _, m') \<Rightarrow> (Returned (), disconnect_user room_id user_id m'))"

text \<open>Reading the three views.\<close>

definition entries :: "manager \<Rightarrow> string \<Rightarrow> (string \<times> ws) list" where
  "entries m room_id = (case connections m room_id of None \<Rightarrow> [] | Some d \<Rightarrow> d)"

definition get_online_users :: "manager \<Rightarrow> string \<Rightarrow> string list" where
  "get_online_users m room_id = (case room_users m room_id of None \<Rightarrow> [] | Some s \<Rightarrow> s)"

definition rooms_of :: "manager \<Rightarrow> string \<Rightarrow> string list" where
  "rooms_of m user_id = (case user_rooms m user_id of None \<Rightarrow> [] | Some s \<Rightarrow> s)"


section \<open>Outbound events and observable effects\<close>

record user_info =
  ui_user_id :: string
  ui_username :: string
  ui_type :: user_type
  ui_display_name :: "string option"

record message_dict =
  md_id :: string
  md_room_id :: string
  md_sender_id :: string
  md_sender_type :: user_type
  md_sender_username :: string
  md_sender_display_name :: "string option"
  md_content :: string
  md_reply_to_id :: "string option"

datatype presence_action = Joined | Left

datatype error_message = ViewersCannotSend | EmptyContent | UnknownType json | InvalidJSON
  | ExceptionText error

text \<open>
  The JSON objects the server sends, without their timestamps.  \<open>EvLegacyMessage\<close> is the
  shape built by \<open>ConnectionManager.send_message\<close> (id, room, sender, content).
\<close>

datatype out_event =
    EvConnected string string "message_dict list" nat "user_info list" bool
  | EvMessage message_dict
  | EvLegacyMessage string string string string
  | EvAck json string
  | EvPresence presence_action user_info "user_info list"
  | EvTyping string string string json
  | EvPong
  | EvError error_message

text \<open>
  What a run leaves behind besides the registry and the database, in program order: frames
  written to a socket, accept and close calls, and the lines written to the logger.
\<close>

datatype effect =
    Sent ws out_event
  | Accepted ws
  | Closed ws nat
  | LogConnected string string
  | LogDisconnected string string
  | LogSendFailed string
  | LogError

record database =
  users :: "chat_user list"
  rooms :: "chat_room list"
  members :: "chat_room_member list"
  messages :: "chat_message list"

text \<open>
  The state a handler runs in: the registry, the tables, the state of the handler's own
  database session, and the effects so far.  \<open>pending_rollback\<close> says that a flush of
  this session has failed.  SQLAlchemy then rolls the transaction back, expires every
  object loaded through the session and refuses every further use of the session until
  \<open>Session.rollback\<close> is called, which this code never does.  A handler gets a new session
  from \<open>get_db\<close>, so it starts with \<open>pending_rollback\<close> false.
\<close>

record world =
  mgr :: manager
  db :: database
  pending_rollback :: bool
  trace :: "effect list"

text \<open>
  What the code takes from libraries, from the database server and from the network: the
  JWT decoder, the UUID constructor and printer, the UUID generator, whether the database
  refuses a well-typed row of \<open>chat_messages\<close> on \<open>INSERT\<close> (the foreign keys of
  \<open>models.py\<close>, where the server enforces them), and for every socket whether its
  \<open>client_state\<close> is \<open>CONNECTED\<close> and whether \<open>send_json\<close> on it raises.
\<close>

record env =
  jwt_decode :: "string \<Rightarrow> (string \<rightharpoonup> string) option"
  parse_uuid :: "string \<Rightarrow> uuid option"
  uuid_str :: "uuid \<Rightarrow> string"
  uuid4 :: "nat \<Rightarrow> uuid"
  insert_refused :: "database \<Rightarrow> chat_message \<Rightarrow> bool"
  client_connected :: "ws \<Rightarrow> bool"
  send_raises :: "ws \<Rightarrow> bool"

definition send_json :: "env \<Rightarrow> ws \<Rightarrow> out_event \<Rightarrow> world \<Rightarrow> unit outcome \<times> world" where
  "send_json e websocket ev w =
    (if send_raises e websocket then (Raised RuntimeError, w)
     else (Returned (), w\<lparr>trace := trace w @ [Sent websocket ev]\<rparr>))"

section \<open>ConnectionManager methods\<close>

definition connect :: "ws \<Rightarrow> string \<Rightarrow> string \<Rightarrow> world \<Rightarrow> unit outcome \<times> world" where
  "connect websocket room_id user_id w =
    (case connect_locked websocket room_id user_id (mgr w) of
       (Raised x, m') \<Rightarrow> (Raised x, w\<lparr>mgr := m'\<rparr>)
     | (Returned _, m') \<Rightarrow>
         (Returned (), w\<lparr>mgr := m', trace := trace w @ [LogConnected user_id room_id]\<rparr>))"

definition disconnect :: "string \<Rightarrow> string \<Rightarrow> world \<Rightarrow> unit outcome \<times> world" where
  "disconnect room_id user_id w =
    (case disconnect_locked room_id user_id (mgr w) of
       (Raised x, m') \<Rightarrow> (Raised x, w\<lparr>mgr := m'\<rparr>)
     | (Returned _, m') \<Rightarrow>
         (Returned (), w\<lparr>mgr := m', trace := trace w @ [LogDisconnected user_id room_id]\<rparr>))"

text \<open>
  The \<open>for\<close> loop of \<open>broadcast\<close> over the snapshot \<open>list(self.connections[room_id].items())\<close>.
  It returns the list \<open>disconnected\<close>.  \<open>exclude_user\<close> counts only when it is truthy.
\<close>

fun broadcast_sweep ::
  "env \<Rightarrow> out_event \<Rightarrow> string option \<Rightarrow> (string \<times> ws) list \<Rightarrow> string list \<Rightarrow> world
     \<Rightarrow> string list \<times> world" where
  "broadcast_sweep e message exclude_user [] disconnected w = (disconnected, w)"
| "broadcast_sweep e message exclude_user ((user_id, websocket) # rest) disconnected w =
    (if exclude_user \<noteq> None \<and> exclude_user \<noteq> Some [] \<and> Some user_id = exclude_user
     then broadcast_sweep e message exclude_user rest disconnected w
     else if client_connected e websocket
     then (case send_json e websocket message w of
             (Returned _, w') \<Rightarrow> broadcast_sweep e message exclude_user rest disconnected w'
           | (Raised _, w') \<Rightarrow>
               broadcast_sweep e message exclude_user rest (disconnected @ [user_id])
                 (w'\<lparr>trace := trace w' @ [LogSendFailed user_id]\<rparr>))
     else broadcast_sweep e message exclude_user rest disconnected w)"

text \<open>The second loop of \<open>broadcast\<close>: \<open>for user_id in disconnected\<close>.\<close>

fun broadcast_cleanup :: "string \<Rightarrow> string list \<Rightarrow> world \<Rightarrow> unit outcome \<times> world" where
  "broadcast_cleanup room_id [] w = (Returned (), w)"
| "broadcast_cleanup room_id (user_id # rest) w =
    (case disconnect room_id user_id w of
       (Returned _, w') \<Rightarrow> broadcast_cleanup room_id rest w'
     | (Raised x, w') \<Rightarrow> (Raised x, w'))"

definition broadcast ::
  "env \<Rightarrow> string \<Rightarrow> out_event \<Rightarrow> string option \<Rightarrow> world \<Rightarrow> unit outcome \<times> world" where
  "broadcast e room_id message exclude_user w =
    (case connections (mgr w) room_id of
       None \<Rightarrow> (Returned (), w)
     | Some d \<Rightarrow>
        (case broadcast_sweep e message exclude_user d [] w of
           (disconnected, w') \<Rightarrow> broadcast_cleanup room_id disconnected w'))"

definition join_room :: "ws \<Rightarrow> string \<Rightarrow> string \<Rightarrow> world \<Rightarrow> unit outcome \<times> world" where
  "join_room websocket room_id user_id w = connect websocket room_id user_id w"

definition leave_room :: "ws \<Rightarrow> string \<Rightarrow> string \<Rightarrow> world \<Rightarrow> unit outcome \<times> world" where
  "leave_room websocket room_id user_id w = disconnect room_id user_id w"

section \<open>Database access (crud.py)\<close>

text \<open>\<open>Result.scalar_one_or_none\<close>: no row, one row, or an exception for more.\<close>

definition scalar_one_or_none :: "'a list \<Rightarrow> 'a option outcome" where
  "scalar_one_or_none rows =
    (case rows of
       [] \<Rightarrow> Returned None
     | [x] \<Rightarrow> Returned (Some x)
     | _ \<Rightarrow> Raised MultipleResultsFound)"

definition get_chat_user_by_id :: "database \<Rightarrow> uuid \<Rightarrow> chat_user option" where
  "get_chat_user_by_id d user_id = find (\<lambda>u. cu_id u = user_id) (users d)"

definition get_chat_user_by_username :: "database \<Rightarrow> string \<Rightarrow> chat_user option outcome" where
  "get_chat_user_by_username d name =
     scalar_one_or_none (filter (\<lambda>u. username u = name) (users d))"

definition get_chat_user_by_slug :: "database \<Rightarrow> string \<Rightarrow> chat_user option outcome" where
  "get_chat_user_by_slug d slug =
     scalar_one_or_none (filter (\<lambda>u. bot_slug u = Some slug) (users d))"

definition get_chat_room_by_id :: "database \<Rightarrow> uuid \<Rightarrow> chat_room option" where
  "get_chat_room_by_id d room_id = find (\<lambda>r. cr_id r = room_id) (rooms d)"

definition get_chat_room_member ::
  "database \<Rightarrow> uuid \<Rightarrow> uuid \<Rightarrow> chat_room_member option outcome" where
  "get_chat_room_member d room_id user_id =
     scalar_one_or_none
       (filter (\<lambda>m. crm_room_id m = room_id \<and> crm_user_id m = user_id) (members d))"

text \<open>
  A use of the session (a query, a commit) or a read of an attribute of an object loaded
  through it: the value, or \<open>PendingRollbackError\<close> once a flush has failed.
\<close>

definition orm_load :: "world \<Rightarrow> 'a \<Rightarrow> 'a outcome" where
  "orm_load w v = (if pending_rollback w then Raised PendingRollbackError else Returned v)"

text \<open>
  \<open>create_chat_message\<close> adds one row; its id comes from the UUID generator.
  \<open>session.commit()\<close> raises when the session has a rollback pending.  It also raises,
  and leaves the session with a rollback pending, when the flush fails: the column
  \<open>reply_to_id\<close> takes \<open>None\<close> or a UUID object, so a value that the handler passed on
  unparsed (an empty string, \<open>0\<close>, \<open>false\<close>) is refused, and so is a row that the
  database refuses.  No row is added then.  The update of the room's \<open>updated_at\<close> is a
  timestamp and is left out.
\<close>

definition create_chat_message ::
  "env \<Rightarrow> uuid \<Rightarrow> uuid \<Rightarrow> string \<Rightarrow> user_type \<Rightarrow> reply_ref \<Rightarrow> world
     \<Rightarrow> chat_message outcome \<times> world" where
  "create_chat_message e room_id sender_id content sender_type reply_to_id w =
    (let message = \<lparr>cm_id = uuid4 e (length (messages (db w))), cm_room_id = room_id,
                     cm_sender_id = sender_id, cm_sender_type = sender_type,
                     cm_content = content, cm_reply_to_id = reply_to_id\<rparr>
     in if pending_rollback w then (Raised PendingRollbackError, w)
        else if (case reply_to_id of Unparsed _ \<Rightarrow> True | _ \<Rightarrow> False)
                \<or> insert_refused e (db w) message
        then (Raised StatementError, w\<lparr>pending_rollback := True\<rparr>)
        else (Returned message, w\<lparr>db := (db w)\<lparr>messages := messages (db w) @ [message]\<rparr>\<rparr>))"

text \<open>
  \<open>get_chat_messages\<close> with \<open>limit\<close>: the newest \<open>limit\<close> messages of the room in chronological
  order, the total count, and whether there are more.  The table is kept in creation order.
\<close>

definition get_chat_messages :: "database \<Rightarrow> uuid \<Rightarrow> nat \<Rightarrow> chat_message list \<times> nat \<times> bool" where
  "get_chat_messages d room_id limit =
    (let rows = filter (\<lambda>m. cm_room_id m = room_id) (messages d);
         total_messages = length rows;
         newest_first = take (limit + 1) (rev rows);
         has_more = (length newest_first > limit);
         page = (if has_more then take limit newest_first else newest_first)
     in (rev page, total_messages, has_more))"

section \<open>send_message and send_typing of the manager\<close>

definition send_message ::
  "env \<Rightarrow> string \<Rightarrow> string \<Rightarrow> string \<Rightarrow> user_type \<Rightarrow> world \<Rightarrow> chat_message outcome \<times> world" where
  "send_message e room_id user_id content sender_type w =
    (case parse_uuid e room_id of
       None \<Rightarrow> (Raised ValueError, w)
     | Some room_uuid \<Rightarrow>
        (case parse_uuid e user_id of
           None \<Rightarrow> (Raised ValueError, w)
         | Some user_uuid \<Rightarrow>
            (case create_chat_message e room_uuid user_uuid content sender_type NoReply w of
               (Raised x, w1) \<Rightarrow> (Raised x, w1)
             | (Returned message, w1) \<Rightarrow>
                 (case broadcast e room_id
                         (EvLegacyMessage (uuid_str e (cm_id message)) room_id user_id content)
                         None w1 of
                    (Returned _, w2) \<Rightarrow> (Returned message, w2)
                  | (Raised x, w2) \<Rightarrow> (Raised x, w2)))))"

definition send_typing ::
  "env \<Rightarrow> string \<Rightarrow> string \<Rightarrow> string \<Rightarrow> json \<Rightarrow> world \<Rightarrow> unit outcome \<times> world" where
  "send_typing e room_id user_id name is_typing w =
     broadcast e room_id (EvTyping room_id user_id name is_typing) None w"

section \<open>Token validation\<close>

text \<open>
  \<open>decode_token\<close> returns the payload or \<open>None\<close>.  In \<open>get_current_chat_user_from_token\<close> every
  exception ends in \<open>return None\<close>.
\<close>

definition decode_token :: "env \<Rightarrow> string \<Rightarrow> (string \<rightharpoonup> string) option" where
  "decode_token e token = jwt_decode e token"

text \<open>The test \<open>user and user.is_active\<close>.\<close>

definition found_active :: "chat_user option \<Rightarrow> bool" where
  "found_active r = (case r of None \<Rightarrow> False | Some user \<Rightarrow> is_active user)"

definition get_current_chat_user_from_token ::
  "env \<Rightarrow> string \<Rightarrow> database \<Rightarrow> chat_user option" where
  "get_current_chat_user_from_token e token d =
    (case decode_token e token of
       None \<Rightarrow> None
     | Some payload \<Rightarrow>
        (case payload ''sub'' of
           None \<Rightarrow> None
         | Some user_id \<Rightarrow>
            if user_id = [] then None
            else
              (let by_id = (case parse_uuid e user_id of
                              None \<Rightarrow> None
                            | Some user_uuid \<Rightarrow> get_chat_user_by_id d user_uuid)
               in if found_active by_id then by_id
                  else
                    (case get_chat_user_by_username d user_id of
                       Raised _ \<Rightarrow> None
                     | Returned by_name \<Rightarrow>
                         if found_active by_name then by_name
                         else
                           (case get_chat_user_by_slug d user_id of
                              Raised _ \<Rightarrow> None
                            | Returned by_slug \<Rightarrow>
                                if found_active by_slug then by_slug else None)))))"

section \<open>Inbound frames\<close>

text \<open>
  What \<open>receive_json\<close> can do: return a JSON object, return JSON that is no object (then
  \<open>data.get\<close> raises \<open>AttributeError\<close>), raise \<open>JSONDecodeError\<close>, raise
  \<open>WebSocketDisconnect\<close>, or raise something else.
\<close>

datatype 'f inbound = RecvJson 'f | RecvNonObject | RecvInvalidJson | RecvDisconnect | RecvError

definition receive_json :: "'f inbound \<Rightarrow> 'f outcome" where
  "receive_json x =
    (case x of
       RecvJson data \<Rightarrow> Returned data
     | RecvNonObject \<Rightarrow> Raised AttributeError
     | RecvInvalidJson \<Rightarrow> Raised JSONDecodeError
     | RecvDisconnect \<Rightarrow> Raised WebSocketDisconnect
     | RecvError \<Rightarrow> Raised RuntimeError)"

text \<open>
  The keys a frame of the per-room endpoint is read at; \<open>None\<close> is a missing key.
\<close>

record chat_frame =
  cf_type :: "json option"
  cf_content :: "json option"
  cf_client_msg_id :: "json option"
  cf_reply_to_id :: "json option"

text \<open>\<open>dict.get(key, default)\<close>.\<close>

definition get_default :: "'a option \<Rightarrow> 'a \<Rightarrow> 'a" where
  "get_default v dflt = (case v of None \<Rightarrow> dflt | Some x \<Rightarrow> x)"

text \<open>
  \<open>str.strip()\<close>.  A character is a code point below 256; the whitespace among them is
  9 to 13, 28 to 32, 133 and 160.
\<close>

definition isspace :: "char \<Rightarrow> bool" where
  "isspace c = ((of_char c :: nat) \<in> {9, 10, 11, 12, 13, 28, 29, 30, 31, 32, 133, 160})"

definition py_strip :: "string \<Rightarrow> string" where
  "py_strip s = rev (dropWhile isspace (rev (dropWhile isspace s)))"

text \<open>
  The constructor \<open>UUID(x)\<close> on a JSON value: a string is parsed (\<open>ValueError\<close> when it is
  malformed); any other value has no \<open>replace\<close> method, which is an \<open>AttributeError\<close>.
\<close>

definition UUID :: "env \<Rightarrow> json \<Rightarrow> uuid outcome" where
  "UUID e v =
    (case v of
       JStr s \<Rightarrow> (case parse_uuid e s of None \<Rightarrow> Raised ValueError | Some u \<Rightarrow> Returned u)
     | _ \<Rightarrow> Raised AttributeError)"

section \<open>The per-room endpoint: websocket_chat\<close>

definition user_info_of :: "env \<Rightarrow> chat_user \<Rightarrow> user_info" where
  "user_info_of e u =
     \<lparr>ui_user_id = uuid_str e (cu_id u), ui_username = username u, ui_type = cu_type u,
      ui_display_name = bot_display_name u\<rparr>"

text \<open>
  \<open>chat_message_to_dict\<close>.  A reply reference that is not a UUID object is falsy wherever
  the handlers produce one, so it is rendered as \<open>None\<close>.
\<close>

definition chat_message_to_dict :: "env \<Rightarrow> chat_message \<Rightarrow> database \<Rightarrow> message_dict" where
  "chat_message_to_dict e message d =
    (let sender = get_chat_user_by_id d (cm_sender_id message)
     in \<lparr>md_id = uuid_str e (cm_id message),
         md_room_id = uuid_str e (cm_room_id message),
         md_sender_id = uuid_str e (cm_sender_id message),
         md_sender_type = cm_sender_type message,
         md_sender_username = (case sender of None \<Rightarrow> ''unknown'' | Some u \<Rightarrow> username u),
         md_sender_display_name = (case sender of None \<Rightarrow> None | Some u \<Rightarrow> bot_display_name u),
         md_content = cm_content message,
         md_reply_to_id = (case cm_reply_to_id message of
                             ReplyTo u \<Rightarrow> Some (uuid_str e u)
                           | _ \<Rightarrow> None)\<rparr>)"

text \<open>
  The loop that builds \<open>online_users\<close> from the ids of the room: an id that is no UUID
  raises \<open>ValueError\<close>, an id without a user row is skipped.
\<close>

fun online_users_of ::
  "env \<Rightarrow> database \<Rightarrow> string list \<Rightarrow> user_info list \<Rightarrow> user_info list outcome" where
  "online_users_of e d [] online_users = Returned online_users"
| "online_users_of e d (uid # rest) online_users =
    (case parse_uuid e uid of
       None \<Rightarrow> Raised ValueError
     | Some x \<Rightarrow>
        (case get_chat_user_by_id d x of
           None \<Rightarrow> online_users_of e d rest online_users
         | Some u \<Rightarrow> online_users_of e d rest (online_users @ [user_info_of e u])))"

text \<open>
  The lines \<open>if reply_to_id: try: reply_to_id = UUID(reply_to_id) except ValueError:
  reply_to_id = None\<close>.  A falsy value skips the \<open>if\<close> and is passed on as it is; an
  exception other than \<open>ValueError\<close> is not caught here.
\<close>

definition parse_reply_to :: "env \<Rightarrow> json \<Rightarrow> reply_ref outcome" where
  "parse_reply_to e reply_to_id =
    (if truthy reply_to_id
     then (case UUID e reply_to_id of
             Returned u \<Rightarrow> Returned (ReplyTo u)
           | Raised ValueError \<Rightarrow> Returned NoReply
           | Raised x \<Rightarrow> Raised x)
     else Returned (if reply_to_id = JNull then NoReply else Unparsed reply_to_id))"

text \<open>
  The branch \<open>elif msg_type == "message"\<close>.  A \<open>continue\<close> ends the iteration like a normal
  return of this branch.  The arguments \<open>user.id\<close> and \<open>user.type.value\<close> of the call of
  \<open>create_chat_message\<close> are attributes of an object of the session.  When that call has
  returned the session has no rollback pending, so the reads of \<open>message.id\<close> and the
  look-up in \<open>chat_message_to_dict\<close> after it return.
\<close>

definition handle_message ::
  "env \<Rightarrow> ws \<Rightarrow> string \<Rightarrow> uuid \<Rightarrow> chat_user \<Rightarrow> bool \<Rightarrow> chat_frame \<Rightarrow> world
     \<Rightarrow> unit outcome \<times> world" where
  "handle_message e websocket room_id room_uuid user can_send data w =
    (if \<not> can_send then send_json e websocket (EvError ViewersCannotSend) w
     else
       (case get_default (cf_content data) (JStr []) of
          JStr raw \<Rightarrow>
            (let content = py_strip raw
             in if content = [] then send_json e websocket (EvError EmptyContent) w
                else
                  (let client_msg_id = get_default (cf_client_msg_id data) JNull;
                       reply_to_id = get_default (cf_reply_to_id data) JNull
                   in case parse_reply_to e reply_to_id of
                        Raised x \<Rightarrow> (Raised x, w)
                      | Returned reply \<Rightarrow>
                         (case orm_load w (cu_id user, cu_type user) of
                            Raised x \<Rightarrow> (Raised x, w)
                          | Returned (sender_id, sender_type) \<Rightarrow>
                             (case create_chat_message e room_uuid sender_id content
                                     sender_type reply w of
                                (Raised x, w1) \<Rightarrow> (Raised x, w1)
                              | (Returned message, w1) \<Rightarrow>
                                  (case send_json e websocket
                                          (EvAck client_msg_id (uuid_str e (cm_id message))) w1 of
                                     (Raised x, w2) \<Rightarrow> (Raised x, w2)
                                   | (Returned _, w2) \<Rightarrow>
                                       broadcast e room_id
                                         (EvMessage (chat_message_to_dict e message (db w2)))
                                         None w2)))))
        | _ \<Rightarrow> (Raised AttributeError, w)))"

text \<open>The body of the inner \<open>try\<close>: receive one frame and dispatch on its type.\<close>

definition chat_try_body ::
  "env \<Rightarrow> ws \<Rightarrow> string \<Rightarrow> uuid \<Rightarrow> chat_user \<Rightarrow> bool \<Rightarrow> chat_frame inbound \<Rightarrow> world
     \<Rightarrow> unit outcome \<times> world" where
  "chat_try_body e websocket room_id room_uuid user can_send x w =
    (case receive_json x of
       Raised err \<Rightarrow> (Raised err, w)
     | Returned data \<Rightarrow>
        (let msg_type = get_default (cf_type data) (JStr [])
         in if msg_type = JStr ''ping'' then send_json e websocket EvPong w
            else if msg_type = JStr ''message''
            then handle_message e websocket room_id room_uuid user can_send data w
            else send_json e websocket (EvError (UnknownType msg_type)) w))"

text \<open>
  One iteration with its \<open>except\<close> clauses.  \<open>Propagate\<close> is an exception that leaves the
  loop: the one raised inside the handler for \<open>JSONDecodeError\<close>.
\<close>

datatype loop_ctl = Continue | Break | Propagate error

definition chat_loop_iteration ::
  "env \<Rightarrow> ws \<Rightarrow> string \<Rightarrow> uuid \<Rightarrow> chat_user \<Rightarrow> bool \<Rightarrow> chat_frame inbound \<Rightarrow> world
     \<Rightarrow> loop_ctl \<times> world" where
  "chat_loop_iteration e websocket room_id room_uuid user can_send x w =
    (case chat_try_body e websocket room_id room_uuid user can_send x w of
       (Returned _, w1) \<Rightarrow> (Continue, w1)
     | (Raised WebSocketDisconnect, w1) \<Rightarrow> (Break, w1)
     | (Raised JSONDecodeError, w1) \<Rightarrow>
         (case send_json e websocket (EvError InvalidJSON) w1 of
            (Returned _, w2) \<Rightarrow> (Continue, w2)
          | (Raised err, w2) \<Rightarrow> (Propagate err, w2))
     | (Raised err, w1) \<Rightarrow>
         (case send_json e websocket (EvError (ExceptionText err))
                 (w1\<lparr>trace := trace w1 @ [LogError]\<rparr>) of
            (Returned _, w2) \<Rightarrow> (Continue, w2)
          | (Raised _, w2) \<Rightarrow> (Break, w2)))"

text \<open>
  \<open>while True\<close> over the frames that arrive.  When the list is used up the session is still
  waiting in \<open>receive_json\<close>: the result is \<open>Continue\<close>.
\<close>

fun chat_loop ::
  "env \<Rightarrow> ws \<Rightarrow> string \<Rightarrow> uuid \<Rightarrow> chat_user \<Rightarrow> bool \<Rightarrow> chat_frame inbound list \<Rightarrow> world
     \<Rightarrow> loop_ctl \<times> world" where
  "chat_loop e websocket room_id room_uuid user can_send [] w = (Continue, w)"
| "chat_loop e websocket room_id room_uuid user can_send (x # xs) w =
    (case chat_loop_iteration e websocket room_id room_uuid user can_send x w of
       (Continue, w1) \<Rightarrow> chat_loop e websocket room_id room_uuid user can_send xs w1
     | (ctl, w1) \<Rightarrow> (ctl, w1))"

text \<open>
  The outer \<open>try\<close> before the loop: history, online users, \<open>connected\<close>, presence.  The
  first statement queries the session; nothing here changes the state of the session, so
  the look-ups and attribute reads after it return when it has.
\<close>

definition chat_initial ::
  "env \<Rightarrow> ws \<Rightarrow> string \<Rightarrow> uuid \<Rightarrow> chat_room \<Rightarrow> chat_user \<Rightarrow> bool \<Rightarrow> world
     \<Rightarrow> unit outcome \<times> world" where
  "chat_initial e websocket room_id room_uuid room user can_send w =
    (case orm_load w (get_chat_messages (db w) room_uuid 50) of
       Raised err \<Rightarrow> (Raised err, w)
     | Returned (msgs, total_messages, has_more) \<Rightarrow>
        (case online_users_of e (db w) (get_online_users (mgr w) room_id) [] of
           Raised err \<Rightarrow> (Raised err, w)
         | Returned online_users \<Rightarrow>
            (case send_json e websocket
                    (EvConnected room_id (cr_name room)
                       (map (\<lambda>m. chat_message_to_dict e m (db w)) msgs)
                       total_messages online_users can_send) w of
               (Raised err, w1) \<Rightarrow> (Raised err, w1)
             | (Returned _, w1) \<Rightarrow>
                 broadcast e room_id (EvPresence Joined (user_info_of e user) online_users)
                   None w1)))"

text \<open>
  The \<open>finally\<close> block of \<open>websocket_chat\<close>.  Its first statement reads \<open>user.id\<close>, an
  attribute of an object of the session: with a rollback pending the read raises and the
  block ends there, before \<open>disconnect\<close>.
\<close>

definition chat_finally ::
  "env \<Rightarrow> string \<Rightarrow> chat_user \<Rightarrow> world \<Rightarrow> unit outcome \<times> world" where
  "chat_finally e room_id user w =
    (case orm_load w (uuid_str e (cu_id user)) of
       Raised err \<Rightarrow> (Raised err, w)
     | Returned uid \<Rightarrow>
        (case disconnect room_id uid w of
           (Raised err, w1) \<Rightarrow> (Raised err, w1)
         | (Returned _, w1) \<Rightarrow>
            (case online_users_of e (db w1) (get_online_users (mgr w1) room_id) [] of
               Raised err \<Rightarrow> (Raised err, w1)
             | Returned online_users \<Rightarrow>
                 broadcast e room_id (EvPresence Left (user_info_of e user) online_users)
                   None w1)))"

text \<open>
  How a run of an endpoint over the given frames ends: closed before \<open>accept\<close> with a code,
  still receiving, returned, or left by an exception.
\<close>

datatype session_result = Rejected nat | Receiving | Completed | Failed error

text \<open>
  The body of the outer \<open>try\<close> of \<open>websocket_chat\<close>: the initial part, then the loop.  An
  exception of the initial part leaves the body.
\<close>

definition chat_try ::
  "env \<Rightarrow> ws \<Rightarrow> string \<Rightarrow> uuid \<Rightarrow> chat_room \<Rightarrow> chat_user \<Rightarrow> bool \<Rightarrow> chat_frame inbound list
     \<Rightarrow> world \<Rightarrow> loop_ctl \<times> world" where
  "chat_try e websocket room_id room_uuid room user can_send frames w =
    (case chat_initial e websocket room_id room_uuid room user can_send w of
       (Raised err, w1) \<Rightarrow> (Propagate err, w1)
     | (Returned _, w1) \<Rightarrow> chat_loop e websocket room_id room_uuid user can_send frames w1)"

text \<open>
  \<open>try: ... finally: ...\<close> of \<open>websocket_chat\<close>: the block runs after a \<open>break\<close> and after
  an exception; an exception of the block itself replaces the pending one.
\<close>

definition chat_joined ::
  "env \<Rightarrow> ws \<Rightarrow> string \<Rightarrow> uuid \<Rightarrow> chat_room \<Rightarrow> chat_user \<Rightarrow> bool \<Rightarrow> chat_frame inbound list
     \<Rightarrow> world \<Rightarrow> session_result \<times> world" where
  "chat_joined e websocket room_id room_uuid room user can_send frames w =
    (case chat_try e websocket room_id room_uuid room user can_send frames w of
       (Continue, w2) \<Rightarrow> (Receiving, w2)
     | (Break, w2) \<Rightarrow>
         (case chat_finally e room_id user w2 of
            (Returned _, w3) \<Rightarrow> (Completed, w3)
          | (Raised err', w3) \<Rightarrow> (Failed err', w3))
     | (Propagate err, w2) \<Rightarrow>
         (case chat_finally e room_id user w2 of
            (Returned _, w3) \<Rightarrow> (Failed err, w3)
          | (Raised err', w3) \<Rightarrow> (Failed err', w3)))"

text \<open>
  The endpoints start with \<open>db = next(get_db())\<close>, a new session: the look-ups before
  \<open>accept\<close> meet no pending rollback and are the functions of the tables.
\<close>

definition close :: "ws \<Rightarrow> nat \<Rightarrow> world \<Rightarrow> session_result \<times> world" where
  "close websocket code w = (Rejected code, w\<lparr>trace := trace w @ [Closed websocket code]\<rparr>)"

definition websocket_chat ::
  "env \<Rightarrow> ws \<Rightarrow> string \<Rightarrow> string \<Rightarrow> chat_frame inbound list \<Rightarrow> world
     \<Rightarrow> session_result \<times> world" where
  "websocket_chat e websocket room_id token frames w =
    (case parse_uuid e room_id of
       None \<Rightarrow> close websocket 4000 w
     | Some room_uuid \<Rightarrow>
        (case get_chat_room_by_id (db w) room_uuid of
           None \<Rightarrow> close websocket 4004 w
         | Some room \<Rightarrow>
            (case get_current_chat_user_from_token e token (db w) of
               None \<Rightarrow> close websocket 4001 w
             | Some user \<Rightarrow>
                (case get_chat_room_member (db w) room_uuid (cu_id user) of
                   Raised err \<Rightarrow> (Failed err, w)
                 | Returned None \<Rightarrow> close websocket 4003 w
                 | Returned (Some membership) \<Rightarrow>
                    (let can_send = (role membership \<noteq> VIEWER)
                     in case connect websocket room_id (uuid_str e (cu_id user))
                               (w\<lparr>trace := trace w @ [Accepted websocket]\<rparr>) of
                          (Raised err, w1) \<Rightarrow> (Failed err, w1)
                        | (Returned _, w1) \<Rightarrow>
                            chat_joined e websocket room_id room_uuid room user can_send
                              frames w1)))))"

section \<open>The generic endpoint: websocket_main\<close>

text \<open>
  A frame of the generic endpoint: its type and its \<open>payload\<close> object, read at the keys
  \<open>room_id\<close>, \<open>content\<close> and \<open>is_typing\<close>.  Room id and content are strings when present.
\<close>

record main_payload =
  mp_room_id :: "string option"
  mp_content :: "string option"
  mp_is_typing :: "json option"

record main_frame =
  mf_type :: "json option"
  mf_payload :: "main_payload option"

text \<open>
  The test \<open>if s:\<close> on the result of \<open>payload.get(key)\<close>, and the string it then holds.
\<close>

definition nonempty :: "string option \<Rightarrow> string option" where
  "nonempty v = (case v of None \<Rightarrow> None | Some s \<Rightarrow> if s = [] then None else Some s)"

text \<open>
  The \<open>if/elif\<close> chain of the loop body.  \<open>str(user.id)\<close> is evaluated inside the branches,
  as an argument of the call; it reads an attribute of an object of the session.
  \<open>ChatUser\<close> has no attribute \<open>bot_name\<close>, so \<open>user.username or user.bot_name or
  "Unknown"\<close> raises when the username is empty.
\<close>

definition main_dispatch ::
  "env \<Rightarrow> ws \<Rightarrow> chat_user \<Rightarrow> main_frame \<Rightarrow> world \<Rightarrow> unit outcome \<times> world" where
  "main_dispatch e websocket user data w =
    (let msg_type = get_default (mf_type data) JNull;
         payload = get_default (mf_payload data)
                     \<lparr>mp_room_id = None, mp_content = None, mp_is_typing = None\<rparr>
     in if msg_type = JStr ''join_room''
        then (case nonempty (mp_room_id payload) of
                Some room_id \<Rightarrow>
                  (case orm_load w (uuid_str e (cu_id user)) of
                     Raised err \<Rightarrow> (Raised err, w)
                   | Returned uid \<Rightarrow> join_room websocket room_id uid w)
              | None \<Rightarrow> (Returned (), w))
        else if msg_type = JStr ''leave_room''
        then (case nonempty (mp_room_id payload) of
                Some room_id \<Rightarrow>
                  (case orm_load w (uuid_str e (cu_id user)) of
                     Raised err \<Rightarrow> (Raised err, w)
                   | Returned uid \<Rightarrow> leave_room websocket room_id uid w)
              | None \<Rightarrow> (Returned (), w))
        else if msg_type = JStr ''message''
        then (case nonempty (mp_room_id payload) of
                Some room_id \<Rightarrow>
                  (case nonempty (mp_content payload) of
                     Some content \<Rightarrow>
                       (case orm_load w (uuid_str e (cu_id user)) of
                          Raised err \<Rightarrow> (Raised err, w)
                        | Returned uid \<Rightarrow>
                           (case send_message e room_id uid content HUMAN w of
                              (Returned _, w1) \<Rightarrow> (Returned (), w1)
                            | (Raised err, w1) \<Rightarrow> (Raised err, w1)))
                   | None \<Rightarrow> (Returned (), w))
              | None \<Rightarrow> (Returned (), w))
        else if msg_type = JStr ''typing''
        then (let is_typing = get_default (mp_is_typing payload) (JBool False)
              in case nonempty (mp_room_id payload) of
                   Some room_id \<Rightarrow>
                     (case orm_load w (uuid_str e (cu_id user), username user) of
                        Raised err \<Rightarrow> (Raised err, w)
                      | Returned (uid, name) \<Rightarrow>
                          if name \<noteq> []
                          then send_typing e room_id uid name is_typing w
                          else (Raised AttributeError, w))
                 | None \<Rightarrow> (Returned (), w))
        else if msg_type = JStr ''ping''
        then send_json e websocket EvPong w
        else (Returned (), w))"

text \<open>
  \<open>while True\<close> inside the \<open>try\<close>: every exception leaves the loop.  \<open>Continue\<close> again
  means that the frames are used up and the session waits.
\<close>

fun main_loop ::
  "env \<Rightarrow> ws \<Rightarrow> chat_user \<Rightarrow> main_frame inbound list \<Rightarrow> world \<Rightarrow> loop_ctl \<times> world" where
  "main_loop e websocket user [] w = (Continue, w)"
| "main_loop e websocket user (x # xs) w =
    (case receive_json x of
       Raised err \<Rightarrow> (Propagate err, w)
     | Returned data \<Rightarrow>
        (case main_dispatch e websocket user data w of
           (Returned _, w1) \<Rightarrow> main_loop e websocket user xs w1
         | (Raised err, w1) \<Rightarrow> (Propagate err, w1)))"

text \<open>
  The \<open>finally\<close> block: \<open>for room_id in list(ws_manager.user_rooms.get(str(user.id),
  set()))\<close>.  The read of \<open>user.id\<close> comes first: with a rollback pending it raises and
  no room is left.
\<close>

fun leave_rooms :: "ws \<Rightarrow> string \<Rightarrow> string list \<Rightarrow> world \<Rightarrow> unit outcome \<times> world" where
  "leave_rooms websocket uid [] w = (Returned (), w)"
| "leave_rooms websocket uid (room_id # rest) w =
    (case leave_room websocket room_id uid w of
       (Returned _, w1) \<Rightarrow> leave_rooms websocket uid rest w1
     | (Raised err, w1) \<Rightarrow> (Raised err, w1))"

definition main_finally :: "env \<Rightarrow> ws \<Rightarrow> chat_user \<Rightarrow> world \<Rightarrow> unit outcome \<times> world" where
  "main_finally e websocket user w =
    (case orm_load w (uuid_str e (cu_id user)) of
       Raised err \<Rightarrow> (Raised err, w)
     | Returned uid \<Rightarrow> leave_rooms websocket uid (rooms_of (mgr w) uid) w)"

definition websocket_main ::
  "env \<Rightarrow> ws \<Rightarrow> string \<Rightarrow> main_frame inbound list \<Rightarrow> world \<Rightarrow> session_result \<times> world" where
  "websocket_main e websocket token frames w =
    (case get_current_chat_user_from_token e token (db w) of
       None \<Rightarrow> close websocket 4001 w
     | Some user \<Rightarrow>
        (case main_loop e websocket user frames
                (w\<lparr>trace := trace w @ [Accepted websocket]\<rparr>) of
           (Continue, w1) \<Rightarrow> (Receiving, w1)
         | (Break, w1) \<Rightarrow> (Receiving, w1)
         | (Propagate err, w1) \<Rightarrow>
             (case main_finally e websocket user w1 of
                (Raised err', w2) \<Rightarrow> (Failed err', w2)
              | (Returned _, w2) \<Rightarrow>
                  if err = WebSocketDisconnect then (Completed, w2) else (Failed err, w2))))"

section \<open>Sequences of registry operations\<close>

datatype reg_op = Register ws string string | Unregister string string

text \<open>Running \<open>connect\<close> and \<open>disconnect\<close> calls one after the other, up to the first raise.\<close>

fun apply_ops :: "reg_op list \<Rightarrow> world \<Rightarrow> unit outcome \<times> world" where
  "apply_ops [] w = (Returned (), w)"
| "apply_ops (Register websocket room_id user_id # ops) w =
    (case connect websocket room_id user_id w of
       (Returned _, w') \<Rightarrow> apply_ops ops w'
     | (Raised err, w') \<Rightarrow> (Raised err, w'))"
| "apply_ops (Unregister room_id user_id # ops) w =
    (case disconnect room_id user_id w of
       (Returned _, w') \<Rightarrow> apply_ops ops w'
     | (Raised err, w') \<Rightarrow> (Raised err, w'))"

section \<open>The registry invariant\<close>

text \<open>
  Every room of \<open>connections\<close> has a non-empty dictionary without repeated keys, and
  \<open>room_users\<close> holds exactly its keys.
\<close>

definition rooms_ok :: "manager \<Rightarrow> bool" where
  "rooms_ok m \<longleftrightarrow>
     (\<forall>r. (connections m r = None \<longrightarrow> room_users m r = None) \<and>
          (\<forall>d. connections m r = Some d \<longrightarrow> d \<noteq> [] \<and> distinct (map fst d) \<and>
                (\<exists>s. room_users m r = Some s \<and> distinct s \<and> set s = set (map fst d))))"

text \<open>Every user of \<open>user_rooms\<close> has a non-empty set of rooms.\<close>

definition users_ok :: "manager \<Rightarrow> bool" where
  "users_ok m \<longleftrightarrow> (\<forall>u rs. user_rooms m u = Some rs \<longrightarrow> rs \<noteq> [] \<and> distinct rs)"

text \<open>The reverse index agrees with the connections.\<close>

definition views_agree :: "manager \<Rightarrow> bool" where
  "views_agree m \<longleftrightarrow>
     (\<forall>r u. r \<in> set (rooms_of m u) \<longleftrightarrow> u \<in> set (map fst (entries m r)))"

definition registry_inv :: "manager \<Rightarrow> bool" where
  "registry_inv m \<longleftrightarrow> rooms_ok m \<and> users_ok m \<and> views_agree m"

text \<open>A socket to which a broadcast delivers: its state is \<open>CONNECTED\<close> and the send returns.\<close>

definition live :: "env \<Rightarrow> ws \<Rightarrow> bool" where
  "live e c \<longleftrightarrow> client_connected e c \<and> \<not> send_raises e c"

text \<open>
  The registry of \<open>w'\<close> satisfies the invariant and no room has a user online that it did
  not have in \<open>w\<close>.
\<close>

definition shrunk :: "world \<Rightarrow> world \<Rightarrow> bool" where
  "shrunk w w' \<longleftrightarrow>
     registry_inv (mgr w') \<and>
     (\<forall>r. set (get_online_users (mgr w') r) \<subseteq> set (get_online_users (mgr w) r))"

section \<open>Example data\<close>

text \<open>
  The state of a fresh process: an empty registry, an empty database, a new session,
  nothing done.
\<close>

definition empty_world :: world where
  "empty_world = \<lparr>mgr = ConnectionManager_init,
     db = \<lparr>users = [], rooms = [], members = [], messages = []\<rparr>,
     pending_rollback = False, trace = []\<rparr>"

text \<open>
  A database server that enforces the foreign keys of \<open>chat_messages\<close>: the room, the
  sender and the message replied to must exist.
\<close>

definition foreign_key_violation :: "database \<Rightarrow> chat_message \<Rightarrow> bool" where
  "foreign_key_violation d m \<longleftrightarrow>
     cm_room_id m \<notin> set (map cr_id (rooms d)) \<or>
     cm_sender_id m \<notin> set (map cu_id (users d)) \<or>
     (case cm_reply_to_id m of
        ReplyTo u \<Rightarrow> u \<notin> set (map cm_id (messages d))
      | _ \<Rightarrow> False)"

text \<open>
  An environment in which every socket is connected and only socket 2 fails to send.  The
  strings \<open>u1\<close>, \<open>u2\<close> and \<open>r1\<close> stand for the printed forms of the UUIDs 1, 2 and 10; no
  other string parses.  Generated message ids start at 100 and print as \<open>m\<close>.  The
  database server enforces the foreign keys.
\<close>

definition example_env :: env where
  "example_env =
     \<lparr>jwt_decode = (\<lambda>t. if t = ''tok1'' then Some [''sub'' \<mapsto> ''u1'']
                        else if t = ''tok2'' then Some [''sub'' \<mapsto> ''u2''] else None),
      parse_uuid = (\<lambda>s. if s = ''u1'' then Some 1 else if s = ''u2'' then Some 2
                        else if s = ''r1'' then Some 10 else None),
      uuid_str = (\<lambda>u. if u = 1 then ''u1'' else if u = 2 then ''u2''
                        else if u = 10 then ''r1'' else ''m''),
      uuid4 = (\<lambda>n. 100 + n),
      insert_refused = foreign_key_violation,
      client_connected = (\<lambda>c. True),
      send_raises = (\<lambda>c. c = 2)\<rparr>"

text \<open>
  A user table with an inactive human named \<open>helper\<close> and an active bot with the slug
  \<open>helper\<close>, the same table without the bot, and a decoder for a token with that subject.
\<close>

definition helper_db :: database where
  "helper_db =
     \<lparr>users = [\<lparr>cu_id = 3, username = ''helper'', is_active = False, cu_type = HUMAN,
                 bot_display_name = None, bot_slug = None\<rparr>,
               \<lparr>cu_id = 4, username = ''helperbot'', is_active = True, cu_type = BOT,
                 bot_display_name = Some ''Helper'', bot_slug = Some ''helper''\<rparr>],
      rooms = [], members = [], messages = []\<rparr>"

definition helper_env :: env where
  "helper_env = example_env\<lparr>jwt_decode := (\<lambda>t. if t = ''tok3'' then Some [''sub'' \<mapsto> ''helper''] else None)\<rparr>"

definition inactive_db :: database where
  "inactive_db =
     \<lparr>users = [\<lparr>cu_id = 3, username = ''helper'', is_active = False, cu_type = HUMAN,
                 bot_display_name = None, bot_slug = None\<rparr>],
      rooms = [], members = [], messages = []\<rparr>"

text \<open>
  A database with one room and one user who is a member of it with the role \<open>VIEWER\<close>; the
  user's id is the one \<open>example_env\<close> prints as \<open>u1\<close>, the room's id prints as \<open>r1\<close>.
\<close>

definition viewer_db :: database where
  "viewer_db =
     \<lparr>users = [\<lparr>cu_id = 1, username = ''alice'', is_active = True, cu_type = HUMAN,
                 bot_display_name = None, bot_slug = None\<rparr>],
      rooms = [\<lparr>cr_id = 10, cr_name = ''general''\<rparr>],
      members = [\<lparr>crm_room_id = 10, crm_user_id = 1, role = VIEWER\<rparr>],
      messages = []\<rparr>"

text \<open>
  Frames of both endpoints, the users \<open>alice\<close> (the viewer of \<open>viewer_db\<close>) and \<open>bob\<close>, a
  database in which \<open>alice\<close> is an ordinary member, and worlds to run the endpoints in: one
  with the viewer database and an empty registry, one where a second user is already in
  room \<open>r1\<close> on socket 3, and one where both users are in room \<open>r1\<close> on sockets 1 and 3.
\<close>

definition join_frame :: "string \<Rightarrow> main_frame" where
  "join_frame r = \<lparr>mf_type = Some (JStr ''join_room''),
      mf_payload = Some \<lparr>mp_room_id = Some r, mp_content = None, mp_is_typing = None\<rparr>\<rparr>"

definition message_frame :: "string \<Rightarrow> string \<Rightarrow> main_frame" where
  "message_frame r content = \<lparr>mf_type = Some (JStr ''message''),
      mf_payload = Some \<lparr>mp_room_id = Some r, mp_content = Some content, mp_is_typing = None\<rparr>\<rparr>"

definition alice :: chat_user where
  "alice = \<lparr>cu_id = 1, username = ''alice'', is_active = True, cu_type = HUMAN,
                 bot_display_name = None, bot_slug = None\<rparr>"

definition viewer_world :: world where
  "viewer_world = empty_world\<lparr>db := viewer_db\<rparr>"

definition chat_message_frame :: "json option \<Rightarrow> json option \<Rightarrow> chat_frame" where
  "chat_message_frame content reply_to =
     \<lparr>cf_type = Some (JStr ''message''), cf_content = content,
      cf_client_msg_id = Some (JStr ''c1''), cf_reply_to_id = reply_to\<rparr>"

definition bob :: chat_user where
  "bob = \<lparr>cu_id = 2, username = ''bob'', is_active = True, cu_type = HUMAN,
           bot_display_name = None, bot_slug = None\<rparr>"

definition member_db :: database where
  "member_db = viewer_db\<lparr>users := users viewer_db @ [bob],
                          members := [\<lparr>crm_room_id = 10, crm_user_id = 1, role = MEMBER\<rparr>]\<rparr>"

definition other_user_world :: world where
  "other_user_world = snd (apply_ops [Register 3 ''r1'' ''u2''] viewer_world)"

definition room_world :: world where
  "room_world = snd (apply_ops [Register 1 ''r1'' ''u1'', Register 3 ''r1'' ''u2'']
                       (empty_world\<lparr>db := member_db\<rparr>))"

section \<open>Python sets and the registry invariant\<close>

lemma registry_inv_init: "registry_inv ConnectionManager_init"
  by (simp add: registry_inv_def rooms_ok_def users_ok_def views_agree_def
      ConnectionManager_init_def rooms_of_def entries_def)

lemma set_add_set [simp]: "set (set_add x s) = insert x (set s)"
  by (auto simp: set_add_def)
lemma set_add_distinct [simp]: "distinct s \<Longrightarrow> distinct (set_add x s)"
  by (auto simp: set_add_def)
lemma set_add_nonempty [simp]: "set_add x s \<noteq> []"
  by (auto simp: set_add_def)
lemma set_discard_set [simp]: "set (set_discard x s) = set s - {x}"
  by (auto simp: set_discard_def)
lemma set_discard_distinct [simp]: "distinct s \<Longrightarrow> distinct (set_discard x s)"
  by (auto simp: set_discard_def distinct_removeAll)

lemma rooms_ok_dom: "rooms_ok m \<Longrightarrow> (room_users m r = None) = (connections m r = None)"
  unfolding rooms_ok_def by (erule allE[of _ r]) auto

lemma connect_locked_eq:
  assumes "rooms_ok m"
  shows "connect_locked w r u m =
     (Returned (),
      m\<lparr>connections := (connections m)(r \<mapsto> AList.update u w (entries m r)),
        room_users := (room_users m)(r \<mapsto> set_add u (get_online_users m r)),
        user_rooms := (user_rooms m)(u \<mapsto> set_add r (rooms_of m u))\<rparr>)"
  using rooms_ok_dom[OF assms, of r]
  by (auto simp: connect_locked_def entries_def get_online_users_def rooms_of_def Let_def
      split: option.splits)

lemma removeAll_eq_Nil: "(removeAll r xs = []) = (set xs \<subseteq> {r})"
  by (induction xs) auto

lemma disconnect_user_eq:
  "disconnect_user r u m =
     m\<lparr>user_rooms := (user_rooms m)(u := (if set (rooms_of m u) \<subseteq> {r} then None
                                           else Some (set_discard r (rooms_of m u))))\<rparr>"
  by (auto simp: disconnect_user_def rooms_of_def Let_def set_discard_def removeAll_eq_Nil
      fun_upd_idem split: option.splits)

lemma delete_eq_Nil: "distinct (map fst d) \<Longrightarrow> (AList.delete u d = []) = (set (map fst d) \<subseteq> {u})"
  by (induction d) (auto simp: AList.delete_eq)

lemma disconnect_room_eq:
  assumes "rooms_ok m"
  shows "disconnect_room r u m =
     (Returned (),
      if u \<in> set (map fst (entries m r)) then
        m\<lparr>connections := (connections m)(r := (if set (map fst (entries m r)) \<subseteq> {u} then None
                              else Some (AList.delete u (entries m r)))),
          room_users := (room_users m)(r := (if set (map fst (entries m r)) \<subseteq> {u} then None
                              else Some (set_discard u (get_online_users m r))))\<rparr>
      else m)"
proof (cases "connections m r")
  case None
  then show ?thesis by (simp add: disconnect_room_def entries_def)
next
  case (Some d)
  with assms have d: "d \<noteq> []" "distinct (map fst d)"
    and "\<exists>s. room_users m r = Some s \<and> distinct s \<and> set s = set (map fst d)"
    unfolding rooms_ok_def by (auto dest!: spec[of _ r])
  then obtain s where s: "room_users m r = Some s" by blast
  show ?thesis using Some s delete_eq_Nil[OF d(2), of u]
    by (auto simp: disconnect_room_def entries_def get_online_users_def Let_def)
qed

lemma disconnect_locked_eq:
  assumes "rooms_ok m"
  shows "disconnect_locked r u m =
     (Returned (), disconnect_user r u (snd (disconnect_room r u m)))"
  by (simp add: disconnect_locked_def disconnect_room_eq[OF assms])


lemma rooms_okD:
  "rooms_ok m \<Longrightarrow> connections m r = Some d \<Longrightarrow>
     d \<noteq> [] \<and> distinct (map fst d) \<and>
     (\<exists>s. room_users m r = Some s \<and> distinct s \<and> set s = set (map fst d))"
  unfolding rooms_ok_def by (erule allE[of _ r]) simp

lemma rooms_okI:
  assumes "\<And>r. connections m r = None \<Longrightarrow> room_users m r = None"
    and "\<And>r d. connections m r = Some d \<Longrightarrow> d \<noteq> [] \<and> distinct (map fst d) \<and>
     (\<exists>s. room_users m r = Some s \<and> distinct s \<and> set s = set (map fst d))"
  shows "rooms_ok m"
  unfolding rooms_ok_def using assms by blast

lemma users_okD: "users_ok m \<Longrightarrow> user_rooms m u = Some rs \<Longrightarrow> rs \<noteq> [] \<and> distinct rs"
  unfolding users_ok_def by blast

lemma connect_locked_rooms_ok:
  assumes ro: "rooms_ok m"
  shows "rooms_ok (snd (connect_locked w r u m))"
proof (rule rooms_okI)
  fix r' assume "connections (snd (connect_locked w r u m)) r' = None"
  then show "room_users (snd (connect_locked w r u m)) r' = None"
    using rooms_ok_dom[OF ro, of r']
    by (simp add: connect_locked_eq[OF ro] split: if_splits)
next
  fix r' d assume d: "connections (snd (connect_locked w r u m)) r' = Some d"
  show "d \<noteq> [] \<and> distinct (map fst d) \<and>
     (\<exists>s. room_users (snd (connect_locked w r u m)) r' = Some s \<and> distinct s \<and>
          set s = set (map fst d))"
  proof (cases "r' = r")
    case False
    with d rooms_okD[OF ro, of r' d] show ?thesis
      by (simp add: connect_locked_eq[OF ro])
  next
    case True
    show ?thesis
    proof (cases "connections m r")
      case None
      with rooms_ok_dom[OF ro, of r] d True show ?thesis
        by (auto simp: connect_locked_eq[OF ro] entries_def get_online_users_def)
    next
      case (Some d0)
      from d True Some have "d = AList.update u w d0"
        by (simp add: connect_locked_eq[OF ro] entries_def)
      with rooms_okD[OF ro Some] Some True show ?thesis
        by (force simp: connect_locked_eq[OF ro] entries_def get_online_users_def
            AList.distinct_update AList.dom_update)
    qed
  qed
qed

lemma connect_locked_users_ok:
  assumes ro: "rooms_ok m" and uo: "users_ok m"
  shows "users_ok (snd (connect_locked w r u m))"
  unfolding users_ok_def
proof (intro allI impI)
  fix u' rs assume rs: "user_rooms (snd (connect_locked w r u m)) u' = Some rs"
  show "rs \<noteq> [] \<and> distinct rs"
  proof (cases "u' = u")
    case True
    then show ?thesis using users_okD[OF uo, of u] rs
      by (cases "user_rooms m u") (auto simp: connect_locked_eq[OF ro] rooms_of_def)
  next
    case False
    then show ?thesis using users_okD[OF uo, of u'] rs
      by (auto simp: connect_locked_eq[OF ro])
  qed
qed

lemma connect_locked_views_agree:
  assumes ro: "rooms_ok m" and va: "views_agree m"
  shows "views_agree (snd (connect_locked w r u m))"
  using va unfolding views_agree_def connect_locked_eq[OF ro]
  by (auto simp: rooms_of_def entries_def AList.dom_update split: option.splits)

lemma connect_locked_inv:
  assumes "registry_inv m"
  shows "registry_inv (snd (connect_locked w r u m))"
  using assms connect_locked_rooms_ok connect_locked_users_ok connect_locked_views_agree
  by (simp add: registry_inv_def)


lemma keys_delete: "set (map fst (AList.delete k al)) = set (map fst al) - {k}"
  by (simp add: AList.delete_keys)

lemma keys_delete_image: "fst ` set (AList.delete k al) = fst ` set al - {k}"
  using keys_delete[of k al] by simp

lemma rooms_of_disconnect_user:
  "set (rooms_of (disconnect_user r u m) u') =
     (if u' = u then set (rooms_of m u) - {r} else set (rooms_of m u'))"
  by (auto simp: disconnect_user_eq rooms_of_def)

lemma entries_disconnect_user [simp]: "entries (disconnect_user r u m) r' = entries m r'"
  by (simp add: disconnect_user_eq entries_def)

lemma disconnect_user_sel [simp]:
  "connections (disconnect_user r u m) = connections m"
  "room_users (disconnect_user r u m) = room_users m"
  by (simp_all add: disconnect_user_eq)

lemma rooms_of_disconnect_room [simp]:
  "rooms_ok m \<Longrightarrow> rooms_of (snd (disconnect_room r u m)) u' = rooms_of m u'"
  by (simp add: disconnect_room_eq rooms_of_def)

lemma keys_disconnect_room:
  assumes "rooms_ok m"
  shows "set (map fst (entries (snd (disconnect_room r u m)) r')) =
     (if r' = r then set (map fst (entries m r)) - {u} else set (map fst (entries m r')))"
proof (cases "connections m r")
  case None
  then show ?thesis by (simp add: disconnect_room_eq[OF assms] entries_def)
next
  case (Some d)
  then show ?thesis
    by (simp add: disconnect_room_eq[OF assms] entries_def keys_delete_image)
qed

lemma disconnect_room_rooms_ok:
  assumes ro: "rooms_ok m"
  shows "rooms_ok (snd (disconnect_room r u m))"
proof (rule rooms_okI)
  fix r' assume "connections (snd (disconnect_room r u m)) r' = None"
  then show "room_users (snd (disconnect_room r u m)) r' = None"
    using rooms_ok_dom[OF ro, of r']
    by (auto simp: disconnect_room_eq[OF ro] split: if_splits)
next
  fix r' d assume d: "connections (snd (disconnect_room r u m)) r' = Some d"
  show "d \<noteq> [] \<and> distinct (map fst d) \<and>
     (\<exists>s. room_users (snd (disconnect_room r u m)) r' = Some s \<and> distinct s \<and>
          set s = set (map fst d))"
  proof (cases "r' = r \<and> u \<in> set (map fst (entries m r))")
    case False
    with d rooms_okD[OF ro, of r' d] show ?thesis
      by (auto simp: disconnect_room_eq[OF ro] split: if_splits)
  next
    case True
    with d obtain d0 where d0: "connections m r = Some d0" "\<not> set (map fst d0) \<subseteq> {u}"
        "d = AList.delete u d0"
      by (auto simp: disconnect_room_eq[OF ro] entries_def split: if_splits option.splits)
    from rooms_okD[OF ro d0(1)] obtain s where s: "room_users m r = Some s" "distinct s"
        "set s = set (map fst d0)" "distinct (map fst d0)" by blast
    have "d \<noteq> []" using d0(2,3) s(4) by (simp add: delete_eq_Nil)
    moreover have "distinct (map fst d)" using d0(3) s(4) by (simp add: AList.distinct_delete)
    moreover have "room_users (snd (disconnect_room r u m)) r' = Some (set_discard u s)"
      using True d0 s by (simp add: disconnect_room_eq[OF ro] entries_def get_online_users_def)
    moreover have "set (set_discard u s) = set (map fst d)"
      using s(3) d0(3) keys_delete[of u d0] by simp
    ultimately show ?thesis using s(2) by simp
  qed
qed

lemma disconnect_locked_inv:
  assumes "registry_inv m"
  shows "registry_inv (snd (disconnect_locked r u m))"
proof -
  from assms have ro: "rooms_ok m" and uo: "users_ok m" and va: "views_agree m"
    by (auto simp: registry_inv_def)
  let ?m1 = "snd (disconnect_room r u m)"
  have eq: "snd (disconnect_locked r u m) = disconnect_user r u ?m1"
    by (simp add: disconnect_locked_eq[OF ro])
  have ro1: "rooms_ok ?m1" by (rule disconnect_room_rooms_ok[OF ro])
  have 1: "rooms_ok (disconnect_user r u ?m1)"
    using ro1 by (simp add: rooms_ok_def)
  have uo1: "users_ok ?m1" using uo by (simp add: users_ok_def disconnect_room_eq[OF ro])
  have 2: "users_ok (disconnect_user r u ?m1)"
    unfolding users_ok_def
  proof (intro allI impI)
    fix u' rs assume rs: "user_rooms (disconnect_user r u ?m1) u' = Some rs"
    show "rs \<noteq> [] \<and> distinct rs"
      using users_okD[OF uo1, of u'] rs
      by (cases "user_rooms ?m1 u'")
         (auto simp: disconnect_user_eq rooms_of_def set_discard_def removeAll_eq_Nil
           distinct_removeAll split: if_splits)
  qed
  have 3: "views_agree (disconnect_user r u ?m1)"
    unfolding views_agree_def
  proof (intro allI)
    fix r' u'
    show "(r' \<in> set (rooms_of (disconnect_user r u ?m1) u')) =
          (u' \<in> set (map fst (entries (disconnect_user r u ?m1) r')))"
      using va[unfolded views_agree_def, rule_format, of r' u']
            va[unfolded views_agree_def, rule_format, of r u']
            va[unfolded views_agree_def, rule_format, of r' u]
      unfolding rooms_of_disconnect_user entries_disconnect_user keys_disconnect_room[OF ro]
        rooms_of_disconnect_room[OF ro]
      by auto
  qed
  show ?thesis using 1 2 3 eq by (simp add: registry_inv_def)
qed


section \<open>Reachable registry states\<close>

lemma connect_eq:
  assumes "registry_inv (mgr w)"
  shows "connect c r u w =
     (Returned (), w\<lparr>mgr := snd (connect_locked c r u (mgr w)),
                      trace := trace w @ [LogConnected u r]\<rparr>)"
  using assms by (simp add: connect_def registry_inv_def connect_locked_eq)

lemma disconnect_eq:
  assumes "registry_inv (mgr w)"
  shows "disconnect r u w =
     (Returned (), w\<lparr>mgr := snd (disconnect_locked r u (mgr w)),
                      trace := trace w @ [LogDisconnected u r]\<rparr>)"
  using assms by (simp add: disconnect_def registry_inv_def disconnect_locked_eq)

lemma connect_inv: "registry_inv (mgr w) \<Longrightarrow> registry_inv (mgr (snd (connect c r u w)))"
  by (simp add: connect_eq connect_locked_inv)

lemma disconnect_inv: "registry_inv (mgr w) \<Longrightarrow> registry_inv (mgr (snd (disconnect r u w)))"
  by (simp add: disconnect_eq disconnect_locked_inv)

lemma apply_ops_inv:
  "registry_inv (mgr w) \<Longrightarrow>
     fst (apply_ops ops w) = Returned () \<and> registry_inv (mgr (snd (apply_ops ops w)))"
proof (induction ops arbitrary: w)
  case Nil
  then show ?case by simp
next
  case (Cons op ops)
  show ?case
  proof (cases op)
    case (Register c r u)
    with Cons.IH[OF connect_inv[OF Cons.prems, of c r u]] Cons.prems show ?thesis
      by (simp add: connect_eq)
  next
    case (Unregister r u)
    with Cons.IH[OF disconnect_inv[OF Cons.prems, of r u]] Cons.prems show ?thesis
      by (simp add: disconnect_eq)
  qed
qed

lemma inv_online_keys:
  assumes "registry_inv m"
  shows "set (get_online_users m r) = set (map fst (entries m r))"
proof (cases "connections m r")
  case None
  with assms rooms_ok_dom[of m r] show ?thesis
    by (simp add: registry_inv_def get_online_users_def entries_def)
next
  case (Some d)
  with assms rooms_okD[of m r d] show ?thesis
    by (force simp: registry_inv_def get_online_users_def entries_def)
qed

lemma inv_entries_distinct: "registry_inv m \<Longrightarrow> distinct (map fst (entries m r))"
  using rooms_okD[of m r] by (cases "connections m r") (auto simp: registry_inv_def entries_def)

lemma distinct_keys_one:
  "distinct (map fst d) \<Longrightarrow> u \<in> set (map fst d) \<Longrightarrow> length (filter (\<lambda>(k, c). k = u) d) = 1"
proof (induction d)
  case Nil
  then show ?case by simp
next
  case (Cons p d)
  obtain k c where p: "p = (k, c)" by (cases p)
  show ?case
  proof (cases "k = u")
    case True
    with Cons.prems p have "u \<notin> fst ` set d" by auto
    then have "filter (\<lambda>(k, c). k = u) d = []" by (force simp: filter_empty_conv)
    with True p show ?thesis by simp
  next
    case False
    with Cons p show ?thesis by auto
  qed
qed

text \<open>
  Claim C1.  Starting from the empty registry, after each operation of any sequence of
  \<open>connect\<close> and \<open>disconnect\<close> calls no call has raised and the three views agree: room
  \<open>r\<close> is in \<open>user_rooms[u]\<close> exactly when \<open>u\<close> is a key of \<open>connections[r]\<close>, exactly
  when \<open>u\<close> is in \<open>room_users[r]\<close>, and then exactly one connection is registered for the
  pair.
\<close>

theorem registry_views_consistent:
  assumes "mgr w0 = ConnectionManager_init"
    and "apply_ops (take n ops) w0 = (res, w)"
  shows "res = Returned () \<and>
     (r \<in> set (rooms_of (mgr w) u) \<longleftrightarrow> u \<in> set (map fst (entries (mgr w) r))) \<and>
     (u \<in> set (map fst (entries (mgr w) r)) \<longleftrightarrow> u \<in> set (get_online_users (mgr w) r)) \<and>
     (u \<in> set (map fst (entries (mgr w) r)) \<longrightarrow>
        length (filter (\<lambda>(k, c). k = u) (entries (mgr w) r)) = 1)"
proof -
  have "registry_inv (mgr w0)" using assms(1) by (simp add: registry_inv_init)
  from apply_ops_inv[OF this, of "take n ops"] assms(2)
  have res: "res = Returned ()" and inv: "registry_inv (mgr w)" by simp_all
  from inv have "views_agree (mgr w)" by (simp add: registry_inv_def)
  then have 1: "r \<in> set (rooms_of (mgr w) u) \<longleftrightarrow> u \<in> set (map fst (entries (mgr w) r))"
    unfolding views_agree_def by blast
  have 2: "u \<in> set (map fst (entries (mgr w) r)) \<longleftrightarrow> u \<in> set (get_online_users (mgr w) r)"
    using inv_online_keys[OF inv, of r] by simp
  have 3: "u \<in> set (map fst (entries (mgr w) r)) \<longrightarrow>
        length (filter (\<lambda>(k, c). k = u) (entries (mgr w) r)) = 1"
    using distinct_keys_one[OF inv_entries_distinct[OF inv, of r], of u] by blast
  show ?thesis using res 1 2 3 by blast
qed


lemmas registry_eval = connect_def connect_locked_def disconnect_def disconnect_locked_def
  disconnect_room_def disconnect_user_def set_add_def set_discard_def entries_def
  get_online_users_def rooms_of_def ConnectionManager_init_def empty_world_def Let_def

theorem registry_views_consistent_witness:
  "mgr empty_world = ConnectionManager_init \<and>
   fst (apply_ops (take 3 [Register 1 ''r'' ''a'', Register 2 ''r'' ''b'', Register 3 ''r'' ''a'',
          Unregister ''r'' ''b'']) empty_world) = Returned () \<and>
   ''r'' \<in> set (rooms_of (mgr (snd (apply_ops (take 3 [Register 1 ''r'' ''a'',
          Register 2 ''r'' ''b'', Register 3 ''r'' ''a'', Unregister ''r'' ''b'']) empty_world))) ''a'') \<and>
   length (filter (\<lambda>(k, c). k = ''a'') (entries (mgr (snd (apply_ops (take 3 [Register 1 ''r'' ''a'',
          Register 2 ''r'' ''b'', Register 3 ''r'' ''a'', Unregister ''r'' ''b'']) empty_world))) ''r'')) = 1"
  using registry_views_consistent[of empty_world 3
      "[Register 1 ''r'' ''a'', Register 2 ''r'' ''b'', Register 3 ''r'' ''a'', Unregister ''r'' ''b'']"
      "fst (apply_ops (take 3 [Register 1 ''r'' ''a'', Register 2 ''r'' ''b'',
          Register 3 ''r'' ''a'', Unregister ''r'' ''b'']) empty_world)"
      "snd (apply_ops (take 3 [Register 1 ''r'' ''a'', Register 2 ''r'' ''b'',
          Register 3 ''r'' ''a'', Unregister ''r'' ''b'']) empty_world)" "''r''" "''a''"]
  by (simp add: registry_eval)

lemma inv_no_empty:
  assumes "registry_inv m"
  shows "connections m r \<noteq> Some [] \<and> room_users m r \<noteq> Some [] \<and> user_rooms m u \<noteq> Some []"
proof -
  from assms have ro: "rooms_ok m" and uo: "users_ok m" by (simp_all add: registry_inv_def)
  have 1: "connections m r \<noteq> Some []" using rooms_okD[OF ro, of r "[]"] by auto
  have 2: "room_users m r \<noteq> Some []"
  proof (cases "connections m r")
    case None
    then show ?thesis using rooms_ok_dom[OF ro, of r] by simp
  next
    case (Some d)
    with rooms_okD[OF ro Some] show ?thesis by auto
  qed
  have 3: "user_rooms m u \<noteq> Some []" using users_okD[OF uo, of u "[]"] by auto
  show ?thesis using 1 2 3 by simp
qed

text \<open>
  Claim C8.  After a \<open>disconnect\<close> on any registry reached by \<open>connect\<close> and
  \<open>disconnect\<close> calls, no room maps to an empty dictionary or an empty user set and no
  user maps to an empty room set, so every key that presence enumeration finds has a
  member; a room or user whose last entry was removed is deleted outright.
\<close>

theorem disconnect_leaves_no_empty_container:
  assumes "mgr w0 = ConnectionManager_init"
    and "apply_ops ops w0 = (res0, w1)"
    and "disconnect room_id user_id w1 = (res, w)"
  shows "res = Returned () \<and>
     connections (mgr w) r \<noteq> Some [] \<and> room_users (mgr w) r \<noteq> Some [] \<and>
     user_rooms (mgr w) u \<noteq> Some [] \<and>
     (room_users (mgr w) r \<noteq> None \<longrightarrow> get_online_users (mgr w) r \<noteq> []) \<and>
     (user_rooms (mgr w) u \<noteq> None \<longrightarrow> rooms_of (mgr w) u \<noteq> []) \<and>
     (set (get_online_users (mgr w1) room_id) \<subseteq> {user_id} \<longrightarrow>
        connections (mgr w) room_id = None \<and> room_users (mgr w) room_id = None) \<and>
     (set (rooms_of (mgr w1) user_id) \<subseteq> {room_id} \<longrightarrow> user_rooms (mgr w) user_id = None)"
proof -
  have "registry_inv (mgr w0)" using assms(1) by (simp add: registry_inv_init)
  from apply_ops_inv[OF this, of ops] assms(2)
  have inv1: "registry_inv (mgr w1)" by simp
  then have ro1: "rooms_ok (mgr w1)" by (simp add: registry_inv_def)
  from disconnect_eq[OF inv1, of room_id user_id] assms(3)
  have res: "res = Returned ()"
    and w: "mgr w = snd (disconnect_locked room_id user_id (mgr w1))" by auto
  have inv: "registry_inv (mgr w)" using disconnect_locked_inv[OF inv1] w by simp
  note ne = inv_no_empty[OF inv, of r u]
  have 4: "room_users (mgr w) r \<noteq> None \<longrightarrow> get_online_users (mgr w) r \<noteq> []"
    using ne by (auto simp: get_online_users_def)
  have 5: "user_rooms (mgr w) u \<noteq> None \<longrightarrow> rooms_of (mgr w) u \<noteq> []"
    using ne by (auto simp: rooms_of_def)
  have mw: "mgr w = disconnect_user room_id user_id (snd (disconnect_room room_id user_id (mgr w1)))"
    using w by (simp add: disconnect_locked_eq[OF ro1])
  have 6: "set (get_online_users (mgr w1) room_id) \<subseteq> {user_id} \<longrightarrow>
        connections (mgr w) room_id = None \<and> room_users (mgr w) room_id = None"
  proof
    assume a: "set (get_online_users (mgr w1) room_id) \<subseteq> {user_id}"
    then have k: "set (map fst (entries (mgr w1) room_id)) \<subseteq> {user_id}"
      using inv_online_keys[OF inv1, of room_id] by simp
    show "connections (mgr w) room_id = None \<and> room_users (mgr w) room_id = None"
    proof (cases "connections (mgr w1) room_id")
      case None
      then show ?thesis using rooms_ok_dom[OF ro1, of room_id]
        by (simp add: mw disconnect_room_eq[OF ro1] entries_def)
    next
      case (Some d)
      with rooms_okD[OF ro1 Some] k have "user_id \<in> set (map fst (entries (mgr w1) room_id))"
        by (cases d) (auto simp: entries_def)
      with k show ?thesis by (simp add: mw disconnect_room_eq[OF ro1])
    qed
  qed
  have 7: "set (rooms_of (mgr w1) user_id) \<subseteq> {room_id} \<longrightarrow> user_rooms (mgr w) user_id = None"
    by (simp add: mw disconnect_user_eq rooms_of_disconnect_room[OF ro1])
  show ?thesis using res ne 4 5 6 7 by blast
qed

theorem disconnect_leaves_no_empty_container_witness:
  "mgr empty_world = ConnectionManager_init \<and>
   fst (disconnect ''r'' ''a'' (snd (apply_ops [Register 1 ''r'' ''a''] empty_world))) = Returned () \<and>
   set (get_online_users (mgr (snd (apply_ops [Register 1 ''r'' ''a''] empty_world))) ''r'') \<subseteq> {''a''} \<and>
   set (rooms_of (mgr (snd (apply_ops [Register 1 ''r'' ''a''] empty_world))) ''a'') \<subseteq> {''r''} \<and>
   connections (mgr (snd (disconnect ''r'' ''a''
       (snd (apply_ops [Register 1 ''r'' ''a''] empty_world))))) ''r'' = None \<and>
   user_rooms (mgr (snd (disconnect ''r'' ''a''
       (snd (apply_ops [Register 1 ''r'' ''a''] empty_world))))) ''a'' = None \<and>
   room_users (mgr (snd (disconnect ''r'' ''b''
       (snd (apply_ops [Register 1 ''r'' ''a''] empty_world))))) ''r'' \<noteq> None \<and>
   get_online_users (mgr (snd (disconnect ''r'' ''b''
       (snd (apply_ops [Register 1 ''r'' ''a''] empty_world))))) ''r'' \<noteq> []"
  using disconnect_leaves_no_empty_container[of empty_world "[Register 1 ''r'' ''a'']"
      "fst (apply_ops [Register 1 ''r'' ''a''] empty_world)"
      "snd (apply_ops [Register 1 ''r'' ''a''] empty_world)" "''r''" "''a''"
      "fst (disconnect ''r'' ''a'' (snd (apply_ops [Register 1 ''r'' ''a''] empty_world)))"
      "snd (disconnect ''r'' ''a'' (snd (apply_ops [Register 1 ''r'' ''a''] empty_world)))"
      "''r''" "''a''"]
  by (simp add: registry_eval)

section \<open>Broadcast\<close>

lemma sweep_append:
  "broadcast_sweep e msg x (xs @ ys) acc w =
     (case broadcast_sweep e msg x xs acc w of (acc', w') \<Rightarrow> broadcast_sweep e msg x ys acc' w')"
  by (induction xs arbitrary: acc w) (auto simp: send_json_def)

lemma sweep_all_live:
  "\<forall>(u, c) \<in> set d. live e c \<Longrightarrow>
     broadcast_sweep e msg None d acc w =
       (acc, w\<lparr>trace := trace w @ map (\<lambda>(u, c). Sent c msg) d\<rparr>)"
  by (induction d arbitrary: w) (auto simp: send_json_def live_def)

lemma sweep_one_dead:
  "client_connected e c \<Longrightarrow> send_raises e c \<Longrightarrow>
     broadcast_sweep e msg None [(u, c)] acc w =
       (acc @ [u], w\<lparr>trace := trace w @ [LogSendFailed u]\<rparr>)"
  by (simp add: send_json_def)

lemma sweep_frame:
  "mgr (snd (broadcast_sweep e msg x d acc w)) = mgr w \<and>
   db (snd (broadcast_sweep e msg x d acc w)) = db w"
  by (induction d arbitrary: acc w) (auto simp: send_json_def)

lemma sweep_trace:
  "\<exists>evs. trace (snd (broadcast_sweep e msg x d acc w)) = trace w @ evs \<and>
     (\<forall>c ev. Sent c ev \<in> set evs \<longrightarrow> ev = msg \<and> c \<in> snd ` set d) \<and>
     (\<forall>(u, c) \<in> set d. live e c \<and> \<not> (x \<noteq> None \<and> x \<noteq> Some [] \<and> Some u = x)
         \<longrightarrow> Sent c msg \<in> set evs)"
proof (induction d arbitrary: acc w)
  case Nil
  then show ?case by simp
next
  case (Cons p d)
  obtain u c where p: "p = (u, c)" by (cases p)
  let ?skip = "x \<noteq> None \<and> x \<noteq> Some [] \<and> Some u = x"
  consider (skip) "?skip" | (closed) "\<not> ?skip" "\<not> client_connected e c"
    | (ok) "\<not> ?skip" "client_connected e c" "\<not> send_raises e c"
    | (fail) "\<not> ?skip" "client_connected e c" "send_raises e c" by blast
  then show ?case
  proof cases
    case skip
    from Cons.IH[of acc w] obtain evs where
      "trace (snd (broadcast_sweep e msg x d acc w)) = trace w @ evs"
      "\<forall>c ev. Sent c ev \<in> set evs \<longrightarrow> ev = msg \<and> c \<in> snd ` set d"
      "\<forall>(u, c) \<in> set d. live e c \<and> \<not> (x \<noteq> None \<and> x \<noteq> Some [] \<and> Some u = x)
         \<longrightarrow> Sent c msg \<in> set evs" by blast
    with skip p show ?thesis by (intro exI[of _ evs]) auto
  next
    case closed
    from Cons.IH[of acc w] obtain evs where
      "trace (snd (broadcast_sweep e msg x d acc w)) = trace w @ evs"
      "\<forall>c ev. Sent c ev \<in> set evs \<longrightarrow> ev = msg \<and> c \<in> snd ` set d"
      "\<forall>(u, c) \<in> set d. live e c \<and> \<not> (x \<noteq> None \<and> x \<noteq> Some [] \<and> Some u = x)
         \<longrightarrow> Sent c msg \<in> set evs" by blast
    with closed p show ?thesis by (intro exI[of _ evs]) (auto simp: live_def)
  next
    case ok
    from Cons.IH[of acc "w\<lparr>trace := trace w @ [Sent c msg]\<rparr>"] obtain evs where
      "trace (snd (broadcast_sweep e msg x d acc (w\<lparr>trace := trace w @ [Sent c msg]\<rparr>)))
         = trace w @ [Sent c msg] @ evs"
      "\<forall>c ev. Sent c ev \<in> set evs \<longrightarrow> ev = msg \<and> c \<in> snd ` set d"
      "\<forall>(u, c) \<in> set d. live e c \<and> \<not> (x \<noteq> None \<and> x \<noteq> Some [] \<and> Some u = x)
         \<longrightarrow> Sent c msg \<in> set evs" by auto
    with ok p show ?thesis
      by (intro exI[of _ "Sent c msg # evs"]) (auto simp: send_json_def)
  next
    case fail
    from Cons.IH[of "acc @ [u]" "w\<lparr>trace := trace w @ [LogSendFailed u]\<rparr>"] obtain evs where
      "trace (snd (broadcast_sweep e msg x d (acc @ [u]) (w\<lparr>trace := trace w @ [LogSendFailed u]\<rparr>)))
         = trace w @ [LogSendFailed u] @ evs"
      "\<forall>c ev. Sent c ev \<in> set evs \<longrightarrow> ev = msg \<and> c \<in> snd ` set d"
      "\<forall>(u, c) \<in> set d. live e c \<and> \<not> (x \<noteq> None \<and> x \<noteq> Some [] \<and> Some u = x)
         \<longrightarrow> Sent c msg \<in> set evs" by auto
    with fail p show ?thesis
      by (intro exI[of _ "LogSendFailed u # evs"]) (auto simp: send_json_def live_def)
  qed
qed

lemma cleanup_inv:
  "registry_inv (mgr w) \<Longrightarrow>
     fst (broadcast_cleanup r us w) = Returned () \<and>
     registry_inv (mgr (snd (broadcast_cleanup r us w))) \<and>
     db (snd (broadcast_cleanup r us w)) = db w \<and>
     trace (snd (broadcast_cleanup r us w)) = trace w @ map (\<lambda>u. LogDisconnected u r) us"
proof (induction us arbitrary: w)
  case Nil
  then show ?case by simp
next
  case (Cons u us)
  from Cons.IH[OF disconnect_inv[OF Cons.prems, of r u]] Cons.prems show ?case
    by (simp add: disconnect_eq)
qed

lemma broadcast_inv:
  assumes "registry_inv (mgr w)"
  shows "fst (broadcast e r msg x w) = Returned () \<and>
     registry_inv (mgr (snd (broadcast e r msg x w))) \<and>
     db (snd (broadcast e r msg x w)) = db w"
proof (cases "connections (mgr w) r")
  case None
  with assms show ?thesis by (simp add: broadcast_def)
next
  case (Some d)
  obtain acc w1 where s: "broadcast_sweep e msg x d [] w = (acc, w1)" by force
  with sweep_frame[of e msg x d "[]" w] have "mgr w1 = mgr w" "db w1 = db w" by simp_all
  with cleanup_inv[of w1 r acc] assms Some s show ?thesis by (simp add: broadcast_def)
qed


lemma broadcast_trace:
  assumes "registry_inv (mgr w)"
  shows "\<exists>evs. trace (snd (broadcast e r msg x w)) = trace w @ evs \<and>
     (\<forall>c ev. Sent c ev \<in> set evs \<longrightarrow> ev = msg \<and> c \<in> snd ` set (entries (mgr w) r)) \<and>
     (\<forall>(u, c) \<in> set (entries (mgr w) r).
         live e c \<and> \<not> (x \<noteq> None \<and> x \<noteq> Some [] \<and> Some u = x) \<longrightarrow> Sent c msg \<in> set evs)"
proof (cases "connections (mgr w) r")
  case None
  then show ?thesis by (simp add: broadcast_def entries_def)
next
  case (Some d)
  obtain acc w1 where s: "broadcast_sweep e msg x d [] w = (acc, w1)" by force
  from sweep_trace[of e msg x d "[]" w] s obtain evs where evs:
    "trace w1 = trace w @ evs"
    "\<forall>c ev. Sent c ev \<in> set evs \<longrightarrow> ev = msg \<and> c \<in> snd ` set d"
    "\<forall>(u, c) \<in> set d. live e c \<and> \<not> (x \<noteq> None \<and> x \<noteq> Some [] \<and> Some u = x)
         \<longrightarrow> Sent c msg \<in> set evs" by auto
  from sweep_frame[of e msg x d "[]" w] s have "mgr w1 = mgr w" by simp
  with cleanup_inv[of w1 r acc] assms
  have t: "trace (snd (broadcast_cleanup r acc w1)) = trace w1 @ map (\<lambda>u. LogDisconnected u r) acc"
    by simp
  show ?thesis
    using Some s t evs
    by (intro exI[of _ "evs @ map (\<lambda>u. LogDisconnected u r) acc"])
       (auto simp: broadcast_def entries_def)
qed

lemma entries_disconnect_room:
  assumes "rooms_ok m"
  shows "entries (snd (disconnect_room r u m)) r' =
     (if r' = r then AList.delete u (entries m r) else entries m r')"
proof (cases "connections m r")
  case None
  then show ?thesis by (simp add: disconnect_room_eq[OF assms] entries_def)
next
  case (Some d)
  from rooms_okD[OF assms Some] have dd: "distinct (map fst d)" by simp
  show ?thesis using Some delete_eq_Nil[OF dd, of u]
    by (auto simp: disconnect_room_eq[OF assms] entries_def)
qed

lemma entries_disconnect_locked:
  assumes "rooms_ok m"
  shows "entries (snd (disconnect_locked r u m)) r' =
     (if r' = r then AList.delete u (entries m r) else entries m r')"
  by (simp add: disconnect_locked_eq[OF assms] entries_disconnect_room[OF assms])

lemma entries_connect_locked:
  assumes "rooms_ok m"
  shows "entries (snd (connect_locked c r u m)) r' =
     (if r' = r then AList.update u c (entries m r) else entries m r')"
  by (simp add: connect_locked_eq[OF assms] entries_def)

lemma delete_middle:
  assumes "distinct (map fst (pre @ (u, c) # post))"
  shows "AList.delete u (pre @ (u, c) # post) = pre @ post"
proof -
  from assms have "u \<notin> fst ` set pre" "u \<notin> fst ` set post" by auto
  then have "AList.delete u pre = pre" "AList.delete u post = post" by simp_all
  then show ?thesis by (simp add: AList.delete_eq)
qed

text \<open>
  Claim C2.  A room holds connections whose sends succeed and one connection, anywhere in
  the dictionary, whose send raises.  Then \<open>broadcast\<close> returns without raising, every
  live connection gets the payload in dictionary order, the eviction of the failing user
  is the last thing that happens (after the whole sweep), the room keeps exactly the live
  entries, and no other room and nothing in the database changes.
\<close>

theorem broadcast_isolates_failed_send:
  assumes "registry_inv (mgr w)"
    and "connections (mgr w) room_id = Some (pre @ (dead_user, dead_ws) # post)"
    and "\<forall>(u, c) \<in> set (pre @ post). live e c"
    and "client_connected e dead_ws" and "send_raises e dead_ws"
    and "broadcast e room_id message None w = (res, w')"
  shows "res = Returned () \<and>
     trace w' = trace w @ map (\<lambda>(u, c). Sent c message) pre @ [LogSendFailed dead_user]
                  @ map (\<lambda>(u, c). Sent c message) post @ [LogDisconnected dead_user room_id] \<and>
     entries (mgr w') room_id = pre @ post \<and>
     set (get_online_users (mgr w') room_id) = set (map fst (pre @ post)) \<and>
     room_id \<notin> set (rooms_of (mgr w') dead_user) \<and>
     (r \<noteq> room_id \<longrightarrow> entries (mgr w') r = entries (mgr w) r) \<and>
     db w' = db w"
proof -
  let ?d = "pre @ (dead_user, dead_ws) # post"
  let ?w1 = "w\<lparr>trace := trace w @ map (\<lambda>(u, c). Sent c message) pre @ [LogSendFailed dead_user]
                  @ map (\<lambda>(u, c). Sent c message) post\<rparr>"
  from assms(1) have ro: "rooms_ok (mgr w)" by (simp add: registry_inv_def)
  from rooms_okD[OF ro assms(2)] have dist: "distinct (map fst ?d)" by simp
  have pre: "\<forall>(u, c) \<in> set pre. live e c" and post: "\<forall>(u, c) \<in> set post. live e c"
    using assms(3) by auto
  have sweep: "broadcast_sweep e message None ?d [] w = ([dead_user], ?w1)"
    using sweep_append[of e message None pre "(dead_user, dead_ws) # post" "[]" w]
          sweep_append[of e message None "[(dead_user, dead_ws)]" post]
          sweep_one_dead[OF assms(4,5)] 
    by (simp add: sweep_all_live[OF pre] sweep_all_live[OF post])
  have inv1: "registry_inv (mgr ?w1)" using assms(1) by simp
  have b: "broadcast e room_id message None w =
      (Returned (), ?w1\<lparr>mgr := snd (disconnect_locked room_id dead_user (mgr w)),
                         trace := trace ?w1 @ [LogDisconnected dead_user room_id]\<rparr>)"
    using assms(2) sweep disconnect_eq[OF inv1, of room_id dead_user]
    by (simp add: broadcast_def)
  with assms(6) have res: "res = Returned ()"
    and w': "w' = ?w1\<lparr>mgr := snd (disconnect_locked room_id dead_user (mgr w)),
                         trace := trace ?w1 @ [LogDisconnected dead_user room_id]\<rparr>" by simp_all
  have m': "mgr w' = snd (disconnect_locked room_id dead_user (mgr w))" using w' by simp
  have inv': "registry_inv (mgr w')" using m' disconnect_locked_inv[OF assms(1)] by simp
  have en: "entries (mgr w') room_id = pre @ post"
    using assms(2) delete_middle[OF dist]
    by (simp add: m' entries_disconnect_locked[OF ro]) (simp add: entries_def)
  have on: "set (get_online_users (mgr w') room_id) = set (map fst (pre @ post))"
    using inv_online_keys[OF inv', of room_id] en by simp
  have "dead_user \<notin> set (map fst (pre @ post))" using dist by auto
  with en inv' have ro': "room_id \<notin> set (rooms_of (mgr w') dead_user)"
    unfolding registry_inv_def views_agree_def by auto
  have other: "r \<noteq> room_id \<longrightarrow> entries (mgr w') r = entries (mgr w) r"
    by (simp add: m' entries_disconnect_locked[OF ro])
  have tr: "trace w' = trace w @ map (\<lambda>(u, c). Sent c message) pre @ [LogSendFailed dead_user]
                  @ map (\<lambda>(u, c). Sent c message) post @ [LogDisconnected dead_user room_id]"
    using w' by simp
  have "db w' = db w" using w' by simp
  with res tr en on ro' other show ?thesis by blast
qed


theorem broadcast_isolates_failed_send_witness:
  "registry_inv (mgr (snd (apply_ops [Register 1 ''r'' ''a'', Register 2 ''r'' ''b'',
       Register 3 ''r'' ''c''] empty_world))) \<and>
   connections (mgr (snd (apply_ops [Register 1 ''r'' ''a'', Register 2 ''r'' ''b'',
       Register 3 ''r'' ''c''] empty_world))) ''r'' = Some ([(''a'', 1)] @ (''b'', 2) # [(''c'', 3)]) \<and>
   live example_env 1 \<and> live example_env 3 \<and>
   client_connected example_env 2 \<and> send_raises example_env 2 \<and>
   fst (broadcast example_env ''r'' EvPong None (snd (apply_ops [Register 1 ''r'' ''a'',
       Register 2 ''r'' ''b'', Register 3 ''r'' ''c''] empty_world))) = Returned () \<and>
   trace (snd (broadcast example_env ''r'' EvPong None (snd (apply_ops [Register 1 ''r'' ''a'',
       Register 2 ''r'' ''b'', Register 3 ''r'' ''c''] empty_world)))) =
     [LogConnected ''a'' ''r'', LogConnected ''b'' ''r'', LogConnected ''c'' ''r'',
      Sent 1 EvPong, LogSendFailed ''b'', Sent 3 EvPong, LogDisconnected ''b'' ''r''] \<and>
   entries (mgr (snd (broadcast example_env ''r'' EvPong None (snd (apply_ops [Register 1 ''r'' ''a'',
       Register 2 ''r'' ''b'', Register 3 ''r'' ''c''] empty_world))))) ''r'' = [(''a'', 1), (''c'', 3)]"
proof -
  let ?W = "snd (apply_ops [Register 1 ''r'' ''a'', Register 2 ''r'' ''b'',
       Register 3 ''r'' ''c''] empty_world)"
  have "registry_inv (mgr empty_world)" by (simp add: empty_world_def registry_inv_init)
  then have inv: "registry_inv (mgr ?W)" by (rule apply_ops_inv[THEN conjunct2])
  have c: "connections (mgr ?W) ''r'' = Some ([(''a'', 1)] @ (''b'', 2) # [(''c'', 3)])"
    by (simp add: registry_eval)
  have l: "\<forall>(u, c) \<in> set ([(''a'', 1)] @ [(''c'', 3)]). live example_env c"
    by (simp add: live_def example_env_def)
  have d: "client_connected example_env 2" "send_raises example_env 2"
    by (simp_all add: example_env_def)
  have t: "trace ?W = [LogConnected ''a'' ''r'', LogConnected ''b'' ''r'', LogConnected ''c'' ''r'']"
    by (simp add: registry_eval)
  have l': "live example_env 1" "live example_env 3" by (simp_all add: live_def example_env_def)
  show ?thesis
    using broadcast_isolates_failed_send[OF inv c l d, of EvPong
        "fst (broadcast example_env ''r'' EvPong None ?W)"
        "snd (broadcast example_env ''r'' EvPong None ?W)" "''r''"] inv c l' d t
    by simp
qed

lemma update_filter_key:
  "distinct (map fst d) \<Longrightarrow> filter (\<lambda>(k, c). k = u) (AList.update u c d) = [(u, c)]"
proof (induction d)
  case Nil
  then show ?case by simp
next
  case (Cons p d)
  obtain k v where p: "p = (k, v)" by (cases p)
  show ?case
  proof (cases "k = u")
    case True
    with Cons.prems p have "u \<notin> fst ` set d" by auto
    then have "filter (\<lambda>(k, c). k = u) d = []" by (force simp: filter_empty_conv)
    with True p show ?thesis by simp
  next
    case False
    with Cons p show ?thesis by simp
  qed
qed

lemma update_entries:
  "distinct (map fst d) \<Longrightarrow> (k, v) \<in> set (AList.update u c d) \<Longrightarrow>
     (k = u \<and> v = c) \<or> (k \<noteq> u \<and> (k, v) \<in> set d)"
  by (induction d) (force split: if_splits)+

lemma update_has: "(u, c) \<in> set (AList.update u c d)"
  by (induction d) auto

text \<open>
  Claim C3.  On a registry that satisfies the invariant, two \<open>connect\<close> calls for the same
  room and user leave exactly one entry for the pair, holding the second connection.  A
  broadcast to the room then sends nothing to the first connection (which is no other
  user's connection in that room) and, when the second connection is live, sends the
  payload to it.
\<close>

theorem second_connect_replaces_first:
  assumes "registry_inv (mgr w)"
    and "connect ws1 room_id user_id w = (res1, w1)"
    and "connect ws2 room_id user_id w1 = (res2, w2)"
    and "broadcast e room_id message None w2 = (res3, w3)"
    and "ws1 \<noteq> ws2"
    and "\<forall>(u, c) \<in> set (entries (mgr w) room_id). c = ws1 \<longrightarrow> u = user_id"
  shows "res1 = Returned () \<and> res2 = Returned () \<and> res3 = Returned () \<and>
     filter (\<lambda>(k, c). k = user_id) (entries (mgr w2) room_id) = [(user_id, ws2)] \<and>
     (\<exists>evs. trace w3 = trace w2 @ evs \<and>
        (\<forall>ev. Sent ws1 ev \<notin> set evs) \<and>
        (live e ws2 \<longrightarrow> Sent ws2 message \<in> set evs))"
proof -
  from assms(1) have ro: "rooms_ok (mgr w)" by (simp add: registry_inv_def)
  from connect_eq[OF assms(1), of ws1 room_id user_id] assms(2)
  have res1: "res1 = Returned ()"
    and m1: "mgr w1 = snd (connect_locked ws1 room_id user_id (mgr w))" by auto
  have inv1: "registry_inv (mgr w1)" using m1 connect_locked_inv[OF assms(1)] by simp
  then have ro1: "rooms_ok (mgr w1)" by (simp add: registry_inv_def)
  from connect_eq[OF inv1, of ws2 room_id user_id] assms(3)
  have res2: "res2 = Returned ()"
    and m2: "mgr w2 = snd (connect_locked ws2 room_id user_id (mgr w1))" by auto
  have inv2: "registry_inv (mgr w2)" using m2 connect_locked_inv[OF inv1] by simp
  let ?d = "entries (mgr w) room_id"
  have dd: "distinct (map fst ?d)" by (rule inv_entries_distinct[OF assms(1)])
  have e1: "entries (mgr w1) room_id = AList.update user_id ws1 ?d"
    unfolding m1 by (simp add: entries_connect_locked[OF ro])
  have e2: "entries (mgr w2) room_id = AList.update user_id ws2 (entries (mgr w1) room_id)"
    unfolding m2 by (simp add: entries_connect_locked[OF ro1])
  have en: "entries (mgr w2) room_id = AList.update user_id ws2 ?d"
    unfolding e2 e1 by simp
  have one: "filter (\<lambda>(k, c). k = user_id) (entries (mgr w2) room_id) = [(user_id, ws2)]"
    using update_filter_key[OF dd] en by simp
  have res3: "res3 = Returned ()" using broadcast_inv[OF inv2, of e room_id message None] assms(4)
    by simp
  from broadcast_trace[OF inv2, of e room_id message None] assms(4) obtain evs where evs:
    "trace w3 = trace w2 @ evs"
    "\<forall>c ev. Sent c ev \<in> set evs \<longrightarrow> ev = message \<and> c \<in> snd ` set (entries (mgr w2) room_id)"
    "\<forall>(u, c) \<in> set (entries (mgr w2) room_id). live e c \<longrightarrow> Sent c message \<in> set evs"
    by auto
  have no1: "\<forall>ev. Sent ws1 ev \<notin> set evs"
  proof (intro allI notI)
    fix ev assume "Sent ws1 ev \<in> set evs"
    with evs(2) obtain k where "(k, ws1) \<in> set (AList.update user_id ws2 ?d)"
      unfolding en by force
    from update_entries[OF dd this] assms(5,6) show False by auto
  qed
  have yes2: "live e ws2 \<longrightarrow> Sent ws2 message \<in> set evs"
    using evs(3) update_has[of user_id ws2 ?d] unfolding en by auto
  show ?thesis using res1 res2 res3 one evs(1) no1 yes2 by blast
qed

theorem second_connect_replaces_first_witness:
  "registry_inv (mgr (snd (apply_ops [Register 1 ''r'' ''a'', Register 5 ''r'' ''b''] empty_world))) \<and>
   (1::nat) \<noteq> 3 \<and>
   entries (mgr (snd (apply_ops [Register 1 ''r'' ''a'', Register 5 ''r'' ''b'']
        empty_world))) ''r'' = [(''a'', 1), (''b'', 5)] \<and>
   live example_env 3 \<and>
   filter (\<lambda>(k, c). k = ''a'')
     (entries (mgr (snd (connect 3 ''r'' ''a'' (snd (connect 1 ''r'' ''a''
        (snd (apply_ops [Register 1 ''r'' ''a'', Register 5 ''r'' ''b''] empty_world))))))) ''r'')
     = [(''a'', 3)] \<and>
   (\<exists>evs. trace (snd (broadcast example_env ''r'' EvPong None
        (snd (connect 3 ''r'' ''a'' (snd (connect 1 ''r'' ''a''
          (snd (apply_ops [Register 1 ''r'' ''a'', Register 5 ''r'' ''b''] empty_world)))))))) =
      trace (snd (connect 3 ''r'' ''a'' (snd (connect 1 ''r'' ''a''
          (snd (apply_ops [Register 1 ''r'' ''a'', Register 5 ''r'' ''b''] empty_world)))))) @ evs \<and>
      (\<forall>ev. Sent 1 ev \<notin> set evs) \<and> Sent 3 EvPong \<in> set evs)"
proof -
  let ?W = "snd (apply_ops [Register 1 ''r'' ''a'', Register 5 ''r'' ''b''] empty_world)"
  have "registry_inv (mgr empty_world)" by (simp add: empty_world_def registry_inv_init)
  then have inv: "registry_inv (mgr ?W)" by (rule apply_ops_inv[THEN conjunct2])
  have en: "entries (mgr ?W) ''r'' = [(''a'', 1), (''b'', 5)]" by (simp add: registry_eval)
  have q: "\<forall>(u, c) \<in> set (entries (mgr ?W) ''r''). c = 1 \<longrightarrow> u = ''a''"
    unfolding en by simp
  have l: "live example_env 3" by (simp add: live_def example_env_def)
  have ne: "(1::nat) \<noteq> 3" by simp
  show ?thesis
    using second_connect_replaces_first[OF inv _ _ _ ne q, of
        "fst (connect 1 ''r'' ''a'' ?W)" "snd (connect 1 ''r'' ''a'' ?W)"
        "fst (connect 3 ''r'' ''a'' (snd (connect 1 ''r'' ''a'' ?W)))"
        "snd (connect 3 ''r'' ''a'' (snd (connect 1 ''r'' ''a'' ?W)))"
        example_env EvPong
        "fst (broadcast example_env ''r'' EvPong None
               (snd (connect 3 ''r'' ''a'' (snd (connect 1 ''r'' ''a'' ?W)))))"
        "snd (broadcast example_env ''r'' EvPong None
               (snd (connect 3 ''r'' ''a'' (snd (connect 1 ''r'' ''a'' ?W)))))"]
      inv l en
    by simp
qed

section \<open>Token validation and inactive users\<close>

lemmas token_eval = get_current_chat_user_from_token_def decode_token_def found_active_def
  get_chat_user_by_id_def get_chat_user_by_username_def get_chat_user_by_slug_def
  scalar_one_or_none_def Let_def

lemma scalar_one_mem:
  "scalar_one_or_none rows = Returned (Some x) \<Longrightarrow> x \<in> set rows"
  by (auto simp: scalar_one_or_none_def split: list.splits)

lemma find_mem: "find P xs = Some x \<Longrightarrow> x \<in> set xs \<and> P x"
  by (induction xs) (auto split: if_splits)

lemma found_active_Some: "found_active r \<Longrightarrow> \<exists>u. r = Some u \<and> is_active u"
  by (cases r) (auto simp: found_active_def)

text \<open>Whatever validation returns is an active row of the user table.\<close>

lemma validated_is_active:
  "get_current_chat_user_from_token e token d = Some user \<Longrightarrow>
     is_active user \<and> user \<in> set (users d)"
  unfolding get_current_chat_user_from_token_def Let_def get_chat_user_by_id_def
    get_chat_user_by_username_def get_chat_user_by_slug_def
  by (auto split: option.splits if_splits outcome.splits
      dest!: found_active_Some find_mem scalar_one_mem)

text \<open>
  Claim C9.  The code does not do what the claim says.  The subject \<open>helper\<close> of a valid
  token resolves, by username, to a user record with \<open>is_active\<close> false.  Validation does
  not stop there: it goes on to the slug look-up with the same subject and returns the
  active bot whose slug is \<open>helper\<close>, and the generic endpoint accepts the socket instead
  of closing it with code 4001.
\<close>

theorem inactive_username_falls_through_to_slug:
  "decode_token helper_env ''tok3'' = Some [''sub'' \<mapsto> ''helper''] \<and>
   get_chat_user_by_username helper_db ''helper'' =
     Returned (Some \<lparr>cu_id = 3, username = ''helper'', is_active = False, cu_type = HUMAN,
                 bot_display_name = None, bot_slug = None\<rparr>) \<and>
   get_current_chat_user_from_token helper_env ''tok3'' helper_db =
     Some \<lparr>cu_id = 4, username = ''helperbot'', is_active = True, cu_type = BOT,
                 bot_display_name = Some ''Helper'', bot_slug = Some ''helper''\<rparr> \<and>
   websocket_main helper_env 7 ''tok3'' [] (empty_world\<lparr>db := helper_db\<rparr>) =
     (Receiving, empty_world\<lparr>db := helper_db, trace := [Accepted 7]\<rparr>)"
  by (simp add: token_eval websocket_main_def helper_db_def helper_env_def example_env_def
      empty_world_def)

section \<open>Message events\<close>

text \<open>The registry operations, the sends and the broadcast leave the session alone.\<close>

lemma connect_pending [simp]:
  "pending_rollback (snd (connect c r u w)) = pending_rollback w"
  by (auto simp: connect_def split: prod.splits outcome.splits)

lemma disconnect_pending [simp]:
  "pending_rollback (snd (disconnect r u w)) = pending_rollback w"
  by (auto simp: disconnect_def split: prod.splits outcome.splits)

lemma send_json_pending [simp]:
  "pending_rollback (snd (send_json e c ev w)) = pending_rollback w"
  by (simp add: send_json_def)

lemma sweep_only_trace: "\<exists>t. snd (broadcast_sweep e msg x d acc w) = w\<lparr>trace := t\<rparr>"
proof (induction d arbitrary: acc w)
  case Nil
  show ?case by (rule exI[of _ "trace w"]) simp
next
  case (Cons p d)
  obtain u c where p: "p = (u, c)" by (cases p)
  from Cons.IH[of acc w] Cons.IH[of acc "w\<lparr>trace := trace w @ [Sent c msg]\<rparr>"]
    Cons.IH[of "acc @ [u]" "w\<lparr>trace := trace w @ [LogSendFailed u]\<rparr>"]
  show ?case unfolding p by (auto simp: send_json_def)
qed

lemma sweep_pending [simp]:
  "pending_rollback (snd (broadcast_sweep e msg x d acc w)) = pending_rollback w"
proof -
  from sweep_only_trace[of e msg x d acc w] obtain t where
    "snd (broadcast_sweep e msg x d acc w) = w\<lparr>trace := t\<rparr>" by blast
  then show ?thesis by simp
qed

lemma cleanup_pending [simp]:
  "pending_rollback (snd (broadcast_cleanup r us w)) = pending_rollback w"
proof (induction us arbitrary: w)
  case Nil
  then show ?case by simp
next
  case (Cons u us)
  obtain res w1 where d: "disconnect r u w = (res, w1)" by force
  with disconnect_pending[of r u w] have "pending_rollback w1 = pending_rollback w" by simp
  with Cons.IH[of w1] d show ?case by (cases res) simp_all
qed

lemma broadcast_pending [simp]:
  "pending_rollback (snd (broadcast e r msg x w)) = pending_rollback w"
proof (cases "connections (mgr w) r")
  case None
  then show ?thesis by (simp add: broadcast_def)
next
  case (Some d)
  obtain acc w1 where s: "broadcast_sweep e msg x d [] w = (acc, w1)" by force
  with sweep_pending[of e msg x d "[]" w] have "pending_rollback w1 = pending_rollback w" by simp
  with Some s show ?thesis by (simp add: broadcast_def)
qed

text \<open>
  \<open>create_chat_message\<close> returns exactly when the session has no rollback pending, the
  reply reference is \<open>None\<close> or a UUID, and the database takes the row; it then adds the
  row and nothing else.  When it raises, no row is added.
\<close>

lemma create_chat_message_returned:
  assumes "create_chat_message e r s content t reply w = (Returned message, w1)"
  shows "\<not> pending_rollback w \<and> (\<forall>j. reply \<noteq> Unparsed j) \<and>
     \<not> insert_refused e (db w) message \<and>
     message = \<lparr>cm_id = uuid4 e (length (messages (db w))), cm_room_id = r,
                 cm_sender_id = s, cm_sender_type = t, cm_content = content,
                 cm_reply_to_id = reply\<rparr> \<and>
     w1 = w\<lparr>db := (db w)\<lparr>messages := messages (db w) @ [message]\<rparr>\<rparr>"
  using assms by (auto simp: create_chat_message_def Let_def split: if_splits)

lemma create_chat_message_returns:
  assumes "\<not> pending_rollback w" and "\<forall>j. reply \<noteq> Unparsed j"
    and "\<not> insert_refused e (db w)
            \<lparr>cm_id = uuid4 e (length (messages (db w))), cm_room_id = r,
             cm_sender_id = s, cm_sender_type = t, cm_content = content,
             cm_reply_to_id = reply\<rparr>"
  shows "create_chat_message e r s content t reply w =
     (Returned \<lparr>cm_id = uuid4 e (length (messages (db w))), cm_room_id = r,
                cm_sender_id = s, cm_sender_type = t, cm_content = content,
                cm_reply_to_id = reply\<rparr>,
      w\<lparr>db := (db w)\<lparr>messages := messages (db w) @
           [\<lparr>cm_id = uuid4 e (length (messages (db w))), cm_room_id = r,
             cm_sender_id = s, cm_sender_type = t, cm_content = content,
             cm_reply_to_id = reply\<rparr>]\<rparr>\<rparr>)"
  using assms by (cases reply) (simp_all add: create_chat_message_def Let_def)

lemma create_chat_message_raised:
  assumes "create_chat_message e r s content t reply w = (Raised x, w1)"
  shows "db w1 = db w \<and> mgr w1 = mgr w \<and> trace w1 = trace w \<and>
     (x = PendingRollbackError \<and> w1 = w \<and> pending_rollback w \<or>
      x = StatementError \<and> w1 = w\<lparr>pending_rollback := True\<rparr> \<and> \<not> pending_rollback w)"
  using assms by (auto simp: create_chat_message_def Let_def split: if_splits)

lemma create_chat_message_frame [simp]:
  "mgr (snd (create_chat_message e r s content t reply w)) = mgr w"
  "trace (snd (create_chat_message e r s content t reply w)) = trace w"
  by (simp_all add: create_chat_message_def Let_def)

lemma disconnect_effects:
  "db (snd (disconnect r u w)) = db w \<and>
   (trace (snd (disconnect r u w)) = trace w \<or>
    trace (snd (disconnect r u w)) = trace w @ [LogDisconnected u r])"
  by (auto simp: disconnect_def split: prod.splits outcome.splits)

lemma connect_effects:
  "db (snd (connect c r u w)) = db w \<and>
   (trace (snd (connect c r u w)) = trace w \<or>
    trace (snd (connect c r u w)) = trace w @ [LogConnected u r])"
  by (auto simp: connect_def split: prod.splits outcome.splits)

lemma cleanup_effects:
  "db (snd (broadcast_cleanup r us w)) = db w \<and>
   (\<exists>logs. trace (snd (broadcast_cleanup r us w)) = trace w @ logs \<and>
      (\<forall>c ev. Sent c ev \<notin> set logs))"
proof (induction us arbitrary: w)
  case Nil
  then show ?case by simp
next
  case (Cons u us)
  obtain res w1 where d: "disconnect r u w = (res, w1)" by force
  from disconnect_effects[of r u w] d have db1: "db w1 = db w"
    and t1: "trace w1 = trace w \<or> trace w1 = trace w @ [LogDisconnected u r]" by simp_all
  show ?case
  proof (cases res)
    case (Raised x)
    with d db1 t1 show ?thesis by auto
  next
    case (Returned x)
    from Cons.IH[of w1] obtain logs where
      "db (snd (broadcast_cleanup r us w1)) = db w1"
      "trace (snd (broadcast_cleanup r us w1)) = trace w1 @ logs"
      "\<forall>c ev. Sent c ev \<notin> set logs" by blast
    with Returned d db1 t1 show ?thesis by auto
  qed
qed

lemma broadcast_effects:
  "db (snd (broadcast e r msg x w)) = db w \<and>
   (\<exists>evs. trace (snd (broadcast e r msg x w)) = trace w @ evs \<and>
      (\<forall>c ev. Sent c ev \<in> set evs \<longrightarrow> ev = msg))"
proof (cases "connections (mgr w) r")
  case None
  then show ?thesis by (simp add: broadcast_def)
next
  case (Some d)
  obtain acc w1 where s: "broadcast_sweep e msg x d [] w = (acc, w1)" by force
  from sweep_trace[of e msg x d "[]" w] s obtain evs where evs:
    "trace w1 = trace w @ evs" "\<forall>c ev. Sent c ev \<in> set evs \<longrightarrow> ev = msg" by auto
  from sweep_frame[of e msg x d "[]" w] s have db1: "db w1 = db w" by simp
  from cleanup_effects[of r acc w1] obtain logs where logs:
    "db (snd (broadcast_cleanup r acc w1)) = db w1"
    "trace (snd (broadcast_cleanup r acc w1)) = trace w1 @ logs"
    "\<forall>c ev. Sent c ev \<notin> set logs" by blast
  show ?thesis using Some s evs db1 logs
    by (auto simp: broadcast_def intro!: exI[of _ "evs @ logs"])
qed

lemma strip_empty_iff: "py_strip s = [] \<longleftrightarrow> (\<forall>ch \<in> set s. isspace ch)"
proof
  assume "py_strip s = []"
  then have a: "\<forall>ch \<in> set (dropWhile isspace s). isspace ch"
    by (simp add: py_strip_def dropWhile_eq_Nil_conv)
  show "\<forall>ch \<in> set s. isspace ch"
  proof (cases "dropWhile isspace s")
    case Nil
    then show ?thesis by (simp add: dropWhile_eq_Nil_conv)
  next
    case (Cons x xs)
    then have "\<not> isspace x" using hd_dropWhile[of isspace s] by simp
    with a Cons show ?thesis by simp
  qed
next
  assume "\<forall>ch \<in> set s. isspace ch"
  then have d: "dropWhile isspace s = []" by (simp add: dropWhile_eq_Nil_conv)
  show "py_strip s = []" unfolding py_strip_def d by simp
qed

lemma snd_rewrap:
  "snd (case p of (Returned _, w1) \<Rightarrow> (Returned (), w1) | (Raised err, w1) \<Rightarrow> (Raised err, w1))
     = snd p"
  by (cases p; cases "fst p") auto

lemmas chat_eval = chat_loop_iteration_def chat_try_body_def receive_json_def
  handle_message_def send_json_def get_default_def orm_load_def

text \<open>
  Claim C5, amended.  On the per-room endpoint a \<open>message\<close> frame of a session with
  \<open>can_send\<close> false is answered by exactly one \<open>error\<close> event to that socket and changes
  nothing else (when that send itself raises, only the logger is written and the loop
  ends); a membership with the role \<open>VIEWER\<close> gives such a session.  The generic endpoint
  never sends an \<open>error\<close> event, whatever the frame.
\<close>

theorem viewer_message_rejected_per_room:
  "(cf_type data = Some (JStr ''message'') \<longrightarrow>
      chat_loop_iteration e c room_id room_uuid user False (RecvJson data) w =
        (if send_raises e c then (Break, w\<lparr>trace := trace w @ [LogError]\<rparr>)
         else (Continue, w\<lparr>trace := trace w @ [Sent c (EvError ViewersCannotSend)]\<rparr>))) \<and>
   (parse_uuid e room_id = Some room_uuid \<and>
    get_chat_room_by_id (db w) room_uuid = Some room \<and>
    get_current_chat_user_from_token e token (db w) = Some user \<and>
    get_chat_room_member (db w) room_uuid (cu_id user) = Returned (Some membership) \<and>
    role membership = VIEWER \<and>
    connect c room_id (uuid_str e (cu_id user)) (w\<lparr>trace := trace w @ [Accepted c]\<rparr>)
      = (Returned (), w1) \<longrightarrow>
      websocket_chat e c room_id token frames w =
        chat_joined e c room_id room_uuid room user False frames w1) \<and>
   (\<exists>evs. trace (snd (main_dispatch e c user main_data w)) = trace w @ evs \<and>
      (\<forall>c' m. Sent c' (EvError m) \<notin> set evs))"
proof (intro conjI impI)
  assume "cf_type data = Some (JStr ''message'')"
  then show "chat_loop_iteration e c room_id room_uuid user False (RecvJson data) w =
        (if send_raises e c then (Break, w\<lparr>trace := trace w @ [LogError]\<rparr>)
         else (Continue, w\<lparr>trace := trace w @ [Sent c (EvError ViewersCannotSend)]\<rparr>))"
    by (simp add: chat_eval)
next
  assume "parse_uuid e room_id = Some room_uuid \<and>
    get_chat_room_by_id (db w) room_uuid = Some room \<and>
    get_current_chat_user_from_token e token (db w) = Some user \<and>
    get_chat_room_member (db w) room_uuid (cu_id user) = Returned (Some membership) \<and>
    role membership = VIEWER \<and>
    connect c room_id (uuid_str e (cu_id user)) (w\<lparr>trace := trace w @ [Accepted c]\<rparr>)
      = (Returned (), w1)"
  then show "websocket_chat e c room_id token frames w =
        chat_joined e c room_id room_uuid room user False frames w1"
    by (simp add: websocket_chat_def)
next
  define Q where "Q w' \<longleftrightarrow> (\<exists>evs. trace w' = trace w @ evs \<and>
      (\<forall>c' m. Sent c' (EvError m) \<notin> set evs))" for w' :: world
  have B: "Q (snd (broadcast e r msg None w0))"
    if "\<And>m. msg \<noteq> EvError m" and "trace w0 = trace w" for r msg w0
    using broadcast_effects[of e r msg None w0] that unfolding Q_def by force
  have J: "Q (snd (join_room c r uid w))" for r uid
    using connect_effects[of c r uid w] unfolding Q_def by (auto simp: join_room_def)
  have L: "Q (snd (leave_room c r uid w))" for r uid
    using disconnect_effects[of r uid w] unfolding Q_def by (auto simp: leave_room_def)
  have N: "Q w" unfolding Q_def by simp
  have M: "Q (snd (send_message e r uid content HUMAN w))" for r uid content
  proof (cases "parse_uuid e r")
    case None
    then show ?thesis using N by (simp add: send_message_def)
  next
    case (Some ru)
    show ?thesis
    proof (cases "parse_uuid e uid")
      case None
      with Some show ?thesis using N by (simp add: send_message_def)
    next
      case uu: (Some uu)
      obtain res w1 where cr: "create_chat_message e ru uu content HUMAN NoReply w = (res, w1)"
        by force
      have t: "trace w1 = trace w"
        using create_chat_message_frame(2)[of e ru uu content HUMAN NoReply w] cr by simp
      show ?thesis
      proof (cases res)
        case (Raised x)
        with Some uu cr t show ?thesis unfolding Q_def by (simp add: send_message_def)
      next
        case (Returned m)
        have "snd (send_message e r uid content HUMAN w) =
            snd (broadcast e r (EvLegacyMessage (uuid_str e (cm_id m)) r uid content) None w1)"
          using Some uu cr Returned
          by (simp add: send_message_def split: prod.splits outcome.splits)
        then show ?thesis
          using B[of "EvLegacyMessage (uuid_str e (cm_id m)) r uid content" w1 r] t by simp
      qed
    qed
  qed
  have T: "Q (snd (send_typing e r uid n t w))" for r uid n t
    using B[of "EvTyping r uid n t" w r] by (simp add: send_typing_def)
  have P: "Q (snd (send_json e c EvPong w))"
    unfolding Q_def by (simp add: send_json_def)
  have "Q (snd (main_dispatch e c user main_data w))"
    unfolding main_dispatch_def Let_def orm_load_def
    using J L M T P N by (simp add: snd_rewrap split: option.splits)
  then show "\<exists>evs. trace (snd (main_dispatch e c user main_data w)) = trace w @ evs \<and>
      (\<forall>c' m. Sent c' (EvError m) \<notin> set evs)"
    unfolding Q_def .
qed

lemmas example_eval = example_env_def viewer_db_def viewer_world_def empty_world_def alice_def
  join_frame_def message_frame_def chat_message_frame_def

lemmas main_eval = websocket_main_def main_dispatch_def main_finally_def close_def nonempty_def
  send_message_def create_chat_message_def orm_load_def foreign_key_violation_def
  send_typing_def join_room_def leave_room_def
  broadcast_def receive_json_def get_default_def send_json_def get_chat_room_member_def
  get_chat_room_by_id_def

text \<open>
  Claim C5 as stated fails on the generic endpoint: a user whose membership in the room has
  the role \<open>VIEWER\<close> joins the room and sends a message; no \<open>error\<close> event is sent, the
  message is stored and broadcast.
\<close>

theorem viewer_message_generic_counterexample:
  "get_chat_room_member viewer_db 10 1 =
     Returned (Some \<lparr>crm_room_id = 10, crm_user_id = 1, role = VIEWER\<rparr>) \<and>
   fst (websocket_main example_env 1 ''tok1''
          [RecvJson (join_frame ''r1''), RecvJson (message_frame ''r1'' ''hi'')] viewer_world)
     = Receiving \<and>
   messages (db (snd (websocket_main example_env 1 ''tok1''
          [RecvJson (join_frame ''r1''), RecvJson (message_frame ''r1'' ''hi'')] viewer_world)))
     = [\<lparr>cm_id = 100, cm_room_id = 10, cm_sender_id = 1, cm_sender_type = HUMAN,
         cm_content = ''hi'', cm_reply_to_id = NoReply\<rparr>] \<and>
   trace (snd (websocket_main example_env 1 ''tok1''
          [RecvJson (join_frame ''r1''), RecvJson (message_frame ''r1'' ''hi'')] viewer_world))
     = [Accepted 1, LogConnected ''u1'' ''r1'',
        Sent 1 (EvLegacyMessage ''m'' ''r1'' ''u1'' ''hi'')]"
  by (simp add: main_eval token_eval registry_eval example_eval)

theorem viewer_message_rejected_per_room_witness:
  "cf_type (chat_message_frame (Some (JStr ''hi'')) None) = Some (JStr ''message'') \<and>
   chat_loop_iteration example_env 1 ''r1'' 10 alice False
       (RecvJson (chat_message_frame (Some (JStr ''hi'')) None)) viewer_world =
     (Continue, viewer_world\<lparr>trace := trace viewer_world @ [Sent 1 (EvError ViewersCannotSend)]\<rparr>) \<and>
   parse_uuid example_env ''r1'' = Some 10 \<and>
   get_chat_room_by_id (db viewer_world) 10 = Some \<lparr>cr_id = 10, cr_name = ''general''\<rparr> \<and>
   get_current_chat_user_from_token example_env ''tok1'' (db viewer_world) = Some alice \<and>
   get_chat_room_member (db viewer_world) 10 (cu_id alice) =
     Returned (Some \<lparr>crm_room_id = 10, crm_user_id = 1, role = VIEWER\<rparr>) \<and>
   role \<lparr>crm_room_id = 10, crm_user_id = 1, role = VIEWER\<rparr> = VIEWER \<and>
   fst (connect 1 ''r1'' (uuid_str example_env (cu_id alice))
         (viewer_world\<lparr>trace := trace viewer_world @ [Accepted 1]\<rparr>)) = Returned () \<and>
   websocket_chat example_env 1 ''r1'' ''tok1'' [] viewer_world =
     chat_joined example_env 1 ''r1'' 10 \<lparr>cr_id = 10, cr_name = ''general''\<rparr> alice False []
       (snd (connect 1 ''r1'' (uuid_str example_env (cu_id alice))
         (viewer_world\<lparr>trace := trace viewer_world @ [Accepted 1]\<rparr>)))"
proof -
  have 1: "parse_uuid example_env ''r1'' = Some 10" by (simp add: example_env_def)
  have 2: "get_chat_room_by_id (db viewer_world) 10 = Some \<lparr>cr_id = 10, cr_name = ''general''\<rparr>"
    by (simp add: get_chat_room_by_id_def example_eval)
  have 3: "get_current_chat_user_from_token example_env ''tok1'' (db viewer_world) = Some alice"
    by (simp add: token_eval example_eval)
  have 4: "get_chat_room_member (db viewer_world) 10 (cu_id alice) =
     Returned (Some \<lparr>crm_room_id = 10, crm_user_id = 1, role = VIEWER\<rparr>)"
    by (simp add: get_chat_room_member_def scalar_one_or_none_def example_eval)
  have 5: "fst (connect 1 ''r1'' (uuid_str example_env (cu_id alice))
         (viewer_world\<lparr>trace := trace viewer_world @ [Accepted 1]\<rparr>)) = Returned ()"
    by (simp add: registry_eval example_eval)
  then have c5: "connect 1 ''r1'' (uuid_str example_env (cu_id alice))
         (viewer_world\<lparr>trace := trace viewer_world @ [Accepted 1]\<rparr>) =
       (Returned (), snd (connect 1 ''r1'' (uuid_str example_env (cu_id alice))
         (viewer_world\<lparr>trace := trace viewer_world @ [Accepted 1]\<rparr>)))"
    by (metis prod.collapse)
  have 6: "\<not> send_raises example_env 1" by (simp add: example_env_def)
  have 7: "role \<lparr>crm_room_id = 10, crm_user_id = 1, role = VIEWER\<rparr> = VIEWER" by simp
  have 8: "cf_type (chat_message_frame (Some (JStr ''hi'')) None) = Some (JStr ''message'')"
    by (simp add: chat_message_frame_def)
  note T = viewer_message_rejected_per_room[where data = "chat_message_frame (Some (JStr ''hi'')) None"
        and e = example_env and c = 1 and room_id = "''r1''" and room_uuid = 10 and user = alice
        and w = viewer_world and room = "\<lparr>cr_id = 10, cr_name = ''general''\<rparr>"
        and token = "''tok1''"
        and membership = "\<lparr>crm_room_id = 10, crm_user_id = 1, role = VIEWER\<rparr>"
        and ?w1.0 = "snd (connect 1 ''r1'' (uuid_str example_env (cu_id alice))
         (viewer_world\<lparr>trace := trace viewer_world @ [Accepted 1]\<rparr>))" and frames = "[]"]
  from T 8 6 have A: "chat_loop_iteration example_env 1 ''r1'' 10 alice False
       (RecvJson (chat_message_frame (Some (JStr ''hi'')) None)) viewer_world =
     (Continue, viewer_world\<lparr>trace := trace viewer_world @ [Sent 1 (EvError ViewersCannotSend)]\<rparr>)"
    by simp
  from T 1 2 3 4 c5 7 have B: "websocket_chat example_env 1 ''r1'' ''tok1'' [] viewer_world =
     chat_joined example_env 1 ''r1'' 10 \<lparr>cr_id = 10, cr_name = ''general''\<rparr> alice False []
       (snd (connect 1 ''r1'' (uuid_str example_env (cu_id alice))
         (viewer_world\<lparr>trace := trace viewer_world @ [Accepted 1]\<rparr>)))"
    by blast
  show ?thesis using A B 1 2 3 4 5 7 8 by blast
qed

text \<open>
  Claim C6, amended.  On the per-room endpoint a \<open>message\<close> frame whose content is missing,
  empty or whitespace only is answered by exactly one \<open>error\<close> event and changes nothing
  else: no row is added and nothing is broadcast.  On the generic endpoint a \<open>message\<close>
  frame whose content is missing or empty does nothing at all: no row, no broadcast and
  no reply.
\<close>

theorem blank_content_never_stored:
  "(cf_type data = Some (JStr ''message'') \<and>
    (cf_content data = None \<or>
     (\<exists>raw. cf_content data = Some (JStr raw) \<and> (\<forall>ch \<in> set raw. isspace ch))) \<longrightarrow>
      chat_loop_iteration e c room_id room_uuid user can_send (RecvJson data) w =
        (if send_raises e c then (Break, w\<lparr>trace := trace w @ [LogError]\<rparr>)
         else (Continue, w\<lparr>trace := trace w @
                 [Sent c (EvError (if can_send then EmptyContent else ViewersCannotSend))]\<rparr>))) \<and>
   (mf_type main_data = Some (JStr ''message'') \<and>
    (mf_payload main_data = None \<or>
     (\<exists>p. mf_payload main_data = Some p \<and> (mp_content p = None \<or> mp_content p = Some []))) \<longrightarrow>
      main_dispatch e c user main_data w = (Returned (), w))"
proof (intro conjI impI)
  assume a: "cf_type data = Some (JStr ''message'') \<and>
    (cf_content data = None \<or>
     (\<exists>raw. cf_content data = Some (JStr raw) \<and> (\<forall>ch \<in> set raw. isspace ch)))"
  then consider "cf_content data = None"
    | raw where "cf_content data = Some (JStr raw)" "py_strip raw = []"
    by (auto simp: strip_empty_iff)
  then show "chat_loop_iteration e c room_id room_uuid user can_send (RecvJson data) w =
        (if send_raises e c then (Break, w\<lparr>trace := trace w @ [LogError]\<rparr>)
         else (Continue, w\<lparr>trace := trace w @
                 [Sent c (EvError (if can_send then EmptyContent else ViewersCannotSend))]\<rparr>))"
  proof cases
    case 1
    with a show ?thesis by (simp add: chat_eval py_strip_def)
  next
    case 2
    with a show ?thesis by (simp add: chat_eval)
  qed
next
  assume "mf_type main_data = Some (JStr ''message'') \<and>
    (mf_payload main_data = None \<or>
     (\<exists>p. mf_payload main_data = Some p \<and> (mp_content p = None \<or> mp_content p = Some [])))"
  then show "main_dispatch e c user main_data w = (Returned (), w)"
    by (auto simp: main_dispatch_def get_default_def nonempty_def split: option.splits)
qed

text \<open>
  Claim C6 as stated fails on the generic endpoint: a message with empty content is
  dropped without any reply to the sender.
\<close>

theorem empty_content_generic_counterexample:
  "fst (websocket_main example_env 1 ''tok1''
          [RecvJson (join_frame ''r1''), RecvJson (message_frame ''r1'' '''')] viewer_world)
     = Receiving \<and>
   trace (snd (websocket_main example_env 1 ''tok1''
          [RecvJson (join_frame ''r1''), RecvJson (message_frame ''r1'' '''')] viewer_world))
     = [Accepted 1, LogConnected ''u1'' ''r1'']"
  by (simp add: main_eval token_eval registry_eval example_eval)

theorem blank_content_never_stored_witness:
  "cf_type (chat_message_frame (Some (JStr '' '')) None) = Some (JStr ''message'') \<and>
   cf_content (chat_message_frame (Some (JStr '' '')) None) = Some (JStr '' '') \<and>
   isspace CHR '' '' \<and>
   chat_loop_iteration example_env 1 ''r1'' 10 alice True
       (RecvJson (chat_message_frame (Some (JStr '' '')) None)) viewer_world =
     (Continue, viewer_world\<lparr>trace := trace viewer_world @ [Sent 1 (EvError EmptyContent)]\<rparr>) \<and>
   mf_type (message_frame ''r1'' '''') = Some (JStr ''message'') \<and>
   mf_payload (message_frame ''r1'' '''') =
     Some \<lparr>mp_room_id = Some ''r1'', mp_content = Some [], mp_is_typing = None\<rparr> \<and>
   main_dispatch example_env 1 alice (message_frame ''r1'' '''') viewer_world =
     (Returned (), viewer_world)"
proof -
  have sp: "\<forall>ch \<in> set '' ''. isspace ch" by (simp add: isspace_def)
  have ns: "\<not> send_raises example_env 1" by (simp add: example_env_def)
  show ?thesis
    using blank_content_never_stored[where data = "chat_message_frame (Some (JStr '' '')) None"
        and main_data = "message_frame ''r1'' ''''" and e = example_env and c = 1
        and room_id = "''r1''" and room_uuid = 10 and user = alice and can_send = True
        and w = viewer_world] sp ns
    by (simp add: chat_message_frame_def message_frame_def)
qed


lemma chat_loop_iteration_returned:
  "chat_try_body e c r ru u cs x w = (Returned (), w1) \<Longrightarrow>
     chat_loop_iteration e c r ru u cs x w = (Continue, w1)"
  by (simp add: chat_loop_iteration_def)

lemma accepted_message:
  assumes inv: "registry_inv (mgr w)"
    and ty: "cf_type data = Some (JStr ''message'')"
    and co: "cf_content data = Some (JStr raw)" and ne: "py_strip raw \<noteq> []"
    and rp: "parse_reply_to e (get_default (cf_reply_to_id data) JNull) = Returned reply"
    and cr: "create_chat_message e room_uuid (cu_id user) (py_strip raw) (cu_type user) reply w
               = (Returned message, w1)"
    and ok: "\<not> send_raises e c"
    and it: "chat_loop_iteration e c room_id room_uuid user True (RecvJson data) w = (ctl, w')"
  shows "ctl = Continue \<and>
     message = \<lparr>cm_id = uuid4 e (length (messages (db w))), cm_room_id = room_uuid,
                 cm_sender_id = cu_id user, cm_sender_type = cu_type user,
                 cm_content = py_strip raw, cm_reply_to_id = reply\<rparr> \<and>
     db w' = (db w)\<lparr>messages := messages (db w) @ [message]\<rparr> \<and>
     \<not> pending_rollback w' \<and>
     (\<exists>evs.
        trace w' = trace w @ Sent c (EvAck (get_default (cf_client_msg_id data) JNull)
                                       (uuid_str e (cm_id message))) # evs \<and>
        (\<forall>c' ev. Sent c' ev \<in> set evs \<longrightarrow>
            ev = EvMessage (chat_message_to_dict e message (db w'))) \<and>
        ((\<exists>u. (u, c) \<in> set (entries (mgr w) room_id)) \<and> client_connected e c \<longrightarrow>
            Sent c (EvMessage (chat_message_to_dict e message (db w'))) \<in> set evs))"
proof -
  let ?ack = "Sent c (EvAck (get_default (cf_client_msg_id data) JNull)
                                       (uuid_str e (cm_id message)))"
  from create_chat_message_returned[OF cr]
  have np: "\<not> pending_rollback w"
    and msg: "message = \<lparr>cm_id = uuid4 e (length (messages (db w))), cm_room_id = room_uuid,
                 cm_sender_id = cu_id user, cm_sender_type = cu_type user,
                 cm_content = py_strip raw, cm_reply_to_id = reply\<rparr>"
    and w1: "w1 = w\<lparr>db := (db w)\<lparr>messages := messages (db w) @ [message]\<rparr>\<rparr>"
    by simp_all
  let ?w2 = "w1\<lparr>trace := trace w1 @ [?ack]\<rparr>"
  let ?ev = "EvMessage (chat_message_to_dict e message (db ?w2))"
  have body: "chat_try_body e c room_id room_uuid user True (RecvJson data) w =
      broadcast e room_id ?ev None ?w2"
    using ty co ne rp ok np cr
    by (simp add: chat_try_body_def receive_json_def handle_message_def send_json_def
        orm_load_def get_default_def Let_def)
  have inv2: "registry_inv (mgr ?w2)" using inv w1 by simp
  from broadcast_inv[OF inv2, of e room_id ?ev None]
  have r: "fst (broadcast e room_id ?ev None ?w2) = Returned ()"
    and d: "db (snd (broadcast e room_id ?ev None ?w2)) = db ?w2" by simp_all
  from r obtain w3 where bb: "broadcast e room_id ?ev None ?w2 = (Returned (), w3)"
    by (cases "broadcast e room_id ?ev None ?w2") auto
  have "chat_try_body e c room_id room_uuid user True (RecvJson data) w = (Returned (), w3)"
    by (simp only: body bb)
  then have "chat_loop_iteration e c room_id room_uuid user True (RecvJson data) w = (Continue, w3)"
    by (rule chat_loop_iteration_returned)
  with it bb have ctl: "ctl = Continue" and w': "w' = snd (broadcast e room_id ?ev None ?w2)"
    by simp_all
  from broadcast_trace[OF inv2, of e room_id ?ev None] obtain evs where evs:
    "trace w' = trace ?w2 @ evs"
    "\<forall>c' ev. Sent c' ev \<in> set evs \<longrightarrow> ev = ?ev \<and> c' \<in> snd ` set (entries (mgr ?w2) room_id)"
    "\<forall>(u, c') \<in> set (entries (mgr ?w2) room_id). live e c' \<longrightarrow> Sent c' ?ev \<in> set evs"
    unfolding w' by auto
  have dw: "db w' = (db w)\<lparr>messages := messages (db w) @ [message]\<rparr>" using d w' w1 by simp
  have pw: "\<not> pending_rollback w'" using np w1 unfolding w' by simp
  have t: "trace w' = trace w @ ?ack # evs" using evs(1) w1 by simp
  have only: "\<forall>c' ev. Sent c' ev \<in> set evs \<longrightarrow>
            ev = EvMessage (chat_message_to_dict e message (db w'))"
    using evs(2) dw w1 by simp
  have own: "(\<exists>u. (u, c) \<in> set (entries (mgr w) room_id)) \<and> client_connected e c \<longrightarrow>
            Sent c (EvMessage (chat_message_to_dict e message (db w'))) \<in> set evs"
    using evs(3) ok dw w1 by (auto simp: live_def)
  show ?thesis using ctl msg dw pw t only own by blast
qed

text \<open>
  Claim C7.  A \<open>message\<close> frame on the per-room endpoint is accepted when the sender may
  send, the content is not blank, the reply reference does not raise, the message store
  takes the message (\<open>create_chat_message\<close> returns it) and the socket takes the ack.
  Then the message is stored, and what the handler writes to sockets starts with the ack
  to the sender, carrying the client's id and the id of the stored message; every other
  frame written is the broadcast copy of that message.  So the copy that reaches the
  sender comes after the ack.
\<close>

theorem ack_precedes_broadcast_copy:
  assumes "registry_inv (mgr w)"
    and "cf_type data = Some (JStr ''message'')"
    and "cf_content data = Some (JStr raw)" and "py_strip raw \<noteq> []"
    and "parse_reply_to e (get_default (cf_reply_to_id data) JNull) = Returned reply"
    and "create_chat_message e room_uuid (cu_id user) (py_strip raw) (cu_type user) reply w
           = (Returned message, w1)"
    and "\<not> send_raises e c"
    and "chat_loop_iteration e c room_id room_uuid user True (RecvJson data) w = (ctl, w')"
  shows "ctl = Continue \<and>
     messages (db w') = messages (db w) @ [message] \<and>
     (\<exists>evs.
        trace w' = trace w @ Sent c (EvAck (get_default (cf_client_msg_id data) JNull)
                                       (uuid_str e (cm_id message))) # evs \<and>
        (\<forall>c' ev. Sent c' ev \<in> set evs \<longrightarrow>
            ev = EvMessage (chat_message_to_dict e message (db w'))) \<and>
        md_id (chat_message_to_dict e message (db w')) = uuid_str e (cm_id message) \<and>
        ((\<exists>u. (u, c) \<in> set (entries (mgr w) room_id)) \<and> client_connected e c \<longrightarrow>
            Sent c (EvMessage (chat_message_to_dict e message (db w'))) \<in> set evs))"
proof -
  from accepted_message[OF assms] obtain evs where
    ctl: "ctl = Continue"
    and d: "db w' = (db w)\<lparr>messages := messages (db w) @ [message]\<rparr>"
    and t: "trace w' = trace w @ Sent c (EvAck (get_default (cf_client_msg_id data) JNull)
                                       (uuid_str e (cm_id message))) # evs"
    and only: "\<forall>c' ev. Sent c' ev \<in> set evs \<longrightarrow>
            ev = EvMessage (chat_message_to_dict e message (db w'))"
    and own: "(\<exists>u. (u, c) \<in> set (entries (mgr w) room_id)) \<and> client_connected e c \<longrightarrow>
            Sent c (EvMessage (chat_message_to_dict e message (db w'))) \<in> set evs"
    by blast
  have m: "messages (db w') = messages (db w) @ [message]" using d by simp
  have i: "md_id (chat_message_to_dict e message (db w')) = uuid_str e (cm_id message)"
    by (simp add: chat_message_to_dict_def Let_def)
  show ?thesis using ctl m t only i own by blast
qed

text \<open>
  Claim C10, amended.  A \<open>message\<close> frame on the per-room endpoint whose \<open>reply_to_id\<close> is a
  non-empty string that does not parse as a UUID is not rejected for it.  When the session
  has no rollback pending and the database takes the row without a reply reference, the
  message is stored with no reply reference, acked and broadcast with \<open>reply_to_id\<close>
  null, and only the ack and the copies are sent, so no \<open>error\<close> event.
\<close>

theorem malformed_reply_reference_dropped:
  assumes "registry_inv (mgr w)"
    and "cf_type data = Some (JStr ''message'')"
    and "cf_content data = Some (JStr raw)" and "py_strip raw \<noteq> []"
    and "cf_reply_to_id data = Some (JStr s)" and "s \<noteq> []" and "parse_uuid e s = None"
    and "\<not> pending_rollback w"
    and "\<not> insert_refused e (db w)
            \<lparr>cm_id = uuid4 e (length (messages (db w))), cm_room_id = room_uuid,
             cm_sender_id = cu_id user, cm_sender_type = cu_type user,
             cm_content = py_strip raw, cm_reply_to_id = NoReply\<rparr>"
    and "\<not> send_raises e c"
    and "chat_loop_iteration e c room_id room_uuid user True (RecvJson data) w = (ctl, w')"
  shows "ctl = Continue \<and>
     (\<exists>message evs.
        message = \<lparr>cm_id = uuid4 e (length (messages (db w))), cm_room_id = room_uuid,
                    cm_sender_id = cu_id user, cm_sender_type = cu_type user,
                    cm_content = py_strip raw, cm_reply_to_id = NoReply\<rparr> \<and>
        messages (db w') = messages (db w) @ [message] \<and>
        \<not> pending_rollback w' \<and>
        trace w' = trace w @ Sent c (EvAck (get_default (cf_client_msg_id data) JNull)
                                       (uuid_str e (cm_id message))) # evs \<and>
        (\<forall>c' ev. Sent c' ev \<in> set evs \<longrightarrow>
            ev = EvMessage (chat_message_to_dict e message (db w'))) \<and>
        md_reply_to_id (chat_message_to_dict e message (db w')) = None \<and>
        ((\<exists>u. (u, c) \<in> set (entries (mgr w) room_id)) \<and> client_connected e c \<longrightarrow>
            Sent c (EvMessage (chat_message_to_dict e message (db w'))) \<in> set evs))"
proof -
  let ?message = "\<lparr>cm_id = uuid4 e (length (messages (db w))), cm_room_id = room_uuid,
                    cm_sender_id = cu_id user, cm_sender_type = cu_type user,
                    cm_content = py_strip raw, cm_reply_to_id = NoReply\<rparr>"
  have rp: "parse_reply_to e (get_default (cf_reply_to_id data) JNull) = Returned NoReply"
    using assms(5,6,7) by (simp add: parse_reply_to_def UUID_def get_default_def)
  have cr: "create_chat_message e room_uuid (cu_id user) (py_strip raw) (cu_type user) NoReply w
      = (Returned ?message, w\<lparr>db := (db w)\<lparr>messages := messages (db w) @ [?message]\<rparr>\<rparr>)"
    using assms(8,9) by (intro create_chat_message_returns) simp_all
  from accepted_message[OF assms(1,2,3,4) rp cr assms(10,11)] obtain evs where
    ctl: "ctl = Continue"
    and d: "db w' = (db w)\<lparr>messages := messages (db w) @ [?message]\<rparr>"
    and p: "\<not> pending_rollback w'"
    and t: "trace w' = trace w @ Sent c (EvAck (get_default (cf_client_msg_id data) JNull)
                                       (uuid_str e (cm_id ?message))) # evs"
    and only: "\<forall>c' ev. Sent c' ev \<in> set evs \<longrightarrow>
            ev = EvMessage (chat_message_to_dict e ?message (db w'))"
    and own: "(\<exists>u. (u, c) \<in> set (entries (mgr w) room_id)) \<and> client_connected e c \<longrightarrow>
            Sent c (EvMessage (chat_message_to_dict e ?message (db w'))) \<in> set evs"
    by blast
  have m: "messages (db w') = messages (db w) @ [?message]" using d by simp
  have i: "md_reply_to_id (chat_message_to_dict e ?message (db w')) = None"
    by (simp add: chat_message_to_dict_def Let_def)
  show ?thesis using ctl m p t only i own by blast
qed


lemma room_world_inv: "registry_inv (mgr room_world)"
proof -
  have "registry_inv (mgr (empty_world\<lparr>db := member_db\<rparr>))"
    by (simp add: empty_world_def registry_inv_init)
  then show ?thesis unfolding room_world_def by (rule apply_ops_inv[THEN conjunct2])
qed

lemmas room_eval = room_world_def member_db_def bob_def example_eval registry_eval chat_eval
  broadcast_def create_chat_message_def foreign_key_violation_def chat_message_to_dict_def
  get_chat_user_by_id_def parse_reply_to_def UUID_def py_strip_def isspace_def

theorem ack_precedes_broadcast_copy_witness:
  "registry_inv (mgr room_world) \<and>
   cf_type (chat_message_frame (Some (JStr ''hi'')) None) = Some (JStr ''message'') \<and>
   cf_content (chat_message_frame (Some (JStr ''hi'')) None) = Some (JStr ''hi'') \<and>
   py_strip ''hi'' \<noteq> [] \<and>
   parse_reply_to example_env
     (get_default (cf_reply_to_id (chat_message_frame (Some (JStr ''hi'')) None)) JNull)
     = Returned NoReply \<and>
   fst (create_chat_message example_env 10 (cu_id alice) (py_strip ''hi'') (cu_type alice)
          NoReply room_world) =
     Returned \<lparr>cm_id = 100, cm_room_id = 10, cm_sender_id = 1, cm_sender_type = HUMAN,
                cm_content = ''hi'', cm_reply_to_id = NoReply\<rparr> \<and>
   \<not> send_raises example_env 1 \<and>
   (''u1'', 1) \<in> set (entries (mgr room_world) ''r1'') \<and> client_connected example_env 1 \<and>
   fst (chat_loop_iteration example_env 1 ''r1'' 10 alice True
         (RecvJson (chat_message_frame (Some (JStr ''hi'')) None)) room_world) = Continue \<and>
   messages (db (snd (chat_loop_iteration example_env 1 ''r1'' 10 alice True
         (RecvJson (chat_message_frame (Some (JStr ''hi'')) None)) room_world))) =
     [\<lparr>cm_id = 100, cm_room_id = 10, cm_sender_id = 1, cm_sender_type = HUMAN,
       cm_content = ''hi'', cm_reply_to_id = NoReply\<rparr>] \<and>
   trace (snd (chat_loop_iteration example_env 1 ''r1'' 10 alice True
         (RecvJson (chat_message_frame (Some (JStr ''hi'')) None)) room_world)) =
     trace room_world @
     [Sent 1 (EvAck (JStr ''c1'') ''m''),
      Sent 1 (EvMessage \<lparr>md_id = ''m'', md_room_id = ''r1'', md_sender_id = ''u1'',
                md_sender_type = HUMAN, md_sender_username = ''alice'',
                md_sender_display_name = None, md_content = ''hi'', md_reply_to_id = None\<rparr>),
      Sent 3 (EvMessage \<lparr>md_id = ''m'', md_room_id = ''r1'', md_sender_id = ''u1'',
                md_sender_type = HUMAN, md_sender_username = ''alice'',
                md_sender_display_name = None, md_content = ''hi'', md_reply_to_id = None\<rparr>)]"
proof -
  let ?F = "chat_message_frame (Some (JStr ''hi'')) None"
  let ?R = "chat_loop_iteration example_env 1 ''r1'' 10 alice True (RecvJson ?F) room_world"
  let ?C = "create_chat_message example_env 10 (cu_id alice) (py_strip ''hi'') (cu_type alice)
          NoReply room_world"
  let ?m = "\<lparr>cm_id = 100, cm_room_id = 10, cm_sender_id = 1, cm_sender_type = HUMAN,
                cm_content = ''hi'', cm_reply_to_id = NoReply\<rparr>"
  have 1: "cf_type ?F = Some (JStr ''message'')" by (simp add: chat_message_frame_def)
  have 2: "cf_content ?F = Some (JStr ''hi'')" by (simp add: chat_message_frame_def)
  have 3: "py_strip ''hi'' \<noteq> []" by (simp add: py_strip_def isspace_def)
  have 4: "parse_reply_to example_env (get_default (cf_reply_to_id ?F) JNull) = Returned NoReply"
    by (simp add: chat_message_frame_def get_default_def parse_reply_to_def)
  have 5: "\<not> send_raises example_env 1" by (simp add: example_env_def)
  have 6: "(''u1'', 1) \<in> set (entries (mgr room_world) ''r1'')" by (simp add: room_eval)
  have 7: "client_connected example_env 1" by (simp add: example_env_def)
  have 8: "?R = (fst ?R, snd ?R)" by simp
  have 9: "fst ?C = Returned ?m" by (simp add: room_eval)
  then have c9: "?C = (Returned ?m, snd ?C)" by (metis prod.collapse)
  have t: "trace (snd ?R) = trace room_world @
     [Sent 1 (EvAck (JStr ''c1'') ''m''),
      Sent 1 (EvMessage \<lparr>md_id = ''m'', md_room_id = ''r1'', md_sender_id = ''u1'',
                md_sender_type = HUMAN, md_sender_username = ''alice'',
                md_sender_display_name = None, md_content = ''hi'', md_reply_to_id = None\<rparr>),
      Sent 3 (EvMessage \<lparr>md_id = ''m'', md_room_id = ''r1'', md_sender_id = ''u1'',
                md_sender_type = HUMAN, md_sender_username = ''alice'',
                md_sender_display_name = None, md_content = ''hi'', md_reply_to_id = None\<rparr>)]"
    by (simp add: room_eval)
  note T = ack_precedes_broadcast_copy[OF room_world_inv 1 2 3 4 c9 5 8]
  from T have c: "fst ?R = Continue" by blast
  from T have m: "messages (db (snd ?R)) = messages (db room_world) @ [?m]" by blast
  have "messages (db room_world) = []" by (simp add: room_eval)
  with m have m': "messages (db (snd ?R)) = [?m]" by simp
  show ?thesis using room_world_inv 1 2 3 4 5 6 7 9 c m' t by blast
qed

text \<open>
  Claim C10 as stated fails.  A \<open>reply_to_id\<close> that is the number 5 makes \<open>UUID\<close> raise an
  \<open>AttributeError\<close>, which the handler answers with an \<open>error\<close> event, and nothing is
  stored.  An empty string is no UUID either; it skips the parse and is handed to
  \<open>create_chat_message\<close> as it is, where the \<open>INSERT\<close> fails: again an \<open>error\<close> event is
  sent and nothing is stored, and the session is left with a rollback pending.
\<close>

theorem malformed_reply_reference_counterexample:
  "chat_loop_iteration example_env 1 ''r1'' 10 alice True
     (RecvJson (chat_message_frame (Some (JStr ''hi'')) (Some (JNum 5)))) room_world =
     (Continue, room_world\<lparr>trace := trace room_world @
                  [LogError, Sent 1 (EvError (ExceptionText AttributeError))]\<rparr>) \<and>
   parse_uuid example_env '''' = None \<and>
   chat_loop_iteration example_env 1 ''r1'' 10 alice True
     (RecvJson (chat_message_frame (Some (JStr ''hi'')) (Some (JStr '''')))) room_world =
     (Continue, room_world\<lparr>pending_rollback := True, trace := trace room_world @
                  [LogError, Sent 1 (EvError (ExceptionText StatementError))]\<rparr>) \<and>
   messages (db room_world) = []"
  by (simp add: room_eval)

theorem malformed_reply_reference_dropped_witness:
  "registry_inv (mgr room_world) \<and>
   cf_type (chat_message_frame (Some (JStr ''hi'')) (Some (JStr ''zz''))) = Some (JStr ''message'') \<and>
   cf_content (chat_message_frame (Some (JStr ''hi'')) (Some (JStr ''zz''))) = Some (JStr ''hi'') \<and>
   py_strip ''hi'' \<noteq> [] \<and>
   cf_reply_to_id (chat_message_frame (Some (JStr ''hi'')) (Some (JStr ''zz''))) = Some (JStr ''zz'') \<and>
   ''zz'' \<noteq> [] \<and> parse_uuid example_env ''zz'' = None \<and>
   \<not> pending_rollback room_world \<and>
   \<not> insert_refused example_env (db room_world)
        \<lparr>cm_id = uuid4 example_env (length (messages (db room_world))), cm_room_id = 10,
         cm_sender_id = cu_id alice, cm_sender_type = cu_type alice,
         cm_content = py_strip ''hi'', cm_reply_to_id = NoReply\<rparr> \<and>
   \<not> send_raises example_env 1 \<and>
   fst (chat_loop_iteration example_env 1 ''r1'' 10 alice True
         (RecvJson (chat_message_frame (Some (JStr ''hi'')) (Some (JStr ''zz'')))) room_world)
     = Continue \<and>
   messages (db (snd (chat_loop_iteration example_env 1 ''r1'' 10 alice True
         (RecvJson (chat_message_frame (Some (JStr ''hi'')) (Some (JStr ''zz'')))) room_world))) =
     [\<lparr>cm_id = 100, cm_room_id = 10, cm_sender_id = 1, cm_sender_type = HUMAN,
       cm_content = ''hi'', cm_reply_to_id = NoReply\<rparr>]"
proof -
  let ?F = "chat_message_frame (Some (JStr ''hi'')) (Some (JStr ''zz''))"
  let ?R = "chat_loop_iteration example_env 1 ''r1'' 10 alice True (RecvJson ?F) room_world"
  have 1: "cf_type ?F = Some (JStr ''message'')" by (simp add: chat_message_frame_def)
  have 2: "cf_content ?F = Some (JStr ''hi'')" by (simp add: chat_message_frame_def)
  have 3: "py_strip ''hi'' \<noteq> []" by (simp add: py_strip_def isspace_def)
  have 4: "cf_reply_to_id ?F = Some (JStr ''zz'')" by (simp add: chat_message_frame_def)
  have 5: "''zz'' \<noteq> []" by simp
  have 6: "parse_uuid example_env ''zz'' = None" by (simp add: example_env_def)
  have 7: "\<not> send_raises example_env 1" by (simp add: example_env_def)
  have 8: "?R = (fst ?R, snd ?R)" by simp
  have 9: "\<not> pending_rollback room_world" by (simp add: room_eval)
  have 10: "\<not> insert_refused example_env (db room_world)
        \<lparr>cm_id = uuid4 example_env (length (messages (db room_world))), cm_room_id = 10,
         cm_sender_id = cu_id alice, cm_sender_type = cu_type alice,
         cm_content = py_strip ''hi'', cm_reply_to_id = NoReply\<rparr>"
    by (simp add: room_eval)
  have m: "messages (db (snd ?R)) =
     [\<lparr>cm_id = 100, cm_room_id = 10, cm_sender_id = 1, cm_sender_type = HUMAN,
       cm_content = ''hi'', cm_reply_to_id = NoReply\<rparr>]"
    by (simp add: room_eval)
  from malformed_reply_reference_dropped[OF room_world_inv 1 2 3 4 5 6 9 10 7 8]
  have c: "fst ?R = Continue" by blast
  show ?thesis using room_world_inv 1 2 3 4 5 6 7 9 10 c m by blast
qed

section \<open>Teardown\<close>

lemma entries_disconnect:
  assumes "registry_inv (mgr w)"
  shows "entries (mgr (snd (disconnect r u w))) r' =
     (if r' = r then AList.delete u (entries (mgr w) r) else entries (mgr w) r')"
  using assms
  by (simp add: disconnect_eq entries_disconnect_locked registry_inv_def)

lemma delete_absent: "u \<notin> set (map fst d) \<Longrightarrow> AList.delete u d = d"
  by simp

lemma leave_rooms_spec:
  "registry_inv (mgr w) \<Longrightarrow>
     fst (leave_rooms c uid rs w) = Returned () \<and>
     registry_inv (mgr (snd (leave_rooms c uid rs w))) \<and>
     db (snd (leave_rooms c uid rs w)) = db w \<and>
     trace (snd (leave_rooms c uid rs w)) = trace w @ map (\<lambda>r. LogDisconnected uid r) rs \<and>
     (\<forall>r. entries (mgr (snd (leave_rooms c uid rs w))) r =
          (if r \<in> set rs then AList.delete uid (entries (mgr w) r) else entries (mgr w) r))"
proof (induction rs arbitrary: w)
  case Nil
  then show ?case by simp
next
  case (Cons r0 rs)
  let ?w1 = "snd (disconnect r0 uid w)"
  have inv1: "registry_inv (mgr ?w1)" by (rule disconnect_inv[OF Cons.prems])
  have step: "leave_rooms c uid (r0 # rs) w = leave_rooms c uid rs ?w1"
    by (simp add: leave_room_def disconnect_eq[OF Cons.prems])
  have t1: "trace ?w1 = trace w @ [LogDisconnected uid r0]" "db ?w1 = db w"
    by (simp_all add: disconnect_eq[OF Cons.prems])
  have e1: "\<And>r. entries (mgr ?w1) r =
       (if r = r0 then AList.delete uid (entries (mgr w) r0) else entries (mgr w) r)"
    by (rule entries_disconnect[OF Cons.prems])
  from Cons.IH[OF inv1] show ?case
    unfolding step by (simp add: t1 e1 AList.delete_idem)
qed

lemma main_finally_spec:
  assumes inv: "registry_inv (mgr w)" and np: "\<not> pending_rollback w"
  shows "fst (main_finally e c user w) = Returned () \<and>
     registry_inv (mgr (snd (main_finally e c user w))) \<and>
     db (snd (main_finally e c user w)) = db w \<and>
     trace (snd (main_finally e c user w)) =
        trace w @ map (\<lambda>r. LogDisconnected (uuid_str e (cu_id user)) r)
                    (rooms_of (mgr w) (uuid_str e (cu_id user))) \<and>
     (\<forall>r. entries (mgr (snd (main_finally e c user w))) r =
          AList.delete (uuid_str e (cu_id user)) (entries (mgr w) r)) \<and>
     rooms_of (mgr (snd (main_finally e c user w))) (uuid_str e (cu_id user)) = [] \<and>
     (\<forall>r. uuid_str e (cu_id user) \<notin> set (get_online_users (mgr (snd (main_finally e c user w))) r))"
proof -
  let ?uid = "uuid_str e (cu_id user)"
  let ?rs = "rooms_of (mgr w) ?uid"
  let ?w' = "snd (main_finally e c user w)"
  note L = leave_rooms_spec[OF inv, of c ?uid ?rs]
  have mf: "main_finally e c user w = leave_rooms c ?uid ?rs w"
    using np by (simp add: main_finally_def orm_load_def)
  have w': "?w' = snd (leave_rooms c ?uid ?rs w)" by (simp add: mf)
  have inv': "registry_inv (mgr ?w')" using L w' by simp
  have va: "\<And>r. r \<in> set ?rs \<longleftrightarrow> ?uid \<in> set (map fst (entries (mgr w) r))"
    using inv unfolding registry_inv_def views_agree_def by blast
  have en: "\<And>r. entries (mgr ?w') r = AList.delete ?uid (entries (mgr w) r)"
  proof -
    fix r
    show "entries (mgr ?w') r = AList.delete ?uid (entries (mgr w) r)"
    proof (cases "r \<in> set ?rs")
      case True
      with L w' show ?thesis by simp
    next
      case False
      with va[of r] have "AList.delete ?uid (entries (mgr w) r) = entries (mgr w) r" by simp
      with False L w' show ?thesis by simp
    qed
  qed
  have nk: "\<And>r. ?uid \<notin> set (map fst (entries (mgr ?w') r))"
    unfolding en by (simp add: keys_delete_image)
  have on: "\<And>r. ?uid \<notin> set (get_online_users (mgr ?w') r)"
    using nk inv_online_keys[OF inv'] by simp
  have "\<And>r. r \<notin> set (rooms_of (mgr ?w') ?uid)"
    using nk inv' unfolding registry_inv_def views_agree_def by blast
  then have ro: "rooms_of (mgr ?w') ?uid = []" by (cases "rooms_of (mgr ?w') ?uid") auto
  show ?thesis using L w' en ro on by (simp add: mf)
qed

lemma send_json_mgr [simp]: "mgr (snd (send_json e c ev w)) = mgr w"
  by (simp add: send_json_def)

lemma send_message_inv:
  assumes "registry_inv (mgr w)"
  shows "registry_inv (mgr (snd (send_message e r u content t w)))"
proof (cases "parse_uuid e r")
  case None
  with assms show ?thesis by (simp add: send_message_def)
next
  case (Some ru)
  show ?thesis
  proof (cases "parse_uuid e u")
    case None
    with Some assms show ?thesis by (simp add: send_message_def)
  next
    case uu: (Some uu)
    obtain res w1 where cr: "create_chat_message e ru uu content t NoReply w = (res, w1)"
      by force
    have m1: "mgr w1 = mgr w"
      using create_chat_message_frame(1)[of e ru uu content t NoReply w] cr by simp
    show ?thesis
    proof (cases res)
      case (Raised x)
      with Some uu cr m1 assms show ?thesis by (simp add: send_message_def)
    next
      case (Returned m)
      have "registry_inv (mgr w1)" using assms m1 by simp
      from broadcast_inv[OF this, of e r "EvLegacyMessage (uuid_str e (cm_id m)) r u content" None]
      show ?thesis using Some uu cr Returned
        by (auto simp: send_message_def split: prod.splits outcome.splits)
    qed
  qed
qed

lemma main_dispatch_inv:
  assumes inv: "registry_inv (mgr w)"
  shows "registry_inv (mgr (snd (main_dispatch e c user data w)))"
proof -
  have J: "registry_inv (mgr (snd (join_room c r uid w)))" for r uid
    by (simp add: join_room_def connect_inv[OF inv])
  have L: "registry_inv (mgr (snd (leave_room c r uid w)))" for r uid
    by (simp add: leave_room_def disconnect_inv[OF inv])
  have M: "registry_inv (mgr (snd (send_message e r uid content HUMAN w)))" for r uid content
    by (rule send_message_inv[OF inv])
  have T: "registry_inv (mgr (snd (send_typing e r uid n t w)))" for r uid n t
    using broadcast_inv[OF inv] by (simp add: send_typing_def)
  have P: "registry_inv (mgr (snd (send_json e c EvPong w)))" using inv by simp
  show ?thesis
    unfolding main_dispatch_def Let_def orm_load_def
    using J L M T P inv by (simp add: snd_rewrap split: option.splits)
qed

lemma main_loop_inv:
  "registry_inv (mgr w) \<Longrightarrow> registry_inv (mgr (snd (main_loop e c user frames w)))"
proof (induction frames arbitrary: w)
  case Nil
  then show ?case by simp
next
  case (Cons x xs)
  show ?case
  proof (cases "receive_json x")
    case (Raised err)
    with Cons.prems show ?thesis by simp
  next
    case (Returned data)
    obtain res w1 where d: "main_dispatch e c user data w = (res, w1)" by force
    with main_dispatch_inv[OF Cons.prems, of e c user data] have inv1: "registry_inv (mgr w1)"
      by simp
    show ?thesis using Returned d inv1 Cons.IH[OF inv1] by (cases res) simp_all
  qed
qed

lemma main_loop_ctl: "fst (main_loop e c user frames w) \<noteq> Break"
proof (induction frames arbitrary: w)
  case Nil
  then show ?case by simp
next
  case (Cons x xs)
  show ?case
  proof (cases "receive_json x")
    case (Raised err)
    then show ?thesis by simp
  next
    case (Returned data)
    obtain res w1 where d: "main_dispatch e c user data w = (res, w1)" by force
    show ?thesis using Returned d Cons.IH[of w1] by (cases res) simp_all
  qed
qed


lemma shrunk_same: "registry_inv (mgr w) \<Longrightarrow> mgr w' = mgr w \<Longrightarrow> shrunk w w'"
  by (simp add: shrunk_def)

lemma shrunk_trans: "shrunk w w1 \<Longrightarrow> shrunk w1 w2 \<Longrightarrow> shrunk w w2"
  unfolding shrunk_def by blast

lemma shrunk_from: "mgr v = mgr w \<Longrightarrow> shrunk v w' \<Longrightarrow> shrunk w w'"
  by (simp add: shrunk_def)

lemma disconnect_shrunk:
  assumes inv: "registry_inv (mgr w)"
  shows "shrunk w (snd (disconnect r u w))"
proof -
  let ?w' = "snd (disconnect r u w)"
  have inv': "registry_inv (mgr ?w')" by (rule disconnect_inv[OF inv])
  have "set (get_online_users (mgr ?w') r') \<subseteq> set (get_online_users (mgr w) r')" for r'
    using inv_online_keys[OF inv', of r'] inv_online_keys[OF inv, of r']
    by (auto simp: entries_disconnect[OF inv] keys_delete_image)
  with inv' show ?thesis by (simp add: shrunk_def)
qed

lemma cleanup_shrunk:
  "registry_inv (mgr w) \<Longrightarrow> shrunk w (snd (broadcast_cleanup r us w))"
proof (induction us arbitrary: w)
  case Nil
  then show ?case by (simp add: shrunk_same)
next
  case (Cons u us)
  let ?w1 = "snd (disconnect r u w)"
  have s1: "shrunk w ?w1" by (rule disconnect_shrunk[OF Cons.prems])
  then have inv1: "registry_inv (mgr ?w1)" by (simp add: shrunk_def)
  have "broadcast_cleanup r (u # us) w = broadcast_cleanup r us ?w1"
    by (simp add: disconnect_eq[OF Cons.prems])
  with shrunk_trans[OF s1 Cons.IH[OF inv1]] show ?case by simp
qed

lemma broadcast_shrunk:
  assumes inv: "registry_inv (mgr w)"
  shows "shrunk w (snd (broadcast e r msg x w))"
proof (cases "connections (mgr w) r")
  case None
  with inv show ?thesis by (simp add: broadcast_def shrunk_same)
next
  case (Some d)
  obtain acc w1 where s: "broadcast_sweep e msg x d [] w = (acc, w1)" by force
  with sweep_frame[of e msg x d "[]" w] have m1: "mgr w1 = mgr w" by simp
  then have "registry_inv (mgr w1)" using inv by simp
  from cleanup_shrunk[OF this, of r acc] m1 have "shrunk w (snd (broadcast_cleanup r acc w1))"
    by (rule_tac shrunk_from[of w1]) simp_all
  with Some s show ?thesis by (simp add: broadcast_def)
qed

lemma cleanup_entries_other:
  "registry_inv (mgr w) \<Longrightarrow> r' \<noteq> r \<Longrightarrow>
     entries (mgr (snd (broadcast_cleanup r us w))) r' = entries (mgr w) r'"
proof (induction us arbitrary: w)
  case Nil
  then show ?case by simp
next
  case (Cons u us)
  let ?w1 = "snd (disconnect r u w)"
  have inv1: "registry_inv (mgr ?w1)" by (rule disconnect_inv[OF Cons.prems(1)])
  have step: "broadcast_cleanup r (u # us) w = broadcast_cleanup r us ?w1"
    by (simp add: disconnect_eq[OF Cons.prems(1)])
  from Cons.IH[OF inv1 Cons.prems(2)] Cons.prems(2) show ?case
    unfolding step by (simp add: entries_disconnect[OF Cons.prems(1)])
qed

lemma broadcast_entries_other:
  assumes inv: "registry_inv (mgr w)" and ne: "r' \<noteq> r"
  shows "entries (mgr (snd (broadcast e r msg x w))) r' = entries (mgr w) r'"
proof (cases "connections (mgr w) r")
  case None
  then show ?thesis by (simp add: broadcast_def)
next
  case (Some d)
  obtain acc w1 where s: "broadcast_sweep e msg x d [] w = (acc, w1)" by force
  with sweep_frame[of e msg x d "[]" w] have m1: "mgr w1 = mgr w" by simp
  then have "registry_inv (mgr w1)" using inv by simp
  from cleanup_entries_other[OF this ne, of acc] m1 Some s show ?thesis
    by (simp add: broadcast_def)
qed

lemma handle_message_shrunk:
  assumes inv: "registry_inv (mgr w)"
  shows "shrunk w (snd (handle_message e c room_id room_uuid user can_send data w))"
proof -
  have B: "shrunk w (snd (broadcast e room_id msg None w2))" if "mgr w2 = mgr w" for msg w2
  proof -
    from that inv have "registry_inv (mgr w2)" by simp
    from broadcast_shrunk[OF this] that show ?thesis by (rule_tac shrunk_from[of w2]) simp_all
  qed
  have R: "shrunk w w2" if "mgr w2 = mgr w" for w2
    using inv that by (simp add: shrunk_same)
  show ?thesis
    unfolding handle_message_def
    by (simp add: send_json_def orm_load_def create_chat_message_def Let_def B R
        split: json.splits outcome.splits)
qed

lemma chat_try_body_shrunk:
  assumes inv: "registry_inv (mgr w)"
  shows "shrunk w (snd (chat_try_body e c room_id room_uuid user can_send x w))"
  unfolding chat_try_body_def Let_def
  using handle_message_shrunk[OF inv] shrunk_same[OF inv]
  by (auto simp: send_json_def split: outcome.splits)

lemma chat_loop_iteration_shrunk:
  assumes inv: "registry_inv (mgr w)"
  shows "shrunk w (snd (chat_loop_iteration e c room_id room_uuid user can_send x w))"
proof -
  obtain res w1 where b: "chat_try_body e c room_id room_uuid user can_send x w = (res, w1)"
    by force
  with chat_try_body_shrunk[OF inv, of e c room_id room_uuid user can_send x]
  have s1: "shrunk w w1" by simp
  have "shrunk w w2" if "mgr w2 = mgr w1" for w2
    using s1 that by (simp add: shrunk_def)
  then show ?thesis
    unfolding chat_loop_iteration_def b
    by (cases res) (auto simp: send_json_def s1 split: error.splits)
qed

lemma chat_loop_shrunk:
  "registry_inv (mgr w) \<Longrightarrow>
     shrunk w (snd (chat_loop e c room_id room_uuid user can_send frames w))"
proof (induction frames arbitrary: w)
  case Nil
  then show ?case by (simp add: shrunk_same)
next
  case (Cons x xs)
  obtain ctl w1 where i: "chat_loop_iteration e c room_id room_uuid user can_send x w = (ctl, w1)"
    by force
  with chat_loop_iteration_shrunk[OF Cons.prems, of e c room_id room_uuid user can_send x]
  have s1: "shrunk w w1" by simp
  then have inv1: "registry_inv (mgr w1)" by (simp add: shrunk_def)
  show ?case using i s1 shrunk_trans[OF s1 Cons.IH[OF inv1]] by (cases ctl) simp_all
qed

lemma chat_initial_shrunk:
  assumes inv: "registry_inv (mgr w)"
  shows "shrunk w (snd (chat_initial e c room_id room_uuid room user can_send w))"
proof -
  have B: "shrunk w (snd (broadcast e room_id msg None w2))" if "mgr w2 = mgr w" for msg w2
  proof -
    from that inv have "registry_inv (mgr w2)" by simp
    from broadcast_shrunk[OF this] that show ?thesis by (rule_tac shrunk_from[of w2]) simp_all
  qed
  have R: "shrunk w w2" if "mgr w2 = mgr w" for w2
    using inv that by (simp add: shrunk_same)
  show ?thesis
    unfolding chat_initial_def
    by (simp add: send_json_def orm_load_def Let_def B R split: prod.splits outcome.splits)
qed

lemma chat_try_shrunk:
  assumes inv: "registry_inv (mgr w)"
  shows "shrunk w (snd (chat_try e c room_id room_uuid room user can_send frames w))"
proof -
  obtain r0 w1 where i: "chat_initial e c room_id room_uuid room user can_send w = (r0, w1)"
    by force
  with chat_initial_shrunk[OF inv, of e c room_id room_uuid room user can_send]
  have s1: "shrunk w w1" by simp
  then have inv1: "registry_inv (mgr w1)" by (simp add: shrunk_def)
  show ?thesis
  proof (cases r0)
    case (Raised err)
    with i s1 show ?thesis by (simp add: chat_try_def)
  next
    case (Returned x)
    with i shrunk_trans[OF s1 chat_loop_shrunk[OF inv1]] show ?thesis
      by (simp add: chat_try_def)
  qed
qed

lemma online_users_of_returns:
  "\<forall>u \<in> set uids. parse_uuid e u \<noteq> None \<Longrightarrow> \<exists>online. online_users_of e d uids acc = Returned online"
  by (induction uids arbitrary: acc) (auto split: option.splits)

lemma inv_online_distinct: "registry_inv m \<Longrightarrow> distinct (get_online_users m r)"
  using rooms_okD[of m r] rooms_ok_dom[of m r]
  by (cases "connections m r") (auto simp: registry_inv_def get_online_users_def)

lemma distinct_singleton:
  assumes "distinct xs" and "set xs = {x}"
  shows "xs = [x]"
proof -
  from assms(1) have "length xs = card (set xs)" by (simp add: distinct_card)
  with assms(2) have "length xs = 1" by simp
  then obtain y where "xs = [y]" by (cases xs) auto
  with assms(2) show ?thesis by simp
qed

lemma inv_rooms_distinct: "registry_inv m \<Longrightarrow> distinct (rooms_of m u)"
  using users_okD[of m u]
  by (cases "user_rooms m u") (auto simp: registry_inv_def rooms_of_def)

text \<open>
  The \<open>finally\<close> block of the per-room endpoint on a session without a pending rollback:
  it returns, and what it does is the \<open>disconnect\<close> followed by the broadcast of the
  presence event to the connections that are left in the room.
\<close>

lemma chat_finally_spec:
  assumes inv: "registry_inv (mgr w)"
    and np: "\<not> pending_rollback w"
    and pu: "\<forall>u \<in> set (get_online_users (mgr w) room_id). parse_uuid e u \<noteq> None"
  shows "\<exists>ids online evs.
     chat_finally e room_id user w = (Returned (), snd (chat_finally e room_id user w)) \<and>
     distinct ids \<and>
     set ids = set (get_online_users (mgr w) room_id) - {uuid_str e (cu_id user)} \<and>
     online_users_of e (db w) ids [] = Returned online \<and>
     uuid_str e (cu_id user) \<notin> set (get_online_users (mgr (snd (chat_finally e room_id user w))) room_id) \<and>
     room_id \<notin> set (rooms_of (mgr (snd (chat_finally e room_id user w))) (uuid_str e (cu_id user))) \<and>
     (\<forall>r. r \<noteq> room_id \<longrightarrow>
        entries (mgr (snd (chat_finally e room_id user w))) r = entries (mgr w) r) \<and>
     db (snd (chat_finally e room_id user w)) = db w \<and>
     trace (snd (chat_finally e room_id user w)) =
       trace w @ LogDisconnected (uuid_str e (cu_id user)) room_id # evs \<and>
     (\<forall>c' ev. Sent c' ev \<in> set evs \<longrightarrow>
        ev = EvPresence Left (user_info_of e user) online \<and>
        c' \<in> snd ` set (AList.delete (uuid_str e (cu_id user)) (entries (mgr w) room_id))) \<and>
     (\<forall>u c'. (u, c') \<in> set (AList.delete (uuid_str e (cu_id user)) (entries (mgr w) room_id)) \<longrightarrow>
        live e c' \<longrightarrow> Sent c' (EvPresence Left (user_info_of e user) online) \<in> set evs)"
proof -
  let ?uid = "uuid_str e (cu_id user)"
  let ?m1 = "snd (disconnect_locked room_id ?uid (mgr w))"
  let ?w1 = "w\<lparr>mgr := ?m1, trace := trace w @ [LogDisconnected ?uid room_id]\<rparr>"
  let ?F = "chat_finally e room_id user w"
  have d: "disconnect room_id ?uid w = (Returned (), ?w1)" by (rule disconnect_eq[OF inv])
  then have sd: "snd (disconnect room_id ?uid w) = ?w1" by simp
  have s1: "shrunk w ?w1" using disconnect_shrunk[OF inv, of room_id ?uid] d by simp
  then have inv1: "registry_inv (mgr ?w1)" by (simp add: shrunk_def)
  have sub: "set (get_online_users ?m1 room_id) \<subseteq> set (get_online_users (mgr w) room_id)"
    using s1 by (simp add: shrunk_def)
  with pu have "\<forall>u \<in> set (get_online_users ?m1 room_id). parse_uuid e u \<noteq> None" by blast
  from online_users_of_returns[OF this, of "db w" "[]"] obtain online where
    on: "online_users_of e (db w) (get_online_users ?m1 room_id) [] = Returned online" by blast
  let ?ev = "EvPresence Left (user_info_of e user) online"
  have f: "?F = broadcast e room_id ?ev None ?w1"
    using np by (simp add: chat_finally_def orm_load_def d on)
  have en1: "entries ?m1 r = (if r = room_id then AList.delete ?uid (entries (mgr w) room_id)
                               else entries (mgr w) r)" for r
    using entries_disconnect[OF inv, of room_id ?uid r] d by simp
  have gone1: "?uid \<notin> set (get_online_users ?m1 room_id)"
    using inv_online_keys[OF inv1, of room_id] en1[of room_id] by (simp add: keys_delete_image)
  from broadcast_inv[OF inv1, of e room_id ?ev None]
  have r: "fst ?F = Returned ()" and dbf: "db (snd ?F) = db w" by (simp_all add: f)
  from r have pair: "?F = (Returned (), snd ?F)" by (metis prod.collapse)
  from broadcast_shrunk[OF inv1, of e room_id ?ev None]
  have s2: "shrunk ?w1 (snd ?F)" by (simp add: f)
  then have inv': "registry_inv (mgr (snd ?F))" by (simp add: shrunk_def)
  have gone: "?uid \<notin> set (get_online_users (mgr (snd ?F)) room_id)"
    using s2 gone1 unfolding shrunk_def by auto
  have nr: "room_id \<notin> set (rooms_of (mgr (snd ?F)) ?uid)"
    using gone inv_online_keys[OF inv', of room_id] inv'
    unfolding registry_inv_def views_agree_def by auto
  have other: "\<forall>r. r \<noteq> room_id \<longrightarrow> entries (mgr (snd ?F)) r = entries (mgr w) r"
    using broadcast_entries_other[OF inv1, of _ room_id e ?ev None] en1 by (simp add: f)
  from broadcast_trace[OF inv1, of e room_id ?ev None] obtain evs where evs:
    "trace (snd ?F) = trace ?w1 @ evs"
    "\<forall>c' ev. Sent c' ev \<in> set evs \<longrightarrow> ev = ?ev \<and> c' \<in> snd ` set (entries ?m1 room_id)"
    "\<forall>(u, c') \<in> set (entries ?m1 room_id). live e c' \<longrightarrow> Sent c' ?ev \<in> set evs"
    unfolding f by auto
  have evs2: "\<forall>c' ev. Sent c' ev \<in> set evs \<longrightarrow> ev = ?ev \<and>
        c' \<in> snd ` set (AList.delete ?uid (entries (mgr w) room_id))"
    using evs(2) en1[of room_id] by simp
  have evs3: "\<forall>u c'. (u, c') \<in> set (AList.delete ?uid (entries (mgr w) room_id)) \<longrightarrow>
        live e c' \<longrightarrow> Sent c' ?ev \<in> set evs"
    using evs(3) en1[of room_id] by auto
  have t: "trace (snd ?F) = trace w @ LogDisconnected ?uid room_id # evs" using evs(1) by simp
  have di: "distinct (get_online_users ?m1 room_id)"
    using inv_online_distinct[OF inv1, of room_id] by simp
  have si: "set (get_online_users ?m1 room_id) = set (get_online_users (mgr w) room_id) - {?uid}"
    using inv_online_keys[OF inv1, of room_id] inv_online_keys[OF inv, of room_id] en1[of room_id]
    by (simp add: keys_delete_image)
  show ?thesis using pair di si on gone nr other dbf t evs2 evs3 by blast
qed

text \<open>
  Claim C4, amended.  Both endpoints run their \<open>finally\<close> block on every way out of the
  \<open>try\<close> of a joined session; the statement is for a session whose database session has
  no rollback pending when the \<open>try\<close> is left (no write has failed).  Per-room endpoint
  (\<open>chat_joined\<close> is \<open>websocket_chat\<close> after \<open>connect\<close>, \<open>chat_try\<close> its \<open>try\<close> body): when
  the body is left, by a \<open>break\<close> or by an exception, the run ends, as completed or with
  that exception; the user is no longer registered in the session's room and is
  registered in the other rooms as before; what happens after the body is the
  \<open>disconnect\<close> and then the broadcast of \<open>presence\<close> with action \<open>left\<close>, carrying the
  list of the users online in the room without the one who left (in some order), to the
  connections left in that room and to every live one of them.  Generic endpoint: when
  the loop is left by an exception, the run ends, the user is registered in no room,
  every other entry is as before, and the teardown wrote nothing but one log line of
  \<open>disconnect\<close> for each room the user was in: no presence event.
\<close>

theorem teardown_runs_on_every_exit:
  assumes "registry_inv (mgr w)"
  shows "(chat_try e c room_id room_uuid room user can_send frames w = (ctl, w2) \<and>
      ctl \<noteq> Continue \<and> \<not> pending_rollback w2 \<and>
      (\<forall>u \<in> set (get_online_users (mgr w) room_id). parse_uuid e u \<noteq> None) \<longrightarrow>
        (\<exists>(w'::world) ids online evs.
           chat_joined e c room_id room_uuid room user can_send frames w =
             ((case ctl of Propagate err \<Rightarrow> Failed err | _ \<Rightarrow> Completed), w') \<and>
           uuid_str e (cu_id user) \<notin> set (get_online_users (mgr w') room_id) \<and>
           room_id \<notin> set (rooms_of (mgr w') (uuid_str e (cu_id user))) \<and>
           (\<forall>r. r \<noteq> room_id \<longrightarrow> entries (mgr w') r = entries (mgr w2) r) \<and>
           db w' = db w2 \<and>
           distinct ids \<and>
           set ids = set (get_online_users (mgr w2) room_id) - {uuid_str e (cu_id user)} \<and>
           online_users_of e (db w2) ids [] = Returned online \<and>
           trace w' = trace w2 @ LogDisconnected (uuid_str e (cu_id user)) room_id # evs \<and>
           (\<forall>c' ev. Sent c' ev \<in> set evs \<longrightarrow>
               ev = EvPresence Left (user_info_of e user) online \<and>
               c' \<in> snd ` set (AList.delete (uuid_str e (cu_id user)) (entries (mgr w2) room_id))) \<and>
           (\<forall>u c'. (u, c') \<in> set (AList.delete (uuid_str e (cu_id user))
                                      (entries (mgr w2) room_id)) \<longrightarrow>
               live e c' \<longrightarrow>
               Sent c' (EvPresence Left (user_info_of e user) online) \<in> set evs))) \<and>
     (get_current_chat_user_from_token e token (db w) = Some main_user \<and>
      main_loop e c main_user main_frames (w\<lparr>trace := trace w @ [Accepted c]\<rparr>)
        = (Propagate err, m2) \<and>
      \<not> pending_rollback m2 \<longrightarrow>
        (\<exists>m'::world.
           websocket_main e c token main_frames w =
             ((if err = WebSocketDisconnect then Completed else Failed err), m') \<and>
           rooms_of (mgr m') (uuid_str e (cu_id main_user)) = [] \<and>
           (\<forall>r. uuid_str e (cu_id main_user) \<notin> set (get_online_users (mgr m') r)) \<and>
           (\<forall>r. entries (mgr m') r =
                  AList.delete (uuid_str e (cu_id main_user)) (entries (mgr m2) r)) \<and>
           db m' = db m2 \<and>
           (\<exists>rs. distinct rs \<and> set rs = set (rooms_of (mgr m2) (uuid_str e (cu_id main_user))) \<and>
              trace m' = trace m2 @ map (\<lambda>r. LogDisconnected (uuid_str e (cu_id main_user)) r) rs)))"
proof (intro conjI impI)
  assume a: "chat_try e c room_id room_uuid room user can_send frames w = (ctl, w2) \<and>
      ctl \<noteq> Continue \<and> \<not> pending_rollback w2 \<and>
      (\<forall>u \<in> set (get_online_users (mgr w) room_id). parse_uuid e u \<noteq> None)"
  let ?F = "chat_finally e room_id user w2"
  from chat_try_shrunk[OF assms, of e c room_id room_uuid room user can_send frames] a
  have s: "shrunk w w2" by simp
  then have inv2: "registry_inv (mgr w2)"
    and "set (get_online_users (mgr w2) room_id) \<subseteq> set (get_online_users (mgr w) room_id)"
    by (simp_all add: shrunk_def)
  with a have pu: "\<forall>u \<in> set (get_online_users (mgr w2) room_id). parse_uuid e u \<noteq> None" by blast
  from a have np: "\<not> pending_rollback w2" by simp
  from chat_finally_spec[OF inv2 np pu, of user] obtain ids online evs where F:
    "?F = (Returned (), snd ?F)"
    "distinct ids"
    "set ids = set (get_online_users (mgr w2) room_id) - {uuid_str e (cu_id user)}"
    "online_users_of e (db w2) ids [] = Returned online"
    "uuid_str e (cu_id user) \<notin> set (get_online_users (mgr (snd ?F)) room_id)"
    "room_id \<notin> set (rooms_of (mgr (snd ?F)) (uuid_str e (cu_id user)))"
    "\<forall>r. r \<noteq> room_id \<longrightarrow> entries (mgr (snd ?F)) r = entries (mgr w2) r"
    "db (snd ?F) = db w2"
    "trace (snd ?F) = trace w2 @ LogDisconnected (uuid_str e (cu_id user)) room_id # evs"
    "\<forall>c' ev. Sent c' ev \<in> set evs \<longrightarrow>
        ev = EvPresence Left (user_info_of e user) online \<and>
        c' \<in> snd ` set (AList.delete (uuid_str e (cu_id user)) (entries (mgr w2) room_id))"
    "\<forall>u c'. (u, c') \<in> set (AList.delete (uuid_str e (cu_id user)) (entries (mgr w2) room_id)) \<longrightarrow>
        live e c' \<longrightarrow> Sent c' (EvPresence Left (user_info_of e user) online) \<in> set evs"
    by blast
  have j: "chat_joined e c room_id room_uuid room user can_send frames w =
             ((case ctl of Propagate err \<Rightarrow> Failed err | _ \<Rightarrow> Completed), snd ?F)"
  proof (cases ctl)
    case Continue
    with a show ?thesis by simp
  next
    case Break
    with a have t: "chat_try e c room_id room_uuid room user can_send frames w = (Break, w2)"
      by simp
    show ?thesis unfolding chat_joined_def t using F(1) Break by (cases ?F) simp
  next
    case (Propagate x)
    with a have t: "chat_try e c room_id room_uuid room user can_send frames w = (Propagate x, w2)"
      by simp
    show ?thesis unfolding chat_joined_def t using F(1) Propagate by (cases ?F) simp
  qed
  show "\<exists>(w'::world) ids online evs.
           chat_joined e c room_id room_uuid room user can_send frames w =
             ((case ctl of Propagate err \<Rightarrow> Failed err | _ \<Rightarrow> Completed), w') \<and>
           uuid_str e (cu_id user) \<notin> set (get_online_users (mgr w') room_id) \<and>
           room_id \<notin> set (rooms_of (mgr w') (uuid_str e (cu_id user))) \<and>
           (\<forall>r. r \<noteq> room_id \<longrightarrow> entries (mgr w') r = entries (mgr w2) r) \<and>
           db w' = db w2 \<and>
           distinct ids \<and>
           set ids = set (get_online_users (mgr w2) room_id) - {uuid_str e (cu_id user)} \<and>
           online_users_of e (db w2) ids [] = Returned online \<and>
           trace w' = trace w2 @ LogDisconnected (uuid_str e (cu_id user)) room_id # evs \<and>
           (\<forall>c' ev. Sent c' ev \<in> set evs \<longrightarrow>
               ev = EvPresence Left (user_info_of e user) online \<and>
               c' \<in> snd ` set (AList.delete (uuid_str e (cu_id user)) (entries (mgr w2) room_id))) \<and>
           (\<forall>u c'. (u, c') \<in> set (AList.delete (uuid_str e (cu_id user))
                                      (entries (mgr w2) room_id)) \<longrightarrow>
               live e c' \<longrightarrow>
               Sent c' (EvPresence Left (user_info_of e user) online) \<in> set evs)"
    using j F(2-11)
    by (intro exI[of _ "snd ?F"] exI[of _ ids] exI[of _ online] exI[of _ evs]) blast
next
  assume a: "get_current_chat_user_from_token e token (db w) = Some main_user \<and>
      main_loop e c main_user main_frames (w\<lparr>trace := trace w @ [Accepted c]\<rparr>)
        = (Propagate err, m2) \<and>
      \<not> pending_rollback m2"
  let ?w0 = "w\<lparr>trace := trace w @ [Accepted c]\<rparr>"
  let ?F = "main_finally e c main_user m2"
  have "registry_inv (mgr ?w0)" using assms by simp
  from main_loop_inv[OF this, of e c main_user main_frames] a
  have inv2: "registry_inv (mgr m2)" by simp
  from a have np: "\<not> pending_rollback m2" by simp
  note F = main_finally_spec[OF inv2 np, of e c main_user]
  from F have pair: "?F = (Returned (), snd ?F)" by (metis prod.collapse)
  have m: "websocket_main e c token main_frames w =
             ((if err = WebSocketDisconnect then Completed else Failed err), snd ?F)"
    using a pair by (cases ?F) (simp add: websocket_main_def)
  show "\<exists>m'::world.
           websocket_main e c token main_frames w =
             ((if err = WebSocketDisconnect then Completed else Failed err), m') \<and>
           rooms_of (mgr m') (uuid_str e (cu_id main_user)) = [] \<and>
           (\<forall>r. uuid_str e (cu_id main_user) \<notin> set (get_online_users (mgr m') r)) \<and>
           (\<forall>r. entries (mgr m') r =
                  AList.delete (uuid_str e (cu_id main_user)) (entries (mgr m2) r)) \<and>
           db m' = db m2 \<and>
           (\<exists>rs. distinct rs \<and> set rs = set (rooms_of (mgr m2) (uuid_str e (cu_id main_user))) \<and>
              trace m' = trace m2 @ map (\<lambda>r. LogDisconnected (uuid_str e (cu_id main_user)) r) rs)"
    using m F inv_rooms_distinct[OF inv2, of "uuid_str e (cu_id main_user)"]
    by (intro exI[of _ "snd ?F"]) blast
qed


lemmas session_eval = chat_joined_def chat_try_def chat_initial_def chat_finally_def
  get_chat_messages_def user_info_of_def other_user_world_def

text \<open>
  Claim C4 as stated fails.  On the generic endpoint a user joins a room in which another
  user has a live connection and then disconnects; the teardown unregisters the user and
  sends no presence event to the connection that stays.  On the per-room endpoint a
  message with the empty string as \<open>reply_to_id\<close> is refused by the database and answered
  with an \<open>error\<close> event, a second, well-formed message is then answered with an \<open>error\<close>
  event as well, and when the client disconnects the \<open>finally\<close> block raises at
  \<open>str(user.id)\<close>: the user stays registered in the room and nothing more is written.
\<close>

theorem generic_teardown_counterexample:
  "entries (mgr other_user_world) ''r1'' = [(''u2'', 3)] \<and> live example_env 3 \<and>
   fst (websocket_main example_env 1 ''tok1''
          [RecvJson (join_frame ''r1''), RecvDisconnect] other_user_world) = Completed \<and>
   trace (snd (websocket_main example_env 1 ''tok1''
          [RecvJson (join_frame ''r1''), RecvDisconnect] other_user_world)) =
     [LogConnected ''u2'' ''r1'', Accepted 1, LogConnected ''u1'' ''r1'',
      LogDisconnected ''u1'' ''r1''] \<and>
   entries (mgr (snd (websocket_main example_env 1 ''tok1''
          [RecvJson (join_frame ''r1''), RecvDisconnect] other_user_world))) ''r1'' = [(''u2'', 3)] \<and>
   entries (mgr room_world) ''r1'' = [(''u1'', 1), (''u2'', 3)] \<and>
   uuid_str example_env (cu_id alice) = ''u1'' \<and>
   fst (chat_joined example_env 1 ''r1'' 10 \<lparr>cr_id = 10, cr_name = ''general''\<rparr> alice True
      [RecvJson (chat_message_frame (Some (JStr ''hi'')) (Some (JStr ''''))),
       RecvJson (chat_message_frame (Some (JStr ''hi'')) None), RecvDisconnect] room_world)
     = Failed PendingRollbackError \<and>
   entries (mgr (snd (chat_joined example_env 1 ''r1'' 10 \<lparr>cr_id = 10, cr_name = ''general''\<rparr>
      alice True
      [RecvJson (chat_message_frame (Some (JStr ''hi'')) (Some (JStr ''''))),
       RecvJson (chat_message_frame (Some (JStr ''hi'')) None), RecvDisconnect] room_world)))
     ''r1'' = [(''u1'', 1), (''u2'', 3)] \<and>
   messages (db (snd (chat_joined example_env 1 ''r1'' 10 \<lparr>cr_id = 10, cr_name = ''general''\<rparr>
      alice True
      [RecvJson (chat_message_frame (Some (JStr ''hi'')) (Some (JStr ''''))),
       RecvJson (chat_message_frame (Some (JStr ''hi'')) None), RecvDisconnect] room_world)))
     = [] \<and>
   (\<forall>c' info online. Sent c' (EvPresence Left info online) \<notin> set (trace (snd (chat_joined
      example_env 1 ''r1'' 10 \<lparr>cr_id = 10, cr_name = ''general''\<rparr> alice True
      [RecvJson (chat_message_frame (Some (JStr ''hi'')) (Some (JStr ''''))),
       RecvJson (chat_message_frame (Some (JStr ''hi'')) None), RecvDisconnect] room_world)))) \<and>
   [ev \<leftarrow> trace (snd (chat_joined
      example_env 1 ''r1'' 10 \<lparr>cr_id = 10, cr_name = ''general''\<rparr> alice True
      [RecvJson (chat_message_frame (Some (JStr ''hi'')) (Some (JStr ''''))),
       RecvJson (chat_message_frame (Some (JStr ''hi'')) None), RecvDisconnect] room_world)).
        \<exists>m. ev = Sent 1 (EvError m)] =
     [Sent 1 (EvError (ExceptionText StatementError)),
      Sent 1 (EvError (ExceptionText PendingRollbackError))]"
  by (simp add: main_eval token_eval registry_eval example_eval session_eval live_def room_eval)

theorem teardown_runs_on_every_exit_witness:
  "registry_inv (mgr room_world) \<and>
   fst (chat_try example_env 1 ''r1'' 10 \<lparr>cr_id = 10, cr_name = ''general''\<rparr> alice True
          [RecvDisconnect] room_world) = Break \<and>
   \<not> pending_rollback (snd (chat_try example_env 1 ''r1'' 10
          \<lparr>cr_id = 10, cr_name = ''general''\<rparr> alice True [RecvDisconnect] room_world)) \<and>
   set (get_online_users (mgr room_world) ''r1'') = {''u1'', ''u2''} \<and>
   parse_uuid example_env ''u1'' = Some 1 \<and> parse_uuid example_env ''u2'' = Some 2 \<and>
   uuid_str example_env (cu_id alice) = ''u1'' \<and>
   fst (chat_joined example_env 1 ''r1'' 10 \<lparr>cr_id = 10, cr_name = ''general''\<rparr> alice True
          [RecvDisconnect] room_world) = Completed \<and>
   ''u1'' \<notin> set (get_online_users (mgr (snd (chat_joined example_env 1 ''r1'' 10
          \<lparr>cr_id = 10, cr_name = ''general''\<rparr> alice True [RecvDisconnect] room_world))) ''r1'') \<and>
   entries (mgr (snd (chat_joined example_env 1 ''r1'' 10
          \<lparr>cr_id = 10, cr_name = ''general''\<rparr> alice True [RecvDisconnect] room_world))) ''r1''
     = [(''u2'', 3)] \<and>
   trace (snd (chat_joined example_env 1 ''r1'' 10 \<lparr>cr_id = 10, cr_name = ''general''\<rparr> alice True
          [RecvDisconnect] room_world)) =
     trace (snd (chat_try example_env 1 ''r1'' 10 \<lparr>cr_id = 10, cr_name = ''general''\<rparr> alice True
          [RecvDisconnect] room_world)) @
     [LogDisconnected ''u1'' ''r1'',
      Sent 3 (EvPresence Left (user_info_of example_env alice) [user_info_of example_env bob])] \<and>
   get_current_chat_user_from_token example_env ''tok1'' (db room_world) = Some alice \<and>
   main_loop example_env 1 alice [RecvDisconnect]
       (room_world\<lparr>trace := trace room_world @ [Accepted 1]\<rparr>) =
     (Propagate WebSocketDisconnect, room_world\<lparr>trace := trace room_world @ [Accepted 1]\<rparr>) \<and>
   \<not> pending_rollback (room_world\<lparr>trace := trace room_world @ [Accepted 1]\<rparr>) \<and>
   fst (websocket_main example_env 1 ''tok1'' [RecvDisconnect] room_world) = Completed \<and>
   rooms_of (mgr (snd (websocket_main example_env 1 ''tok1'' [RecvDisconnect] room_world)))
     ''u1'' = [] \<and>
   entries (mgr (snd (websocket_main example_env 1 ''tok1'' [RecvDisconnect] room_world))) ''r1''
     = [(''u2'', 3)] \<and>
   trace (snd (websocket_main example_env 1 ''tok1'' [RecvDisconnect] room_world)) =
     trace room_world @ [Accepted 1, LogDisconnected ''u1'' ''r1'']"
proof -
  let ?room = "\<lparr>cr_id = 10, cr_name = ''general''\<rparr>"
  let ?T = "chat_try example_env 1 ''r1'' 10 ?room alice True [RecvDisconnect] room_world"
  let ?J = "chat_joined example_env 1 ''r1'' 10 ?room alice True [RecvDisconnect] room_world"
  let ?M = "websocket_main example_env 1 ''tok1'' [RecvDisconnect] room_world"
  let ?w0 = "room_world\<lparr>trace := trace room_world @ [Accepted 1]\<rparr>"
  have 1: "set (get_online_users (mgr room_world) ''r1'') = {''u1'', ''u2''}"
    by (simp add: room_eval)
  have 2: "parse_uuid example_env ''u1'' = Some 1" "parse_uuid example_env ''u2'' = Some 2"
    by (simp_all add: example_env_def)
  have 3: "\<forall>u \<in> set (get_online_users (mgr room_world) ''r1''). parse_uuid example_env u \<noteq> None"
    unfolding 1 using 2 by simp
  have 4: "fst ?T = Break" by (simp add: room_eval session_eval)
  have 5: "uuid_str example_env (cu_id alice) = ''u1''" by (simp add: example_env_def alice_def)
  have 6: "\<not> pending_rollback (snd ?T)" by (simp add: room_eval session_eval)
  have 7: "get_current_chat_user_from_token example_env ''tok1'' (db room_world) = Some alice"
    by (simp add: token_eval room_eval)
  have 8: "main_loop example_env 1 alice [RecvDisconnect] ?w0 = (Propagate WebSocketDisconnect, ?w0)"
    by (simp add: receive_json_def)
  have 9: "\<not> pending_rollback ?w0" by (simp add: room_eval)
  have 10: "entries (mgr (snd ?T)) ''r1'' = [(''u1'', 1), (''u2'', 3)]"
    by (simp add: room_eval session_eval)
  have 11: "entries (mgr room_world) ''r1'' = [(''u1'', 1), (''u2'', 3)]"
    "rooms_of (mgr room_world) ''u1'' = [''r1'']"
    by (simp_all add: room_eval)
  have 12: "db (snd ?T) = db room_world" by (simp add: room_eval session_eval)
  have l3: "live example_env 3" by (simp add: live_def example_env_def)
  have t: "?T = (Break, snd ?T)" using 4 by (metis prod.collapse)
  note T = teardown_runs_on_every_exit[OF room_world_inv, where room_id = "''r1''"
      and e = example_env and c = 1 and room_uuid = 10 and room = ?room and user = alice
      and can_send = True and frames = "[RecvDisconnect]" and ctl = Break and ?w2.0 = "snd ?T"
      and token = "''tok1''" and main_user = alice and main_frames = "[RecvDisconnect]"
      and err = WebSocketDisconnect and ?m2.0 = ?w0]
  from T t 6 3 obtain w' evs where J:
    "?J = (Completed, w')"
    "uuid_str example_env (cu_id alice) \<notin> set (get_online_users (mgr w') ''r1'')"
    "trace w' = trace (snd ?T) @ LogDisconnected (uuid_str example_env (cu_id alice)) ''r1'' # evs"
    by auto
  from J(1) have j1: "fst ?J = Completed" and j2: "snd ?J = w'" by simp_all
  have a: "''u1'' \<notin> set (get_online_users (mgr (snd ?J)) ''r1'')" using J(2) j2 5 by simp
  have ej: "entries (mgr (snd ?J)) ''r1'' = [(''u2'', 3)]" by (simp add: room_eval session_eval)
  have tj: "trace (snd ?J) = trace (snd ?T) @
     [LogDisconnected ''u1'' ''r1'',
      Sent 3 (EvPresence Left (user_info_of example_env alice) [user_info_of example_env bob])]"
    by (simp add: room_eval session_eval)
  from T 7 8 9 obtain m' rs where M:
    "?M = (Completed, m')"
    "rooms_of (mgr m') (uuid_str example_env (cu_id alice)) = []"
    "\<forall>r. entries (mgr m') r =
        AList.delete (uuid_str example_env (cu_id alice)) (entries (mgr ?w0) r)"
    "distinct rs" "set rs = set (rooms_of (mgr ?w0) (uuid_str example_env (cu_id alice)))"
    "trace m' = trace ?w0 @ map (\<lambda>r. LogDisconnected (uuid_str example_env (cu_id alice)) r) rs"
    by auto
  from M(1) have m1: "fst ?M = Completed" and m2: "snd ?M = m'" by simp_all
  have b: "rooms_of (mgr (snd ?M)) ''u1'' = []" using M(2) m2 5 by simp
  have em: "entries (mgr (snd ?M)) ''r1'' = [(''u2'', 3)]"
    using M(3) m2 5 11 by (simp add: AList.delete_eq)
  have "set rs = {''r1''}" using M(5) 5 11 by simp
  with M(4) have "rs = [''r1'']" by (rule distinct_singleton)
  then have tm: "trace (snd ?M) = trace room_world @ [Accepted 1, LogDisconnected ''u1'' ''r1'']"
    using M(6) m2 5 by simp
  show ?thesis using room_world_inv 1 2 4 5 6 7 8 9 j1 a ej tj m1 b em tm by simp
qed

text \<open>
  The same for a whole run of the per-room endpoint after \<open>connect\<close>: with a failed
  \<open>INSERT\<close> behind it the run ends with \<open>PendingRollbackError\<close> and the registry is as
  it was when the \<open>try\<close> body was left.
\<close>

lemma failed_insert_skips_teardown:
  assumes "chat_try e c room_id room_uuid room user can_send frames w = (ctl, w2)"
    and "ctl \<noteq> Continue" and "pending_rollback w2"
  shows "chat_joined e c room_id room_uuid room user can_send frames w =
     (Failed PendingRollbackError, w2)"
  using assms
  by (cases ctl) (simp_all add: chat_joined_def chat_finally_def orm_load_def)

end
